(* ===== verification/Py_Text.thy ===== *)
theory Py_Text
  imports Prelude
begin

section \<open>Python strings and integers: what the sources use of them\<close>

text \<open>
  The string and integer operations of the Python language that the repository calls:
  \<open>str.upper\<close>, \<open>str.strip\<close>, \<open>str.replace\<close> of one character, \<open>int(...)\<close> on
  strings and byte strings, and the decimal text of an integer. They follow CPython:
  \<open>int\<close> strips white space, allows one sign, single underscores between digits and
  every Unicode decimal digit, and refuses more than 4300 digits.
\<close>

subsection \<open>Characters\<close>

definition unicode_space :: "nat \<Rightarrow> bool" where
  "unicode_space c \<longleftrightarrow>
     c \<in> set [9, 10, 11, 12, 13, 28, 29, 30, 31, 32, 133, 160, 5760, 8192, 8193, 8194, 8195,
       8196, 8197, 8198, 8199, 8200, 8201, 8202, 8232, 8233, 8239, 8287, 12288]"

text \<open>The code points of the digit zero outside ASCII; each starts a run of ten digits.\<close>

definition decimal_zeros :: "nat list" where
  "decimal_zeros =
     [1632, 1776, 1984, 2406, 2534, 2662, 2790, 2918, 3046, 3174, 3302, 3430, 3558, 3664, 3792,
      3872, 4160, 4240, 6112, 6160, 6470, 6608, 6784, 6800, 6992, 7088, 7232, 7248, 42528, 43216,
      43264, 43472, 43504, 43600, 44016, 65296, 66720, 68912, 69734, 69872, 69942, 70096, 70384,
      70736, 70864, 71248, 71360, 71472, 71904, 72016, 72784, 73040, 73120, 92768, 92864, 93008,
      120782, 120792, 120802, 120812, 120822, 123200, 123632, 125264, 130032]"

definition is_digit :: "nat \<Rightarrow> bool" where
  "is_digit c \<longleftrightarrow> 48 \<le> c \<and> c \<le> 57"

definition c_space :: "nat \<Rightarrow> bool" where
  "c_space c \<longleftrightarrow> c = 32 \<or> (9 \<le> c \<and> c \<le> 13)"

subsection \<open>Upper case and stripping\<close>

text \<open>
  \<open>str.upper\<close> on ASCII letters and on the ten code points outside ASCII whose upper case
  is made of ASCII letters. Every other code point outside ASCII has an upper case with a
  code point outside ASCII; it is left as it is, which no comparison with an ASCII command
  name or option can tell apart.
\<close>

definition upper_cp :: "nat \<Rightarrow> ustr" where
  "upper_cp c =
     (if 97 \<le> c \<and> c \<le> 122 then [c - 32]
      else if c < 128 then [c]
      else if c = 223 then lit ''SS''
      else if c = 305 then lit ''I''
      else if c = 383 then lit ''S''
      else if c = 64256 then lit ''FF''
      else if c = 64257 then lit ''FI''
      else if c = 64258 then lit ''FL''
      else if c = 64259 then lit ''FFI''
      else if c = 64260 then lit ''FFL''
      else if c = 64261 \<or> c = 64262 then lit ''ST''
      else [c])"

definition py_upper :: "ustr \<Rightarrow> ustr" where
  "py_upper s = concat (map upper_cp s)"

definition py_strip :: "ustr \<Rightarrow> ustr" where
  "py_strip s = rev (dropWhile unicode_space (rev (dropWhile unicode_space s)))"

definition py_replace1 :: "nat \<Rightarrow> nat \<Rightarrow> ustr \<Rightarrow> ustr" where
  "py_replace1 a b s = map (\<lambda>c. if c = a then b else c) s"

lemma py_upper_append: "py_upper (s @ t) = py_upper s @ py_upper t"
  by (simp add: py_upper_def)

lemma py_upper_id:
  "list_all (\<lambda>c. c < 128 \<and> \<not> (97 \<le> c \<and> c \<le> 122)) s \<Longrightarrow> py_upper s = s"
  by (induction s) (auto simp: py_upper_def upper_cp_def)

lemma set_py_replace1: "a \<noteq> b \<Longrightarrow> a \<notin> set (py_replace1 a b s)"
  by (auto simp: py_replace1_def)

lemma set_py_replace1_sub: "set (py_replace1 a b s) \<subseteq> insert b (set s)"
  by (auto simp: py_replace1_def)

subsection \<open>Reading an integer\<close>

text \<open>The value of a run of digits, underscores dropped.\<close>

definition digits_value :: "ustr \<Rightarrow> nat" where
  "digits_value ds = foldl (\<lambda>a d. 10 * a + (d - 48)) 0 ds"

fun no_double_underscore :: "ustr \<Rightarrow> bool" where
  "no_double_underscore (a # b # s) = (\<not> (a = 95 \<and> b = 95) \<and> no_double_underscore (b # s))"
| "no_double_underscore s = True"

definition int_max_str_digits :: nat where
  "int_max_str_digits = 4300"

definition digits_ok :: "ustr \<Rightarrow> bool" where
  "digits_ok ds \<longleftrightarrow> ds \<noteq> [] \<and> hd ds \<noteq> 95 \<and> last ds \<noteq> 95 \<and> no_double_underscore ds \<and>
     length (filter is_digit ds) \<le> int_max_str_digits"

text \<open>
  \<open>int(b)\<close> on the code units of an ASCII string: leading white space, a sign, digits and
  underscores, trailing white space, nothing else. \<open>None\<close> is the \<open>ValueError\<close>.
\<close>

definition int_of_ascii :: "ustr \<Rightarrow> int option" where
  "int_of_ascii s =
     (let s1 = dropWhile c_space s;
          neg = (s1 \<noteq> [] \<and> hd s1 = 45);
          s2 = (if s1 \<noteq> [] \<and> (hd s1 = 45 \<or> hd s1 = 43) then tl s1 else s1);
          body = takeWhile (\<lambda>c. is_digit c \<or> c = 95) s2;
          rest = dropWhile (\<lambda>c. is_digit c \<or> c = 95) s2;
          n = int (digits_value (filter is_digit body))
      in if digits_ok body \<and> list_all c_space rest then Some (if neg then - n else n) else None)"

definition py_int_bytes :: "bytes \<Rightarrow> int option" where
  "py_int_bytes b = int_of_ascii (map of_char b)"

text \<open>
  On a Python string every decimal digit and every space outside ASCII is first replaced by
  its ASCII counterpart, and anything else outside ASCII by a question mark.
\<close>

definition decimal_ascii :: "nat \<Rightarrow> nat" where
  "decimal_ascii c =
     (if c < 127 then c
      else if unicode_space c then 32
      else (case find (\<lambda>z. z \<le> c \<and> c \<le> z + 9) decimal_zeros of
              Some z \<Rightarrow> 48 + (c - z)
            | None \<Rightarrow> 63))"

definition py_int :: "ustr \<Rightarrow> int option" where
  "py_int s = int_of_ascii (map decimal_ascii s)"

subsection \<open>Printing an integer\<close>

fun nat_str :: "nat \<Rightarrow> ustr" where
  "nat_str n = (if n < 10 then [48 + n] else nat_str (n div 10) @ [48 + n mod 10])"

declare nat_str.simps [simp del]

definition int_str :: "int \<Rightarrow> ustr" where
  "int_str i = (if i < 0 then 45 # nat_str (nat (- i)) else nat_str (nat i))"

lemma nat_str_small [wire_simps]: "n < 10 \<Longrightarrow> nat_str n = [48 + n]"
  by (simp add: nat_str.simps)

lemma nat_str_big [wire_simps]: "10 \<le> n \<Longrightarrow> nat_str n = nat_str (n div 10) @ [48 + n mod 10]"
  by (subst nat_str.simps) simp

lemma nat_str_not_Nil [simp]: "nat_str n \<noteq> []"
  by (subst nat_str.simps) simp

lemma nat_str_digits: "list_all is_digit (nat_str n)"
proof (induction n rule: nat_str.induct)
  case (1 n)
  have "n mod 10 < 10" by simp
  then have "is_digit (48 + n mod 10)" unfolding is_digit_def by linarith
  moreover have "n < 10 \<Longrightarrow> is_digit (48 + n)" unfolding is_digit_def by linarith
  ultimately show ?case
    using 1 by (subst nat_str.simps) auto
qed

lemma nat_str_value: "digits_value (nat_str n) = n"
proof (induction n rule: nat_str.induct)
  case (1 n)
  show ?case
  proof (cases "n < 10")
    case True
    then show ?thesis by (simp add: nat_str_small digits_value_def)
  next
    case False
    then have "digits_value (nat_str n) = 10 * digits_value (nat_str (n div 10)) + n mod 10"
      by (simp add: nat_str_big digits_value_def)
    with 1 False show ?thesis by simp
  qed
qed

lemma nat_str_length: "0 < k \<Longrightarrow> n < 10 ^ k \<Longrightarrow> length (nat_str n) \<le> k"
proof (induction n arbitrary: k rule: nat_str.induct)
  case (1 n)
  show ?case
  proof (cases "n < 10")
    case True
    with 1 show ?thesis by (simp add: nat_str_small)
  next
    case False
    with 1 have "k \<noteq> 1" by auto
    with 1 obtain j where k: "k = Suc j" and j: "0 < j"
      by (cases k) auto
    with 1 have "n div 10 < 10 ^ j"
      by (simp add: less_mult_imp_div_less mult.commute)
    with 1 False j have "length (nat_str (n div 10)) \<le> j" by simp
    with False k show ?thesis by (simp add: nat_str_big)
  qed
qed

lemma no_double_underscore_digits: "list_all is_digit ds \<Longrightarrow> no_double_underscore ds"
  by (induction ds rule: no_double_underscore.induct) (auto simp: is_digit_def)

lemma digits_ok_digits:
  assumes "list_all is_digit ds" and "ds \<noteq> []" and "length ds \<le> int_max_str_digits"
  shows "digits_ok ds"
proof -
  have "is_digit (hd ds)" and "is_digit (last ds)"
    using assms by (auto simp: list_all_iff)
  then show ?thesis
    using assms by (auto simp: digits_ok_def no_double_underscore_digits is_digit_def
        intro: order_trans [OF length_filter_le])
qed

text \<open>
  The bound under which a number survives printing and reading: at most 4300 digits.
\<close>

definition printable :: "nat \<Rightarrow> bool" where
  "printable n \<longleftrightarrow> n < 10 ^ int_max_str_digits"

lemma int_of_ascii_digits:
  assumes "list_all is_digit ds" and "ds \<noteq> []" and "length ds \<le> int_max_str_digits"
  shows "int_of_ascii ds = Some (int (digits_value ds))"
    and "int_of_ascii (45 # ds) = Some (- int (digits_value ds))"
proof -
  have hd: "is_digit (hd ds)"
    using assms(1,2) by (auto simp: list_all_iff)
  then have ns: "\<not> c_space (hd ds)" and sign: "hd ds \<noteq> 45" "hd ds \<noteq> 43"
    by (auto simp: is_digit_def c_space_def)
  have dw: "dropWhile c_space ds = ds"
    using ns by (cases ds) auto
  have all: "list_all (\<lambda>c. is_digit c \<or> c = 95) ds"
    using assms(1) by (auto simp: list_all_iff)
  then have body: "takeWhile (\<lambda>c. is_digit c \<or> c = 95) ds = ds"
    and rest: "dropWhile (\<lambda>c. is_digit c \<or> c = 95) ds = []"
    by (auto simp: list_all_iff takeWhile_eq_all_conv dropWhile_eq_Nil_conv)
  have fil: "filter is_digit ds = ds"
    using assms(1) by (simp add: list_all_iff)
  have ok: "digits_ok ds"
    using assms by (rule digits_ok_digits)
  show "int_of_ascii ds = Some (int (digits_value ds))"
    using ok sign by (simp add: int_of_ascii_def Let_def dw body rest fil)
  show "int_of_ascii (45 # ds) = Some (- int (digits_value ds))"
    using ok by (simp add: int_of_ascii_def Let_def body rest fil c_space_def)
qed

lemma int_max_str_digits_pos: "0 < int_max_str_digits"
  by (simp add: int_max_str_digits_def)

lemma printable_length: "printable n \<Longrightarrow> length (nat_str n) \<le> int_max_str_digits"
  unfolding printable_def by (rule nat_str_length [OF int_max_str_digits_pos])

lemma nat_str_bound: "n < 10 ^ length (nat_str n)"
proof (induction n rule: nat_str.induct)
  case (1 n)
  show ?case
  proof (cases "n < 10")
    case False
    then have "n div 10 < 10 ^ length (nat_str (n div 10))" using 1 by simp
    then have "n < 10 * 10 ^ length (nat_str (n div 10))" by linarith
    then show ?thesis using False by (simp add: nat_str_big)
  qed (simp add: nat_str_small)
qed

lemma printable_iff: "length (nat_str n) \<le> int_max_str_digits \<longleftrightarrow> printable n"
proof
  assume "length (nat_str n) \<le> int_max_str_digits"
  then have "(10::nat) ^ length (nat_str n) \<le> 10 ^ int_max_str_digits"
    by (rule power_increasing) simp
  with nat_str_bound [of n] have "n < 10 ^ int_max_str_digits" by (rule less_le_trans)
  then show "printable n" by (simp only: printable_def)
qed (rule printable_length)

lemma printable_mono: "printable n \<Longrightarrow> m \<le> n \<Longrightarrow> printable m"
  by (simp add: printable_def)

lemma printable_small: "n < 10 ^ 20 \<Longrightarrow> printable n"
proof -
  assume "n < 10 ^ 20"
  also have "(10::nat) ^ 20 \<le> 10 ^ int_max_str_digits"
    by (rule power_increasing) (simp_all add: int_max_str_digits_def)
  finally show ?thesis by (simp only: printable_def)
qed

lemma int_of_ascii_nat_str [wire_simps]: "printable n \<Longrightarrow> int_of_ascii (nat_str n) = Some (int n)"
  using int_of_ascii_digits(1) [OF nat_str_digits nat_str_not_Nil] printable_length nat_str_value
  by simp

lemma int_of_ascii_int_str [wire_simps]:
  assumes "printable (nat \<bar>i\<bar>)"
  shows "int_of_ascii (int_str i) = Some i"
proof (cases "i < 0")
  case True
  with assms have "length (nat_str (nat (- i))) \<le> int_max_str_digits"
    by (intro printable_length) simp
  with True int_of_ascii_digits(2) [OF nat_str_digits nat_str_not_Nil] nat_str_value
  show ?thesis by (simp add: int_str_def)
next
  case False
  with assms show ?thesis by (simp add: int_str_def int_of_ascii_nat_str)
qed

lemma int_str_ascii: "c \<in> set (int_str i) \<Longrightarrow> c = 45 \<or> is_digit c"
  using nat_str_digits by (fastforce simp: int_str_def list_all_iff split: if_splits)

lemma py_int_ascii: "list_all (\<lambda>c. c < 127) s \<Longrightarrow> py_int s = int_of_ascii s"
proof -
  assume "list_all (\<lambda>c. c < 127) s"
  then have "map decimal_ascii s = s"
    by (induction s) (auto simp: decimal_ascii_def)
  then show ?thesis by (simp add: py_int_def)
qed

lemma py_int_int_str: "printable (nat \<bar>i\<bar>) \<Longrightarrow> py_int (int_str i) = Some i"
proof -
  assume p: "printable (nat \<bar>i\<bar>)"
  have "list_all (\<lambda>c. c < 127) (int_str i)"
    using int_str_ascii by (fastforce simp: list_all_iff is_digit_def)
  then show ?thesis
    using p by (simp add: py_int_ascii int_of_ascii_int_str)
qed

interpretation int_text: codec int_str py_int "\<lambda>i. printable (nat \<bar>i\<bar>)"
  by unfold_locales (rule py_int_int_str)

end
