(* ===== verification/Py_Float.thy ===== *)
theory Py_Float
  imports Complex_Main Prelude
begin

section \<open>Python floats: what the clock needs of binary64\<close>

text \<open>
  Deadlines are Python floats. A finite float is a rational number of the binary64 format,
  and a sum or difference of two floats is the exact rational result rounded by \<open>fl\<close>:
  to 53 significant bits, ties to even, no bit below \<open>2\<^sup>-\<^sup>1\<^sup>0\<^sup>7\<^sup>4\<close>. Converting an
  integer rounds in the same way and raises \<open>OverflowError\<close> past the largest float. Clock
  values are finite floats below \<open>2\<^sup>9\<^sup>0\<^sup>0\<close>, so no sum of a clock value and a
  converted integer leaves the format.

  Rounding is the identity on the multiples of \<open>2\<^sup>-\<^sup>2\<^sup>2\<close> below \<open>2\<^sup>3\<^sup>1\<close>.
  Every float between \<open>2\<^sup>3\<^sup>0\<close> and \<open>2\<^sup>3\<^sup>1\<close> is such a multiple: these are the
  values of \<open>time.time()\<close> from 2004 to 2038.
\<close>

subsection \<open>Binary logarithm\<close>

fun nlog2 :: "nat \<Rightarrow> nat" where
  "nlog2 n = (if n < 2 then 0 else Suc (nlog2 (n div 2)))"

declare nlog2.simps [simp del]

lemma nlog2_bounds: "0 < n \<Longrightarrow> 2 ^ nlog2 n \<le> n \<and> n < 2 ^ Suc (nlog2 n)"
proof (induction n rule: nlog2.induct)
  case (1 n)
  show ?case
  proof (cases "n < 2")
    case True
    with 1 show ?thesis by (subst (1 2) nlog2.simps) simp
  next
    case False
    with 1 have "2 ^ nlog2 (n div 2) \<le> n div 2 \<and> n div 2 < 2 ^ Suc (nlog2 (n div 2))"
      by simp
    then have "2 ^ Suc (nlog2 (n div 2)) \<le> n \<and> n < 2 ^ Suc (Suc (nlog2 (n div 2)))"
      by auto
    with False show ?thesis by (simp add: nlog2.simps [of n])
  qed
qed

definition ilog2 :: "rat \<Rightarrow> int" where
  "ilog2 x =
     (case quotient_of x of (p, q) \<Rightarrow>
        let k = int (nlog2 (nat p)) - int (nlog2 (nat q))
        in if 2 powi k \<le> x then k else k - 1)"

lemma powi_diff_nat: "(2::rat) powi (int a - int b) = 2 ^ a / 2 ^ b"
  by (simp add: power_int_diff)

lemma powi_add_nat: "(2::rat) powi (int a + int b) = 2 ^ a * 2 ^ b"
  by (simp add: power_int_add)

lemma ilog2_le:
  assumes "0 < x"
  shows "2 powi ilog2 x \<le> x"
proof -
  obtain p q where pq: "quotient_of x = (p, q)" by (cases "quotient_of x")
  then have x: "x = of_int p / of_int q" and q: "0 < q"
    by (auto dest: quotient_of_div quotient_of_denom_pos)
  with assms have p: "0 < p" by (simp add: zero_less_divide_iff)
  let ?a = "nlog2 (nat p)" and ?b = "nlog2 (nat q)"
  have "2 ^ ?a \<le> nat p" using p nlog2_bounds [of "nat p"] by simp
  then have "int (2 ^ ?a) \<le> p" using p by linarith
  then have a: "(2::rat) ^ ?a \<le> of_int p"
    by (metis of_int_le_iff of_int_of_nat_eq of_nat_numeral of_nat_power)
  have "nat q < 2 ^ Suc ?b" using q nlog2_bounds [of "nat q"] by simp
  then have "q < int (2 ^ Suc ?b)" using q by linarith
  then have b: "of_int q < (2::rat) ^ Suc ?b"
    by (metis of_int_less_iff of_int_of_nat_eq of_nat_numeral of_nat_power)
  have "(2::rat) powi (int ?a - int ?b - 1) = 2 ^ ?a / 2 ^ Suc ?b"
    using powi_diff_nat [of ?a "Suc ?b"] by (simp add: algebra_simps)
  also have "\<dots> \<le> of_int p / of_int q"
    using a b p q by (intro frac_le) simp_all
  finally have "(2::rat) powi (int ?a - int ?b - 1) \<le> x" by (simp add: x)
  then show ?thesis by (simp add: ilog2_def pq Let_def)
qed

subsection \<open>Rounding\<close>

definition round_even :: "rat \<Rightarrow> int" where
  "round_even x =
     (let f = \<lfloor>x\<rfloor>; d = x - of_int f
      in if d < 1 / 2 then f else if 1 / 2 < d then f + 1 else if even f then f else f + 1)"

definition float_unit :: "rat \<Rightarrow> rat" where
  "float_unit x = 2 powi (max (ilog2 \<bar>x\<bar> - 52) (- 1074))"

definition fl :: "rat \<Rightarrow> rat" where
  "fl x = (if x = 0 then 0 else of_int (round_even (x / float_unit x)) * float_unit x)"

definition float_of_int :: "int \<Rightarrow> rat option" where
  "float_of_int i = (if \<bar>fl (of_int i)\<bar> < 2 ^ 1024 then Some (fl (of_int i)) else None)"

lemma round_even_int [simp]: "round_even (of_int i) = i"
  by (simp add: round_even_def)

definition grid :: "rat \<Rightarrow> bool" where
  "grid x \<longleftrightarrow> x * 2 ^ 22 \<in> \<int> \<and> \<bar>x\<bar> < 2 ^ 31"

lemma powi_exponent_less:
  assumes "(2::rat) powi l \<le> y" and "y < 2 ^ n"
  shows "l < int n"
proof (rule ccontr)
  assume "\<not> l < int n"
  then have "(2::rat) powi int n \<le> 2 powi l" by (intro power_int_increasing) simp_all
  with assms show False by simp
qed

lemma fl_grid:
  assumes "grid x"
  shows "fl x = x"
proof (cases "x = 0")
  case True
  then show ?thesis by (simp add: fl_def)
next
  case False
  define e where "e = max (ilog2 \<bar>x\<bar> - 52) (- 1074)"
  have "2 powi ilog2 \<bar>x\<bar> \<le> \<bar>x\<bar>" using False by (intro ilog2_le) simp
  then have "ilog2 \<bar>x\<bar> < int 31"
    using assms by (intro powi_exponent_less) (auto simp: grid_def)
  then have e: "e \<le> - 22" by (simp add: e_def)
  obtain m where m: "x * 2 ^ 22 = of_int m" using assms by (auto simp: grid_def Ints_def)
  have "x / 2 powi e = x * 2 powi (- e)" by (simp add: power_int_minus divide_inverse)
  also have "- e = int 22 + int (nat (- e - 22))" using e by simp
  also have "(2::rat) powi (int 22 + int (nat (- e - 22))) = 2 ^ 22 * 2 ^ nat (- e - 22)"
    by (rule powi_add_nat)
  also have "x * (2 ^ 22 * 2 ^ nat (- e - 22)) = of_int (m * 2 ^ nat (- e - 22))"
    using m by (simp add: mult.assoc [symmetric])
  finally have r: "x / 2 powi e = of_int (m * 2 ^ nat (- e - 22))" .
  have "fl x = of_int (round_even (x / 2 powi e)) * 2 powi e"
    using False by (simp add: fl_def float_unit_def e_def)
  also have "\<dots> = x / 2 powi e * 2 powi e" by (simp only: r round_even_int)
  also have "\<dots> = x" by simp
  finally show ?thesis .
qed

lemma grid_of_int: "\<bar>i\<bar> < 2 ^ 31 \<Longrightarrow> grid (of_int i)"
proof -
  assume "\<bar>i\<bar> < 2 ^ 31"
  then have "(of_int \<bar>i\<bar> :: rat) < of_int (2 ^ 31)" by (simp only: of_int_less_iff)
  moreover have "(of_int i :: rat) * 2 ^ 22 \<in> \<int>"
    by (metis Ints_mult Ints_of_int Ints_power Ints_numeral)
  ultimately show ?thesis by (simp add: grid_def)
qed

lemma fl_of_int: "\<bar>i\<bar> < 2 ^ 31 \<Longrightarrow> fl (of_int i) = of_int i"
  by (intro fl_grid grid_of_int)

lemma float_of_int_exact: "\<bar>i\<bar> < 2 ^ 31 \<Longrightarrow> float_of_int i = Some (of_int i)"
proof -
  assume i: "\<bar>i\<bar> < 2 ^ 31"
  then have "\<bar>of_int i :: rat\<bar> < 2 ^ 31" using grid_of_int by (simp add: grid_def)
  also have "(2::rat) ^ 31 \<le> 2 ^ 1024" by (rule power_increasing) simp_all
  finally show ?thesis using i by (simp add: float_of_int_def fl_of_int del: power_numeral)
qed

lemma grid_add: "grid x \<Longrightarrow> grid y \<Longrightarrow> \<bar>x + y\<bar> < 2 ^ 31 \<Longrightarrow> grid (x + y)"
  by (simp add: grid_def distrib_right)

lemma grid_diff: "grid x \<Longrightarrow> grid y \<Longrightarrow> \<bar>x - y\<bar> < 2 ^ 31 \<Longrightarrow> grid (x - y)"
  by (simp add: grid_def left_diff_distrib)

end
