(* ===== verification/Storage_Ttl.thy ===== *)
theory Storage_Ttl
  imports Py_Text Py_Float
begin

section \<open>Expiry rules (\<open>storage/ttl.py\<close>)\<close>

text \<open>
  The helpers behind \<open>EXPIRE\<close> and the lazy expiration: the option tokens, the absolute
  deadline of a relative timeout, and when a new deadline replaces the current one. A key
  without a deadline counts as expiring at infinity (\<open>PERSISTENT_TTL\<close>), written here
  as the deadline \<open>None\<close>.
\<close>

definition valid_expire_options :: "ustr list" where
  "valid_expire_options = [lit ''NX'', lit ''XX'', lit ''GT'', lit ''LT'']"

definition normalize_expire_option :: "ustr option \<Rightarrow> py_error + ustr option" where
  "normalize_expire_option opt =
     (case opt of
        None \<Rightarrow> Inr None
      | Some tok \<Rightarrow>
          (let normalized = py_upper tok
           in if normalized \<in> set valid_expire_options then Inr (Some normalized)
              else Inl (ValueError (lit ''unsupported EXPIRE option '' @ [39] @ tok @ [39]))))"

definition compute_deadline :: "rat \<Rightarrow> int \<Rightarrow> py_error + rat" where
  "compute_deadline now seconds =
     (case float_of_int seconds of
        None \<Rightarrow> Inl OverflowError
      | Some f \<Rightarrow> Inr (fl (now + f)))"

definition is_expired :: "rat \<Rightarrow> rat \<Rightarrow> bool" where
  "is_expired deadline now \<longleftrightarrow> deadline \<le> now"

text \<open>\<open>a < b\<close> where \<open>None\<close> stands for the infinite deadline.\<close>

fun before_deadline :: "rat \<Rightarrow> rat option \<Rightarrow> bool" where
  "before_deadline a None = True"
| "before_deadline a (Some b) = (a < b)"

fun after_deadline :: "rat \<Rightarrow> rat option \<Rightarrow> bool" where
  "after_deadline a None = False"
| "after_deadline a (Some b) = (b < a)"

definition should_apply_expiry :: "ustr option \<Rightarrow> rat option \<Rightarrow> rat \<Rightarrow> py_error + bool" where
  "should_apply_expiry opt current_deadline new_deadline =
     (case normalize_expire_option opt of
        Inl e \<Rightarrow> Inl e
      | Inr None \<Rightarrow> Inr True
      | Inr (Some tok) \<Rightarrow>
          if tok = lit ''NX'' then Inr (current_deadline = None)
          else if tok = lit ''XX'' then Inr (current_deadline \<noteq> None)
          else if tok = lit ''GT'' then Inr (after_deadline new_deadline current_deadline)
          else Inr (before_deadline new_deadline current_deadline))"

subsection \<open>Rules\<close>

lemma py_upper_options:
  "tok \<in> set valid_expire_options \<Longrightarrow> py_upper tok = tok"
  by (auto simp: valid_expire_options_def lit_def intro!: py_upper_id)

lemma normalize_idem:
  "normalize_expire_option opt = Inr r \<Longrightarrow> normalize_expire_option r = Inr r"
  by (auto simp: normalize_expire_option_def Let_def py_upper_options
      split: option.splits if_splits)

lemma normalize_Some_options:
  "normalize_expire_option opt = Inr (Some tok) \<Longrightarrow> tok \<in> set valid_expire_options"
  by (auto simp: normalize_expire_option_def Let_def split: option.splits if_splits)

lemma expire_option_cases:
  assumes "tok \<in> set valid_expire_options"
  obtains "tok = lit ''NX''" | "tok = lit ''XX''" | "tok = lit ''GT''" | "tok = lit ''LT''"
  using assms by (auto simp: valid_expire_options_def)

lemma should_apply_normalized:
  "normalize_expire_option opt = Inr r \<Longrightarrow> \<exists>b. should_apply_expiry r cur new = Inr b"
  using normalize_idem [of opt r]
  by (auto simp: should_apply_expiry_def split: option.split)

text \<open>
  On the grid of clock values the deadline is the exact sum.
\<close>

definition clock_ok :: "rat \<Rightarrow> int \<Rightarrow> bool" where
  "clock_ok now seconds \<longleftrightarrow>
     grid now \<and> 0 \<le> now \<and> \<bar>seconds\<bar> < 2 ^ 31 \<and> \<bar>now + of_int seconds\<bar> < 2 ^ 31"

lemma compute_deadline_exact:
  assumes "clock_ok now seconds"
  shows "compute_deadline now seconds = Inr (now + of_int seconds)"
proof -
  have f: "float_of_int seconds = Some (of_int seconds)"
    using assms by (intro float_of_int_exact) (simp add: clock_ok_def)
  have "grid (of_int seconds)" using assms by (intro grid_of_int) (simp add: clock_ok_def)
  then have "grid (now + of_int seconds)"
    using assms by (intro grid_add) (simp_all add: clock_ok_def)
  then show ?thesis by (simp add: compute_deadline_def f fl_grid)
qed

definition remaining_ttl :: "rat \<Rightarrow> rat \<Rightarrow> int" where
  "remaining_ttl deadline now = max 0 \<lceil>fl (deadline - now)\<rceil>"

lemma remaining_ttl_nonneg [simp]: "0 \<le> remaining_ttl d now"
  by (simp add: remaining_ttl_def)

lemma remaining_ttl_exact:
  assumes "clock_ok now seconds" and "0 \<le> seconds"
  shows "remaining_ttl (now + of_int seconds) now = seconds"
proof -
  have "fl (of_int seconds) = of_int seconds"
    using assms by (intro fl_of_int) (simp add: clock_ok_def)
  with assms(2) show ?thesis by (simp add: remaining_ttl_def)
qed

end
