(* ===== verification/Py_Utf8.thy ===== *)
theory Py_Utf8
  imports Py_Text
begin

section \<open>UTF-8: \<open>str.encode\<close> and \<open>bytes.decode\<close>\<close>

text \<open>
  Requests and replies cross the socket as UTF-8. Encoding fails exactly on lone surrogates
  (a \<open>UnicodeEncodeError\<close>); decoding is strict, as \<open>bytes.decode("utf-8")\<close> is: it
  refuses overlong forms, surrogates, values past the last code point and truncated
  sequences (a \<open>UnicodeDecodeError\<close>). The two are inverse to each other on every string
  without surrogates.
\<close>

definition scalar :: "nat \<Rightarrow> bool" where
  "scalar c \<longleftrightarrow> c < 55296 \<or> (57344 \<le> c \<and> c < 1114112)"

definition utf8_cp :: "nat \<Rightarrow> nat list" where
  "utf8_cp c =
     (if c < 128 then [c]
      else if c < 2048 then [192 + c div 64, 128 + c mod 64]
      else if c < 65536 then [224 + c div 4096, 128 + c div 64 mod 64, 128 + c mod 64]
      else [240 + c div 262144, 128 + c div 4096 mod 64, 128 + c div 64 mod 64, 128 + c mod 64])"

definition utf8_encode :: "ustr \<Rightarrow> bytes option" where
  "utf8_encode s =
     (if list_all scalar s then Some (map char_of (concat (map utf8_cp s))) else None)"

definition cont :: "nat \<Rightarrow> bool" where
  "cont b \<longleftrightarrow> 128 \<le> b \<and> b < 192"

fun utf8_units :: "nat list \<Rightarrow> ustr option" where
  "utf8_units [] = Some []"
| "utf8_units (a # s) =
     (if a < 128 then map_option (Cons a) (utf8_units s)
      else if 194 \<le> a \<and> a < 224 then
        (case s of
           b # r \<Rightarrow>
             if cont b then map_option (Cons ((a - 192) * 64 + (b - 128))) (utf8_units r) else None
         | _ \<Rightarrow> None)
      else if 224 \<le> a \<and> a < 240 then
        (case s of
           b # c # r \<Rightarrow>
             (let v = (a - 224) * 4096 + (b - 128) * 64 + (c - 128)
              in if cont b \<and> cont c \<and> 2048 \<le> v \<and> scalar v
                 then map_option (Cons v) (utf8_units r) else None)
         | _ \<Rightarrow> None)
      else if 240 \<le> a \<and> a < 245 then
        (case s of
           b # c # d # r \<Rightarrow>
             (let v = (a - 240) * 262144 + (b - 128) * 4096 + (c - 128) * 64 + (d - 128)
              in if cont b \<and> cont c \<and> cont d \<and> 65536 \<le> v \<and> scalar v
                 then map_option (Cons v) (utf8_units r) else None)
         | _ \<Rightarrow> None)
      else None)"

definition utf8_decode :: "bytes \<Rightarrow> ustr option" where
  "utf8_decode b = utf8_units (map of_char b)"

subsection \<open>Round trip\<close>

lemma utf8_cp_bytes: "scalar c \<Longrightarrow> b \<in> set (utf8_cp c) \<Longrightarrow> b < 256"
  by (auto simp: utf8_cp_def scalar_def split: if_splits)

lemma split64: fixes c :: nat shows "c div 4096 * 64 + c div 64 mod 64 = c div 64"
proof -
  have "c div 4096 = c div 64 div 64" by (simp add: div_mult2_eq [symmetric])
  then show ?thesis by simp
qed

lemma split4096:
  fixes c :: nat
  shows "c div 4096 * 4096 + c div 64 mod 64 * 64 + c mod 64 = c"
proof -
  have "c div 4096 * 4096 + c div 64 mod 64 * 64 + c mod 64
      = (c div 4096 * 64 + c div 64 mod 64) * 64 + c mod 64" by simp
  then show ?thesis by (simp add: split64)
qed

lemma split262144:
  fixes c :: nat
  shows "c div 262144 * 262144 + c div 4096 mod 64 * 4096 + c div 64 mod 64 * 64 + c mod 64 = c"
proof -
  have "c div 262144 = c div 4096 div 64" by (simp add: div_mult2_eq [symmetric])
  then have "c div 262144 * 64 + c div 4096 mod 64 = c div 4096" by simp
  then have "c div 262144 * 262144 + c div 4096 mod 64 * 4096 = c div 4096 * 4096" by linarith
  then show ?thesis using split4096 [of c] by linarith
qed

lemma cont_mod [simp]: "cont (128 + c mod 64)"
  by (simp add: cont_def)

lemma utf8_units_cp:
  assumes "scalar c"
  shows "utf8_units (utf8_cp c @ s) = map_option (Cons c) (utf8_units s)"
proof -
  consider "c < 128" | "128 \<le> c" "c < 2048" | "2048 \<le> c" "c < 65536" | "65536 \<le> c"
    by linarith
  then show ?thesis
  proof cases
    case 1
    then show ?thesis by (simp add: utf8_cp_def)
  next
    case 2
    then have "2 \<le> c div 64" "c div 64 < 32" by (auto simp: less_mult_imp_div_less)
    with 2 show ?thesis by (simp add: utf8_cp_def)
  next
    case 3
    then have "c div 4096 < 16" by (simp add: less_mult_imp_div_less)
    with 3 assms split4096 [of c] show ?thesis by (simp add: utf8_cp_def Let_def)
  next
    case 4
    with assms have "c div 262144 < 5" by (simp add: less_mult_imp_div_less scalar_def)
    with 4 assms split262144 [of c] show ?thesis by (simp add: utf8_cp_def Let_def)
  qed
qed

lemma utf8_units_encode:
  "list_all scalar s \<Longrightarrow> utf8_units (concat (map utf8_cp s)) = Some s"
  by (induction s) (simp_all add: utf8_units_cp)

lemma of_char_char_of_bytes:
  "list_all (\<lambda>b. b < 256) bs \<Longrightarrow> map of_char (map (char_of :: nat \<Rightarrow> char) bs) = bs"
  by (induction bs) simp_all

lemma utf8_bytes_ok: "list_all scalar s \<Longrightarrow> list_all (\<lambda>b. b < 256) (concat (map utf8_cp s))"
  by (induction s) (auto simp: list_all_iff dest: utf8_cp_bytes)

lemma utf8_decode_encode:
  assumes "utf8_encode s = Some b"
  shows "utf8_decode b = Some s"
proof -
  from assms have s: "list_all scalar s" and b: "b = map char_of (concat (map utf8_cp s))"
    by (auto simp: utf8_encode_def split: if_splits)
  have "map of_char b = concat (map utf8_cp s)"
    unfolding b by (rule of_char_char_of_bytes [OF utf8_bytes_ok [OF s]])
  with s show ?thesis by (simp add: utf8_decode_def utf8_units_encode)
qed

lemma scalar_two: "194 \<le> a \<Longrightarrow> a < 224 \<Longrightarrow> cont b \<Longrightarrow> scalar ((a - 192) * 64 + (b - 128))"
  by (auto simp: scalar_def cont_def)

lemma utf8_units_scalar: "utf8_units bs = Some s \<Longrightarrow> list_all scalar s"
proof (induction bs arbitrary: s rule: measure_induct_rule [where f = length])
  case (less bs)
  have IH: "utf8_units r = Some z \<Longrightarrow> length r < length bs \<Longrightarrow> list_all scalar z" for r z
    using less.IH by blast
  show ?case
  proof (cases bs)
    case Nil
    with less.prems show ?thesis by simp
  next
    case (Cons a t)
    have small: "a < 128 \<Longrightarrow> scalar a" by (simp add: scalar_def)
    from less.prems Cons show ?thesis
      by (auto simp: Let_def scalar_two small split: if_splits list.splits elim!: IH)
  qed
qed

lemma utf8_decode_scalar: "utf8_decode b = Some s \<Longrightarrow> list_all scalar s"
  by (simp add: utf8_decode_def utf8_units_scalar)

interpretation utf8: codec "\<lambda>s. the (utf8_encode s)" utf8_decode "list_all scalar"
proof unfold_locales
  fix s assume "list_all scalar s"
  then have "utf8_encode s = Some (the (utf8_encode s))" by (simp add: utf8_encode_def)
  then show "utf8_decode (the (utf8_encode s)) = Some s" by (rule utf8_decode_encode)
qed

subsection \<open>ASCII\<close>

lemma concat_map_utf8_ascii: "list_all (\<lambda>c. c < 128) s \<Longrightarrow> concat (map utf8_cp s) = s"
  by (induction s) (simp_all add: utf8_cp_def)

lemma utf8_encode_ascii [wire_simps]:
  "list_all (\<lambda>c. c < 128) s \<Longrightarrow> utf8_encode s = Some (map char_of s)"
proof -
  assume a: "list_all (\<lambda>c. c < 128) s"
  then have "list_all scalar s" by (auto simp: list_all_iff scalar_def)
  with a show ?thesis by (simp add: utf8_encode_def concat_map_utf8_ascii)
qed

definition ascii :: "string \<Rightarrow> bool" where
  "ascii s \<longleftrightarrow> list_all (\<lambda>c. of_char c < (128::nat)) s"

lemma list_all_lit: "list_all P (lit s) = list_all (\<lambda>c. P (of_char c)) s"
  by (simp add: lit_def list_all_iff)

lemma scalar_lit [simp]: "list_all scalar (lit s)"
proof -
  have "scalar (of_char c)" for c :: char
    using nat_of_char_less_256 [of c] unfolding scalar_def by linarith
  then show ?thesis by (simp add: lit_def list_all_iff)
qed

lemma utf8_encode_lit [wire_simps]: "ascii s \<Longrightarrow> utf8_encode (lit s) = Some s"
proof -
  assume "ascii s"
  then have "list_all (\<lambda>c. c < 128) (lit s)" by (simp add: ascii_def list_all_lit)
  then have "utf8_encode (lit s) = Some (map char_of (lit s))" by (rule utf8_encode_ascii)
  then show ?thesis by (simp add: lit_def o_def)
qed

lemma utf8_encode_append:
  "utf8_encode s = Some a \<Longrightarrow> utf8_encode t = Some b \<Longrightarrow> utf8_encode (s @ t) = Some (a @ b)"
  by (auto simp: utf8_encode_def split: if_splits)

lemma utf8_encode_append_iff:
  "utf8_encode (s @ t) =
     (case utf8_encode s of None \<Rightarrow> None
      | Some a \<Rightarrow> (case utf8_encode t of None \<Rightarrow> None | Some b \<Rightarrow> Some (a @ b)))"
  by (auto simp: utf8_encode_def)

lemma utf8_encode_total: "list_all scalar s \<Longrightarrow> \<exists>b. utf8_encode s = Some b"
  by (simp add: utf8_encode_def)

end
