(* ===== verification/Py_Json.thy ===== *)
theory Py_Json
  imports Py_Utf8
begin

section \<open>JSON: \<open>json.dumps\<close> and \<open>json.loads\<close>\<close>

text \<open>
  The storage engine keeps seat records and queues as JSON text. \<open>json_dumps\<close> prints
  with the separators the engine passes and escapes everything outside printable ASCII;
  \<open>json_loads\<close> reads any JSON text, as it must: a client may store any string under a
  seat's or a queue's key. A number is kept as its text, since the engine only asks whether
  a value is a string, a list or an object. The recursion of the reader is bounded by fuel;
  the length of the text is always enough (\<open>pvalue_fuel\<close>). CPython's limit on the
  nesting depth is not modelled.
\<close>

datatype json =
    JNull
  | JBool bool
  | JInt ustr
  | JFloat ustr
  | JStr ustr
  | JArr "json list"
  | JObj "(ustr \<times> json) list"

subsection \<open>Printing\<close>

definition hex_digit :: "nat \<Rightarrow> nat" where
  "hex_digit n = (if n < 10 then 48 + n else 87 + n)"

definition u_escape :: "nat \<Rightarrow> ustr" where
  "u_escape n =
     [92, 117, hex_digit (n div 4096 mod 16), hex_digit (n div 256 mod 16),
      hex_digit (n div 16 mod 16), hex_digit (n mod 16)]"

definition escape_cp :: "nat \<Rightarrow> ustr" where
  "escape_cp c =
     (if c = 92 then [92, 92]
      else if c = 34 then [92, 34]
      else if c = 10 then [92, 110]
      else if c = 13 then [92, 114]
      else if c = 9 then [92, 116]
      else if c = 12 then [92, 102]
      else if c = 8 then [92, 98]
      else if 32 \<le> c \<and> c \<le> 126 then [c]
      else if c < 65536 then u_escape c
      else u_escape (55296 + (c - 65536) div 1024) @ u_escape (56320 + (c - 65536) mod 1024))"

definition dumps_str :: "ustr \<Rightarrow> ustr" where
  "dumps_str s = 34 # concat (map escape_cp s) @ [34]"

fun join_comma :: "ustr list \<Rightarrow> ustr" where
  "join_comma [] = []"
| "join_comma [x] = x"
| "join_comma (x # xs) = x @ 44 # join_comma xs"

fun json_dumps :: "json \<Rightarrow> ustr" where
  "json_dumps JNull = lit ''null''"
| "json_dumps (JBool b) = (if b then lit ''true'' else lit ''false'')"
| "json_dumps (JInt t) = t"
| "json_dumps (JFloat t) = t"
| "json_dumps (JStr s) = dumps_str s"
| "json_dumps (JArr vs) = 91 # join_comma (map json_dumps vs) @ [93]"
| "json_dumps (JObj kvs) =
     123 # join_comma (map (\<lambda>kv. dumps_str (fst kv) @ 58 # json_dumps (snd kv)) kvs) @ [125]"

subsection \<open>Reading strings\<close>

definition hex_val :: "nat \<Rightarrow> nat option" where
  "hex_val c =
     (if 48 \<le> c \<and> c \<le> 57 then Some (c - 48)
      else if 97 \<le> c \<and> c \<le> 102 then Some (c - 87)
      else if 65 \<le> c \<and> c \<le> 70 then Some (c - 55)
      else None)"

fun hex4 :: "ustr \<Rightarrow> (nat \<times> ustr) option" where
  "hex4 (a # b # c # d # r) =
     (case (hex_val a, hex_val b, hex_val c, hex_val d) of
        (Some w, Some x, Some y, Some z) \<Rightarrow> Some (((w * 16 + x) * 16 + y) * 16 + z, r)
      | _ \<Rightarrow> None)"
| "hex4 _ = None"

lemma hex4_length: "hex4 s = Some (u, r) \<Longrightarrow> length r < length s"
  by (induction s rule: hex4.induct) (auto split: option.splits prod.splits)

definition simple_escape :: "nat \<Rightarrow> nat option" where
  "simple_escape e =
     (if e = 34 then Some 34 else if e = 92 then Some 92 else if e = 47 then Some 47
      else if e = 98 then Some 8 else if e = 102 then Some 12 else if e = 110 then Some 10
      else if e = 114 then Some 13 else if e = 116 then Some 9 else None)"

definition high_surrogate :: "nat \<Rightarrow> bool" where
  "high_surrogate u \<longleftrightarrow> 55296 \<le> u \<and> u < 56320"

definition low_surrogate :: "nat \<Rightarrow> bool" where
  "low_surrogate u \<longleftrightarrow> 56320 \<le> u \<and> u < 57344"

definition join_surrogates :: "nat \<Rightarrow> nat \<Rightarrow> nat" where
  "join_surrogates h l = 65536 + (h - 55296) * 1024 + (l - 56320)"

text \<open>
  One \<open>\uXXXX\<close> escape, given the text after the letter \<open>u\<close>: a high surrogate
  followed by the escape of a low one is a single code point.
\<close>

definition read_u :: "ustr \<Rightarrow> (nat \<times> ustr) option" where
  "read_u s =
     (case hex4 s of
        None \<Rightarrow> None
      | Some (u, r) \<Rightarrow>
          if high_surrogate u \<and> take 2 r = [92, 117] then
            (case hex4 (drop 2 r) of
               None \<Rightarrow> None
             | Some (v, r') \<Rightarrow>
                 if low_surrogate v then Some (join_surrogates u v, r') else Some (u, r))
          else Some (u, r))"

lemma read_u_length: "read_u s = Some (u, r) \<Longrightarrow> length r < length s"
  by (auto simp: read_u_def split: option.splits if_splits dest!: hex4_length)

definition push_char :: "nat \<Rightarrow> (ustr \<times> ustr) option \<Rightarrow> (ustr \<times> ustr) option" where
  "push_char c = map_option (\<lambda>(s, r). (c # s, r))"

text \<open>The characters of a string up to its closing quote, and the text after it.\<close>

function scan_str :: "ustr \<Rightarrow> (ustr \<times> ustr) option" where
  "scan_str s =
     (case s of
        [] \<Rightarrow> None
      | c # cs \<Rightarrow>
          if c = 34 then Some ([], cs)
          else if c = 92 then
            (case cs of
               [] \<Rightarrow> None
             | e # r \<Rightarrow>
                 if e = 117 then
                   (case read_u r of None \<Rightarrow> None | Some (u, r') \<Rightarrow> push_char u (scan_str r'))
                 else
                   (case simple_escape e of None \<Rightarrow> None | Some x \<Rightarrow> push_char x (scan_str r)))
          else if c < 32 then None
          else push_char c (scan_str cs))"
  by pat_completeness auto
termination
  by (relation "measure length") (auto dest!: read_u_length)

declare scan_str.simps [simp del]

subsection \<open>Reading numbers and names\<close>

definition json_space :: "nat \<Rightarrow> bool" where
  "json_space c \<longleftrightarrow> c = 32 \<or> c = 9 \<or> c = 10 \<or> c = 13"

abbreviation skip_ws :: "ustr \<Rightarrow> ustr" where
  "skip_ws \<equiv> dropWhile json_space"

text \<open>
  The number at the start of a text: sign, integer part, then a fraction and an exponent
  only where digits follow. An integer of more than 4300 digits is refused by \<open>int\<close>.
\<close>

definition scan_frac :: "ustr \<Rightarrow> ustr \<times> ustr" where
  "scan_frac s =
     (if s \<noteq> [] \<and> hd s = 46 \<and> tl s \<noteq> [] \<and> is_digit (hd (tl s))
      then (46 # takeWhile is_digit (tl s), dropWhile is_digit (tl s)) else ([], s))"

definition scan_exp :: "ustr \<Rightarrow> ustr \<times> ustr" where
  "scan_exp s =
     (if s \<noteq> [] \<and> (hd s = 101 \<or> hd s = 69) then
        (let t = tl s;
             sg = (if t \<noteq> [] \<and> (hd t = 43 \<or> hd t = 45) then [hd t] else []);
             d = drop (length sg) t
         in if d \<noteq> [] \<and> is_digit (hd d)
            then (hd s # sg @ takeWhile is_digit d, dropWhile is_digit d) else ([], s))
      else ([], s))"

definition scan_number :: "ustr \<Rightarrow> (json \<times> ustr) option" where
  "scan_number s =
     (let sg = (if s \<noteq> [] \<and> hd s = 45 then [45] else []);
          t = drop (length sg) s
      in if t = [] \<or> \<not> is_digit (hd t) then None
         else
           (let ip = (if hd t = 48 then [48] else takeWhile is_digit t);
                fr = scan_frac (drop (length ip) t);
                ex = scan_exp (snd fr)
            in if fst fr = [] \<and> fst ex = [] then
                 (if length ip \<le> int_max_str_digits
                  then Some (JInt (sg @ ip), drop (length ip) t) else None)
               else Some (JFloat (sg @ ip @ fst fr @ fst ex), snd ex)))"

definition strip_prefix :: "ustr \<Rightarrow> ustr \<Rightarrow> ustr option" where
  "strip_prefix p s = (if take (length p) s = p then Some (drop (length p) s) else None)"

fun scan_names :: "(string \<times> json) list \<Rightarrow> ustr \<Rightarrow> (json \<times> ustr) option" where
  "scan_names [] s = scan_number s"
| "scan_names ((n, v) # ns) s =
     (case strip_prefix (lit n) s of Some r \<Rightarrow> Some (v, r) | None \<Rightarrow> scan_names ns s)"

definition json_names :: "(string \<times> json) list" where
  "json_names =
     [(''null'', JNull), (''true'', JBool True), (''false'', JBool False),
      (''NaN'', JFloat (lit ''NaN'')), (''Infinity'', JFloat (lit ''Infinity'')),
      (''-Infinity'', JFloat (lit ''-Infinity''))]"

subsection \<open>Reading values\<close>

text \<open>
  \<open>pvalue\<close> reads a value at the start of the text; \<open>parr\<close> the elements of an array
  and \<open>pobj\<close> the members of an object, both from the first element on.
\<close>

fun pvalue :: "nat \<Rightarrow> ustr \<Rightarrow> (json \<times> ustr) option"
  and parr :: "nat \<Rightarrow> ustr \<Rightarrow> (json list \<times> ustr) option"
  and pobj :: "nat \<Rightarrow> ustr \<Rightarrow> ((ustr \<times> json) list \<times> ustr) option" where
  "pvalue 0 s = None"
| "pvalue (Suc n) s =
     (case s of
        [] \<Rightarrow> None
      | c # cs \<Rightarrow>
          if c = 34 then map_option (\<lambda>(t, r). (JStr t, r)) (scan_str cs)
          else if c = 91 then
            (case skip_ws cs of
               [] \<Rightarrow> None
             | d # ds \<Rightarrow>
                 if d = 93 then Some (JArr [], ds)
                 else map_option (\<lambda>(vs, r). (JArr vs, r)) (parr n (d # ds)))
          else if c = 123 then
            (case skip_ws cs of
               [] \<Rightarrow> None
             | d # ds \<Rightarrow>
                 if d = 125 then Some (JObj [], ds)
                 else map_option (\<lambda>(kvs, r). (JObj kvs, r)) (pobj n (d # ds)))
          else scan_names json_names s)"
| "parr 0 s = None"
| "parr (Suc n) s =
     (case pvalue n s of
        None \<Rightarrow> None
      | Some (v, r) \<Rightarrow>
          (case skip_ws r of
             [] \<Rightarrow> None
           | d # ds \<Rightarrow>
               if d = 93 then Some ([v], ds)
               else if d = 44 then
                 map_option (\<lambda>(vs, r'). (v # vs, r')) (parr n (skip_ws ds))
               else None))"
| "pobj 0 s = None"
| "pobj (Suc n) s =
     (case s of
        [] \<Rightarrow> None
      | q # qs \<Rightarrow>
          if q \<noteq> 34 then None
          else
            (case scan_str qs of
               None \<Rightarrow> None
             | Some (k, r) \<Rightarrow>
                 (case skip_ws r of
                    [] \<Rightarrow> None
                  | d # ds \<Rightarrow>
                      if d \<noteq> 58 then None
                      else
                        (case pvalue n (skip_ws ds) of
                           None \<Rightarrow> None
                         | Some (v, r') \<Rightarrow>
                             (case skip_ws r' of
                                [] \<Rightarrow> None
                              | e # es \<Rightarrow>
                                  if e = 125 then Some ([(k, v)], es)
                                  else if e = 44 then
                                    map_option (\<lambda>(kvs, r''). ((k, v) # kvs, r''))
                                      (pobj n (skip_ws es))
                                  else None)))))"

definition json_loads :: "ustr \<Rightarrow> json option" where
  "json_loads s =
     (case pvalue (Suc (2 * length s)) (skip_ws s) of
        None \<Rightarrow> None
      | Some (v, r) \<Rightarrow> if skip_ws r = [] then Some v else None)"

text \<open>\<open>payload.get(k)\<close> on the dictionary an object is read into: the last member wins.\<close>

definition json_get :: "(ustr \<times> json) list \<Rightarrow> ustr \<Rightarrow> json" where
  "json_get kvs k = (case map_of (rev kvs) k of None \<Rightarrow> JNull | Some v \<Rightarrow> v)"

subsection \<open>Every reader consumes text\<close>

lemma length_skip_ws: "length (skip_ws s) \<le> length s"
  by (rule length_dropWhile_le)

lemma skip_ws_Cons_length: "skip_ws s = c # cs \<Longrightarrow> length cs < length s"
  using length_skip_ws [of s] by simp

lemma push_char_Some:
  "push_char c x = Some (t, r) \<longleftrightarrow> (\<exists>t'. x = Some (t', r) \<and> t = c # t')"
  by (auto simp: push_char_def)

lemma scan_str_length: "scan_str s = Some (t, r) \<Longrightarrow> length r < length s"
proof (induction s arbitrary: t r rule: measure_induct_rule [where f = length])
  case (less s)
  have IH: "scan_str s' = Some (t', r') \<Longrightarrow> length s' < length s \<Longrightarrow> length r' < length s'"
    for s' t' r' using less.IH by blast
  from less.prems show ?case
    by (subst (asm) scan_str.simps)
      (auto simp: push_char_Some split: list.splits if_splits option.splits
        dest!: IH read_u_length)
qed

lemma scan_frac_length: "length (snd (scan_frac s)) \<le> length s"
  using length_dropWhile_le [of is_digit "tl s"]
  by (auto simp: scan_frac_def intro: order_trans)

lemma scan_exp_length: "length (snd (scan_exp s)) \<le> length s"
  by (auto simp: scan_exp_def Let_def intro!: order_trans [OF length_dropWhile_le])

lemma scan_number_length:
  assumes "scan_number s = Some (v, r)"
  shows "length r < length s"
proof -
  define sg where "sg = (if s \<noteq> [] \<and> hd s = 45 then [45::nat] else [])"
  define t where "t = drop (length sg) s"
  define ip where "ip = (if hd t = 48 then [48::nat] else takeWhile is_digit t)"
  define fr where "fr = scan_frac (drop (length ip) t)"
  from assms have t: "t \<noteq> []" "is_digit (hd t)"
    and r: "r = drop (length ip) t \<or> r = snd (scan_exp (snd fr))"
    by (auto simp: scan_number_def Let_def sg_def t_def ip_def fr_def split: if_splits)
  have "ip \<noteq> []" using t by (cases t) (auto simp: ip_def)
  then have "length (drop (length ip) t) < length t" using t by (cases ip) auto
  moreover have "length (snd (scan_exp (snd fr))) \<le> length (drop (length ip) t)"
    unfolding fr_def by (rule order_trans [OF scan_exp_length scan_frac_length])
  moreover have "length t \<le> length s" by (simp add: t_def)
  ultimately show ?thesis using r by auto
qed

lemma strip_prefix_length: "strip_prefix p s = Some r \<Longrightarrow> p \<noteq> [] \<Longrightarrow> length r < length s"
  by (cases s) (auto simp: strip_prefix_def split: if_splits)

lemma scan_names_length:
  "scan_names ns s = Some (v, r) \<Longrightarrow> [] \<notin> fst ` set ns \<Longrightarrow> length r < length s"
proof (induction ns)
  case Nil
  then show ?case by (simp add: scan_number_length)
next
  case (Cons a ns)
  obtain n w where a: "a = (n, w)" by (cases a)
  with Cons.prems have "lit n \<noteq> []" and "[] \<notin> fst ` set ns" by auto
  with Cons a show ?case
    by (auto split: option.splits dest: strip_prefix_length)
qed

lemma scan_json_names_length: "scan_names json_names s = Some (v, r) \<Longrightarrow> length r < length s"
  by (erule scan_names_length) (simp add: json_names_def)

lemma preader_length:
  "pvalue n s = Some (v, r) \<Longrightarrow> length r < length s"
  "parr n s = Some (vs, r) \<Longrightarrow> length r < length s"
  "pobj n s = Some (kvs, r) \<Longrightarrow> length r < length s"
proof (induction n arbitrary: s v vs kvs r)
  case 0
  { case 1 then show ?case by simp next case 2 then show ?case by simp
  next case 3 then show ?case by simp }
next
  case (Suc n)
  note IH = Suc.IH
  have IHv: "pvalue n (skip_ws s) = Some (v, r) \<Longrightarrow> length r < length s" for s v r
    by (rule order_less_le_trans [OF IH(1) length_skip_ws])
  have IHa: "parr n (skip_ws s) = Some (vs, r) \<Longrightarrow> length r < length s" for s vs r
    by (rule order_less_le_trans [OF IH(2) length_skip_ws])
  have IHo: "pobj n (skip_ws s) = Some (kvs, r) \<Longrightarrow> length r < length s" for s kvs r
    by (rule order_less_le_trans [OF IH(3) length_skip_ws])
  {
    case 1
    then show ?case
      by (auto split: list.splits if_splits dest!: IH scan_str_length skip_ws_Cons_length
          scan_json_names_length)
  next
    case 2
    then show ?case
      by (auto split: list.splits if_splits option.splits
          dest!: IHa IH(1) skip_ws_Cons_length)
  next
    case 3
    then show ?case
      by (auto split: list.splits if_splits option.splits
          dest!: IHv IHo skip_ws_Cons_length scan_str_length)
  }
qed

subsection \<open>Enough fuel\<close>

lemma preader_fuel:
  "2 * length s < n \<Longrightarrow> n \<le> m \<Longrightarrow> pvalue m s = pvalue n s"
  "2 * length s + 1 < n \<Longrightarrow> n \<le> m \<Longrightarrow> parr m s = parr n s"
  "2 * length s + 1 < n \<Longrightarrow> n \<le> m \<Longrightarrow> pobj m s = pobj n s"
proof (induction n arbitrary: s m)
  case 0
  { case 1 then show ?case by simp next case 2 then show ?case by simp
  next case 3 then show ?case by simp }
next
  case (Suc n)
  note IH = Suc.IH
  {
    case 1
    then obtain m' where m: "m = Suc m'" "n \<le> m'" by (cases m) auto
    have sub: "parr m' (d # ds) = parr n (d # ds)" "pobj m' (d # ds) = pobj n (d # ds)"
      if "s = c # cs" "skip_ws cs = d # ds" for c cs d ds
      using 1 that m skip_ws_Cons_length [OF that(2)] by (auto intro!: IH(2,3))
    show ?case
    proof (cases s)
      case (Cons c cs)
      with sub show ?thesis 
        by (cases "skip_ws cs") (simp_all add: m(1) del: dropWhile_eq_Nil_conv)
    qed (simp add: m(1))
  next
    case 2
    then obtain m' where m: "m = Suc m'" "n \<le> m'" by (cases m) auto
    have v: "pvalue m' s = pvalue n s" using 2 m by (intro IH(1)) auto
    have sub: "parr m' (skip_ws ds) = parr n (skip_ws ds)"
      if "pvalue n s = Some (v, r)" "skip_ws r = d # ds" for v r d ds
      using 2 m preader_length(1) [OF that(1)] skip_ws_Cons_length [OF that(2)]
        length_skip_ws [of ds] by (intro IH(2)) auto
    show ?case
      unfolding m(1)
      by (auto simp: v sub simp del: dropWhile_eq_Nil_conv split: list.split option.split)
  next
    case 3
    then obtain m' where m: "m = Suc m'" "n \<le> m'" by (cases m) auto
    have v: "pvalue m' (skip_ws ds) = pvalue n (skip_ws ds)"
      if "s = q # qs" "scan_str qs = Some (k, r)" "skip_ws r = d # ds" for q qs k r d ds
      using 3 m that(1) scan_str_length [OF that(2)] skip_ws_Cons_length [OF that(3)]
        length_skip_ws [of ds] by (intro IH(1)) auto
    have sub: "pobj m' (skip_ws es) = pobj n (skip_ws es)"
      if "s = q # qs" "scan_str qs = Some (k, r)" "skip_ws r = d # ds"
        "pvalue n (skip_ws ds) = Some (w, r')" "skip_ws r' = e # es" for q qs k r d ds w r' e es
      using 3 m that(1) scan_str_length [OF that(2)] skip_ws_Cons_length [OF that(3)]
        length_skip_ws [of ds] preader_length(1) [OF that(4)] skip_ws_Cons_length [OF that(5)]
        length_skip_ws [of es] by (intro IH(3)) auto
    show ?case
      unfolding m(1)
      by (cases s) (auto simp: v sub simp del: dropWhile_eq_Nil_conv split: list.split option.split)
  }
qed

lemma pvalue_fuel:
  "2 * length s < n \<Longrightarrow> pvalue n (skip_ws s) = pvalue (Suc (2 * length s)) (skip_ws s)"
  using length_skip_ws [of s]
  by (intro preader_fuel(1)) auto

subsection \<open>Round trip of strings\<close>

lemma hex_val_digit [simp]: "n < 16 \<Longrightarrow> hex_val (hex_digit n) = Some n"
  by (auto simp: hex_val_def hex_digit_def)

lemma hex_value:
  fixes n :: nat
  assumes "n < 65536"
  shows "((n div 4096 mod 16 * 16 + n div 256 mod 16) * 16 + n div 16 mod 16) * 16 + n mod 16 = n"
proof -
  have "n div 4096 mod 16 = n div 256 div 16"
    using assms by (simp add: div_mult2_eq [symmetric] less_mult_imp_div_less)
  then have a: "n div 4096 mod 16 * 16 + n div 256 mod 16 = n div 256" by simp
  have "n div 256 = n div 16 div 16" by (simp add: div_mult2_eq [symmetric])
  then have b: "n div 256 * 16 + n div 16 mod 16 = n div 16" by simp
  show ?thesis by (simp only: a b) simp
qed

lemma hex4_u_escape:
  "n < 65536 \<Longrightarrow> hex4 (drop 2 (u_escape n) @ r) = Some (n, r)"
  using hex_value [of n] by (simp add: u_escape_def)

lemma u_escape_split: "u_escape n = 92 # 117 # drop 2 (u_escape n)"
  by (simp add: u_escape_def)

text \<open>
  What may follow a lone escape without being joined to it: anything, unless the escape is
  a high surrogate, which a scalar value never is.
\<close>

lemma read_u_scalar:
  "n < 65536 \<Longrightarrow> \<not> high_surrogate n \<Longrightarrow> read_u (drop 2 (u_escape n) @ r) = Some (n, r)"
  by (simp add: read_u_def hex4_u_escape)

lemma read_u_pair:
  assumes "65536 \<le> c" and "c < 1114112"
  shows "read_u (drop 2 (u_escape (55296 + (c - 65536) div 1024)) @
           u_escape (56320 + (c - 65536) mod 1024) @ r) = Some (c, r)"
proof -
  define h where "h = 55296 + (c - 65536) div 1024"
  define l where "l = 56320 + (c - 65536) mod 1024"
  have "(c - 65536) div 1024 < 1024" using assms by (simp add: less_mult_imp_div_less)
  then have h: "high_surrogate h" "h < 65536" by (auto simp: h_def high_surrogate_def)
  have "(c - 65536) mod 1024 < 1024" by simp
  then have l: "low_surrogate l" "l < 65536" by (auto simp: l_def low_surrogate_def)
  have j: "join_surrogates h l = c"
    using assms by (simp add: join_surrogates_def h_def l_def)
  have "hex4 (drop 2 (u_escape h) @ u_escape l @ r) = Some (h, u_escape l @ r)"
    using h(2) by (rule hex4_u_escape)
  moreover have "take 2 (u_escape l @ r) = [92, 117]" by (simp add: u_escape_def)
  moreover have "hex4 (drop 2 (u_escape l @ r)) = Some (l, r)"
    using hex4_u_escape [OF l(2), of r] by (simp add: u_escape_def del: hex4.simps)
  ultimately show ?thesis
    unfolding h_def [symmetric] l_def [symmetric]
    using h(1) l(1) by (simp add: read_u_def j)
qed

lemma scan_str_u:
  "read_u s = Some (u, r) \<Longrightarrow> scan_str (92 # 117 # s) = push_char u (scan_str r)"
  by (subst scan_str.simps) simp

lemma scan_str_simple:
  "simple_escape e = Some x \<Longrightarrow> e \<noteq> 117 \<Longrightarrow> scan_str (92 # e # s) = push_char x (scan_str s)"
  by (subst scan_str.simps) simp

lemma scan_str_plain:
  "32 \<le> c \<Longrightarrow> c \<noteq> 34 \<Longrightarrow> c \<noteq> 92 \<Longrightarrow> scan_str (c # s) = push_char c (scan_str s)"
  by (subst scan_str.simps) simp

lemma scan_str_escape_cp:
  assumes "scalar c"
  shows "scan_str (escape_cp c @ s) = push_char c (scan_str s)"
proof -
  have simple: "scan_str (escape_cp c @ s) = push_char c (scan_str s)"
    if "c = 92 \<or> c = 34 \<or> c = 10 \<or> c = 13 \<or> c = 9 \<or> c = 12 \<or> c = 8"
    using that by (elim disjE) (simp_all add: escape_cp_def scan_str_simple simple_escape_def)
  have esc: "escape_cp c = u_escape c"
    if "\<not> (c = 92 \<or> c = 34 \<or> c = 10 \<or> c = 13 \<or> c = 9 \<or> c = 12 \<or> c = 8)"
      "\<not> (32 \<le> c \<and> c \<le> 126)" "c < 65536"
    using that by (auto simp: escape_cp_def)
  consider "c = 92 \<or> c = 34 \<or> c = 10 \<or> c = 13 \<or> c = 9 \<or> c = 12 \<or> c = 8"
    | "32 \<le> c" "c \<le> 126" "c \<noteq> 92" "c \<noteq> 34"
    | "c < 65536" "escape_cp c = u_escape c"
    | "65536 \<le> c"
    using esc by linarith
  then show ?thesis
  proof cases
    case 1
    then show ?thesis by (rule simple)
  next
    case 2
    then show ?thesis by (simp add: escape_cp_def scan_str_plain)
  next
    case 3
    have "\<not> high_surrogate c" using assms by (auto simp: scalar_def high_surrogate_def)
    with 3 have "read_u (drop 2 (u_escape c) @ s) = Some (c, s)" by (intro read_u_scalar)
    then have "scan_str (92 # 117 # drop 2 (u_escape c) @ s) = push_char c (scan_str s)"
      by (rule scan_str_u)
    with 3 show ?thesis by (simp add: u_escape_def)
  next
    case 4
    with assms have "c < 1114112" by (auto simp: scalar_def)
    from scan_str_u [OF read_u_pair [OF 4 this], of s]
    have "scan_str (92 # 117 # drop 2 (u_escape (55296 + (c - 65536) div 1024)) @
           u_escape (56320 + (c - 65536) mod 1024) @ s) = push_char c (scan_str s)" .
    moreover have "escape_cp c = 92 # 117 # drop 2 (u_escape (55296 + (c - 65536) div 1024)) @
           u_escape (56320 + (c - 65536) mod 1024)"
      using 4 u_escape_split [of "55296 + (c - 65536) div 1024"] by (simp add: escape_cp_def)
    ultimately show ?thesis by simp
  qed
qed

lemma scan_str_dumps:
  "list_all scalar t \<Longrightarrow> scan_str (concat (map escape_cp t) @ 34 # r) = Some (t, r)"
proof (induction t)
  case Nil
  show ?case by (subst scan_str.simps) simp
next
  case (Cons c t)
  then show ?case by (simp add: scan_str_escape_cp push_char_def)
qed

subsection \<open>Round trip of values\<close>

text \<open>
  The values the engine writes: objects and arrays of strings without surrogates, and null.
\<close>

fun writable :: "json \<Rightarrow> bool" where
  "writable JNull = True"
| "writable (JBool b) = True"
| "writable (JInt t) = False"
| "writable (JFloat t) = False"
| "writable (JStr s) = list_all scalar s"
| "writable (JArr vs) = (\<forall>v\<in>set vs. writable v)"
| "writable (JObj kvs) = (\<forall>kv\<in>set kvs. list_all scalar (fst kv) \<and> writable (snd kv))"

lemma strip_prefix_append [simp]: "strip_prefix p (p @ r) = Some r"
  by (simp add: strip_prefix_def)

lemma dumps_head:
  "writable v \<Longrightarrow> \<exists>c cs. json_dumps v = c # cs \<and> c \<in> {34, 91, 123, 110, 116, 102}"
  by (cases v) (auto simp: dumps_str_def lit_Cons)

lemma dumps_skip_ws: "writable v \<Longrightarrow> skip_ws (json_dumps v @ r) = json_dumps v @ r"
  using dumps_head [of v] by (auto simp: json_space_def)

lemma dumps_str_skip_ws: "skip_ws (dumps_str k @ r) = dumps_str k @ r"
  by (simp add: dumps_str_def json_space_def)

lemma join_comma_Cons: "xs \<noteq> [] \<Longrightarrow> join_comma (x # xs) = x @ 44 # join_comma xs"
  by (cases xs) simp_all

definition reads :: "json \<Rightarrow> bool" where
  "reads v \<longleftrightarrow> (\<forall>n r. 2 * length (json_dumps v) < n \<longrightarrow> pvalue n (json_dumps v @ r) = Some (v, r))"

lemma readsD: "reads v \<Longrightarrow> 2 * length (json_dumps v) < n \<Longrightarrow> pvalue n (json_dumps v @ r) = Some (v, r)"
  by (simp add: reads_def)

lemma parr_dumps:
  assumes "vs \<noteq> []" and "\<forall>v\<in>set vs. writable v \<and> reads v"
    and "2 * length (join_comma (map json_dumps vs)) + 1 < n"
  shows "parr n (join_comma (map json_dumps vs) @ 93 # r) = Some (vs, r)"
  using assms
proof (induction vs arbitrary: n)
  case Nil
  then show ?case by simp
next
  case (Cons v vs)
  from Cons.prems(3) obtain k where n: "n = Suc k" by (cases n) auto
  have v: "writable v" "reads v" using Cons.prems(2) by auto
  show ?case
  proof (cases "vs = []")
    case True
    with Cons.prems(3) n have "2 * length (json_dumps v) < k" by simp
    with v True show ?thesis by (simp add: n readsD json_space_def)
  next
    case False
    let ?J = "join_comma (map json_dumps vs)"
    have J: "join_comma (map json_dumps (v # vs)) = json_dumps v @ 44 # ?J"
      using False by (simp add: join_comma_Cons)
    have k: "2 * length (json_dumps v) < k" "2 * length ?J + 1 < k"
      using Cons.prems(3) [unfolded n J] by simp_all
    have IH: "parr k (?J @ 93 # r) = Some (vs, r)"
      using False Cons.prems(2) k by (intro Cons.IH) auto
    obtain w ws where vs: "vs = w # ws" using False by (cases vs) auto
    obtain rest where "?J @ 93 # r = json_dumps w @ rest"
      by (cases ws) (simp_all add: vs)
    then have ws: "skip_ws (?J @ 93 # r) = ?J @ 93 # r"
      using dumps_skip_ws [of w] Cons.prems(2) vs by simp
    show ?thesis
      using readsD [OF v(2) k(1)] IH ws
      by (simp only: n J parr.simps append_assoc append_Cons) (simp add: json_space_def)
  qed
qed

abbreviation dumps_member :: "ustr \<times> json \<Rightarrow> ustr" where
  "dumps_member kv \<equiv> dumps_str (fst kv) @ 58 # json_dumps (snd kv)"

lemma pobj_dumps:
  assumes "kvs \<noteq> []"
    and "\<forall>kv\<in>set kvs. list_all scalar (fst kv) \<and> writable (snd kv) \<and> reads (snd kv)"
    and "2 * length (join_comma (map dumps_member kvs)) + 1 < n"
  shows "pobj n (join_comma (map dumps_member kvs) @ 125 # r) = Some (kvs, r)"
  using assms
proof (induction kvs arbitrary: n)
  case Nil
  then show ?case by simp
next
  case (Cons kv kvs)
  obtain key v where kv: "kv = (key, v)" by (cases kv)
  from Cons.prems(3) obtain m where n: "n = Suc m" by (cases n) auto
  have v: "list_all scalar key" "writable v" "reads v" using Cons.prems(2) kv by auto
  have key: "scan_str (concat (map escape_cp key) @ 34 # s) = Some (key, s)" for s
    using v(1) by (rule scan_str_dumps)
  show ?case
  proof (cases "kvs = []")
    case True
    with Cons.prems(3) n kv have "2 * length (json_dumps v) < m" by simp
    then have "pvalue m (json_dumps v @ 125 # r) = Some (v, 125 # r)" by (rule readsD [OF v(3)])
    with True show ?thesis
      by (simp add: n kv dumps_str_def key json_space_def dumps_skip_ws [OF v(2)])
  next
    case False
    let ?J = "join_comma (map dumps_member kvs)"
    have J: "join_comma (map dumps_member (kv # kvs)) = dumps_member kv @ 44 # ?J"
      using False by (simp add: join_comma_Cons)
    have m: "2 * length (json_dumps v) < m" "2 * length ?J + 1 < m"
      using Cons.prems(3) [unfolded n J] by (simp_all add: kv)
    have IH: "pobj m (?J @ 125 # r) = Some (kvs, r)"
      using False Cons.prems(2) m by (intro Cons.IH) auto
    obtain w ws where kvs: "kvs = w # ws" using False by (cases kvs) auto
    obtain rest where "?J @ 125 # r = dumps_str (fst w) @ rest"
      by (cases ws) (simp_all add: kvs)
    then have ws: "skip_ws (?J @ 125 # r) = ?J @ 125 # r"
      by (simp add: dumps_str_skip_ws)
    have "pvalue m (json_dumps v @ 44 # ?J @ 125 # r) = Some (v, 44 # ?J @ 125 # r)"
      using m(1) by (rule readsD [OF v(3)])
    then show ?thesis
      using IH ws
      by (simp only: n J pobj.simps append_assoc append_Cons)
        (simp add: kv dumps_str_def key json_space_def dumps_skip_ws [OF v(2)])
  qed
qed

lemma dumps_arr_head:
  "vs \<noteq> [] \<Longrightarrow> \<forall>v\<in>set vs. writable v \<Longrightarrow>
     \<exists>d ds. join_comma (map json_dumps vs) = d # ds \<and> \<not> json_space d \<and> d \<noteq> 93"
proof -
  assume "vs \<noteq> []" and w: "\<forall>v\<in>set vs. writable v"
  then obtain v ws where vs: "vs = v # ws" by (cases vs) auto
  with w obtain c cs where "json_dumps v = c # cs" "c \<in> {34, 91, 123, 110, 116, 102}"
    using dumps_head [of v] by auto
  with vs show ?thesis by (cases ws) (auto simp: json_space_def)
qed

lemma dumps_obj_head:
  "kvs \<noteq> [] \<Longrightarrow> \<exists>ds. join_comma (map dumps_member kvs) = 34 # ds"
  by (induction kvs rule: induct_list012) (auto simp: dumps_str_def)

lemma writable_reads: "writable v \<Longrightarrow> reads v"
proof (induction v)
  case JNull
  show ?case unfolding reads_def
  proof (intro allI impI)
    fix n r assume "2 * length (json_dumps JNull) < n"
    then obtain k where "n = Suc k" by (cases n) auto
    then show "pvalue n (json_dumps JNull @ r) = Some (JNull, r)"
      by (simp add: json_names_def strip_prefix_def lit_Cons)
  qed
next
  case (JBool b)
  show ?case unfolding reads_def
  proof (intro allI impI)
    fix n r assume "2 * length (json_dumps (JBool b)) < n"
    then obtain k where "n = Suc k" by (cases n) auto
    then show "pvalue n (json_dumps (JBool b) @ r) = Some (JBool b, r)"
      by (simp add: json_names_def strip_prefix_def lit_Cons)
  qed
next
  case (JStr s)
  show ?case unfolding reads_def
  proof (intro allI impI)
    fix n r assume "2 * length (json_dumps (JStr s)) < n"
    then obtain k where "n = Suc k" by (cases n) auto
    with JStr show "pvalue n (json_dumps (JStr s) @ r) = Some (JStr s, r)"
      by (simp add: dumps_str_def scan_str_dumps)
  qed
next
  case (JArr vs)
  show ?case unfolding reads_def
  proof (intro allI impI)
    fix n r assume n: "2 * length (json_dumps (JArr vs)) < n"
    then obtain k where k: "n = Suc k" by (cases n) auto
    show "pvalue n (json_dumps (JArr vs) @ r) = Some (JArr vs, r)"
    proof (cases "vs = []")
      case True
      then show ?thesis by (simp add: k json_space_def)
    next
      case False
      have "parr k (join_comma (map json_dumps vs) @ 93 # r) = Some (vs, r)"
        using JArr False n k by (intro parr_dumps) auto
      moreover obtain d ds where "join_comma (map json_dumps vs) = d # ds" "\<not> json_space d" "d \<noteq> 93"
        using dumps_arr_head [of vs] JArr False by auto
      ultimately show ?thesis by (simp add: k)
    qed
  qed
next
  case (JObj kvs)
  show ?case unfolding reads_def
  proof (intro allI impI)
    fix n r assume n: "2 * length (json_dumps (JObj kvs)) < n"
    then obtain k where k: "n = Suc k" by (cases n) auto
    show "pvalue n (json_dumps (JObj kvs) @ r) = Some (JObj kvs, r)"
    proof (cases "kvs = []")
      case True
      then show ?thesis by (simp add: k json_space_def)
    next
      case False
      have kv: "\<forall>kv\<in>set kvs. list_all scalar (fst kv) \<and> writable (snd kv) \<and> reads (snd kv)"
        using JObj by (auto simp: snds.simps)
      have "pobj k (join_comma (map dumps_member kvs) @ 125 # r) = Some (kvs, r)"
        using False kv n k by (intro pobj_dumps) auto
      moreover obtain ds where "join_comma (map dumps_member kvs) = 34 # ds"
        using dumps_obj_head [OF False] by auto
      ultimately show ?thesis by (simp add: k json_space_def)
    qed
  qed
qed simp_all

lemma json_loads_dumps: "writable v \<Longrightarrow> json_loads (json_dumps v) = Some v"
proof -
  assume v: "writable v"
  then have "pvalue (Suc (2 * length (json_dumps v))) (json_dumps v @ []) = Some (v, [])"
    by (intro readsD writable_reads) simp_all
  with dumps_skip_ws [OF v, of "[]"] show ?thesis by (simp add: json_loads_def)
qed

interpretation json: codec json_dumps json_loads writable
  by unfold_locales (rule json_loads_dumps)

end
