(* ===== verification/Storage_Engine.thy ===== *)
theory Storage_Engine
  imports Storage_Ttl Py_Json
begin

section \<open>The storage engine (\<open>storage/engine.py\<close>)\<close>

text \<open>
  The in-memory store of Mini Redis: keys with optional deadlines and lazy expiration, seat
  records and queues kept as JSON text under derived keys, snapshots. Every public method
  holds the engine's lock from start to end and reads the clock at most once, so a method
  is a function of the store and of the clock's value \<open>now\<close> during the call.
\<close>

subsection \<open>State\<close>

record Entry =
  entry_value :: ustr
  expires_at :: "rat option"

record SeatStatus =
  seat_state :: ustr
  seat_user_id :: "ustr option"
  seat_ttl :: int

type_synonym SnapshotEntry = "ustr \<times> ustr \<times> rat option"

definition SEAT_AVAILABLE :: ustr where "SEAT_AVAILABLE = lit ''AVAILABLE''"
definition SEAT_HELD :: ustr where "SEAT_HELD = lit ''HELD''"
definition SEAT_CONFIRMED :: ustr where "SEAT_CONFIRMED = lit ''CONFIRMED''"

record StorageEngine =
  store :: "(ustr, Entry) dict"

definition new_engine :: StorageEngine where
  "new_engine = \<lparr>store = []\<rparr>"

definition mk_entry :: "ustr \<Rightarrow> rat option \<Rightarrow> Entry" where
  "mk_entry v d = \<lparr>entry_value = v, expires_at = d\<rparr>"

definition mk_status :: "ustr \<Rightarrow> ustr option \<Rightarrow> int \<Rightarrow> SeatStatus" where
  "mk_status st u t = \<lparr>seat_state = st, seat_user_id = u, seat_ttl = t\<rparr>"

definition lookup_key :: "StorageEngine \<Rightarrow> ustr \<Rightarrow> Entry option" where
  "lookup_key s k = dict_get (store s) k"

definition store_key :: "ustr \<Rightarrow> Entry \<Rightarrow> StorageEngine \<Rightarrow> StorageEngine" where
  "store_key k e s = s\<lparr>store := dict_set k e (store s)\<rparr>"

definition delete_key :: "ustr \<Rightarrow> StorageEngine \<Rightarrow> StorageEngine" where
  "delete_key k s = s\<lparr>store := dict_pop k (store s)\<rparr>"

subsection \<open>Lazy expiration\<close>

definition purge_if_expired :: "ustr \<Rightarrow> rat \<Rightarrow> StorageEngine \<Rightarrow> bool \<times> StorageEngine" where
  "purge_if_expired key now s =
     (case lookup_key s key of
        None \<Rightarrow> (False, s)
      | Some entry \<Rightarrow>
          (case expires_at entry of
             None \<Rightarrow> (False, s)
           | Some deadline \<Rightarrow>
               if \<not> is_expired deadline now then (False, s) else (True, delete_key key s)))"

definition entry_expired :: "rat \<Rightarrow> Entry \<Rightarrow> bool" where
  "entry_expired now e \<longleftrightarrow> (case expires_at e of None \<Rightarrow> False | Some d \<Rightarrow> is_expired d now)"

definition purge_expired_keys :: "rat \<Rightarrow> StorageEngine \<Rightarrow> StorageEngine" where
  "purge_expired_keys now s =
     fold delete_key (map fst (filter (\<lambda>(k, e). entry_expired now e) (store s))) s"

subsection \<open>Keys and values\<close>

definition eng_set :: "ustr \<Rightarrow> ustr \<Rightarrow> StorageEngine \<Rightarrow> StorageEngine" where
  "eng_set key val s = store_key key (mk_entry val None) s"

definition eng_get :: "rat \<Rightarrow> ustr \<Rightarrow> StorageEngine \<Rightarrow> ustr option \<times> StorageEngine" where
  "eng_get now key s =
     (let s1 = snd (purge_if_expired key now s)
      in (case lookup_key s1 key of
            None \<Rightarrow> (None, s1)
          | Some entry \<Rightarrow> (Some (entry_value entry), s1)))"

definition eng_delete :: "rat \<Rightarrow> ustr \<Rightarrow> StorageEngine \<Rightarrow> bool \<times> StorageEngine" where
  "eng_delete now key s =
     (let s1 = snd (purge_if_expired key now s)
      in if lookup_key s1 key = None then (False, s1) else (True, delete_key key s1))"

definition eng_expire ::
  "rat \<Rightarrow> ustr \<Rightarrow> int \<Rightarrow> ustr option \<Rightarrow> (StorageEngine, bool) op" where
  "eng_expire now key seconds opt s =
     (case normalize_expire_option opt of
        Inl e \<Rightarrow> (Inl e, s)
      | Inr opt1 \<Rightarrow>
          (case purge_if_expired key now s of
             (True, s1) \<Rightarrow> (Inr False, s1)
           | (False, s1) \<Rightarrow>
               (case lookup_key s1 key of
                  None \<Rightarrow> (Inr False, s1)
                | Some entry \<Rightarrow>
                    (case compute_deadline now seconds of
                       Inl e \<Rightarrow> (Inl e, s1)
                     | Inr new_deadline \<Rightarrow>
                         (case should_apply_expiry opt1 (expires_at entry) new_deadline of
                            Inl e \<Rightarrow> (Inl e, s1)
                          | Inr False \<Rightarrow> (Inr False, s1)
                          | Inr True \<Rightarrow>
                              if seconds \<le> 0 then (Inr True, delete_key key s1)
                              else (Inr True,
                                store_key key (entry\<lparr>expires_at := Some new_deadline\<rparr>) s1))))))"

definition eng_ttl :: "rat \<Rightarrow> ustr \<Rightarrow> StorageEngine \<Rightarrow> int \<times> StorageEngine" where
  "eng_ttl now key s =
     (case purge_if_expired key now s of
        (True, s1) \<Rightarrow> (- 2, s1)
      | (False, s1) \<Rightarrow>
          (case lookup_key s1 key of
             None \<Rightarrow> (- 2, s1)
           | Some entry \<Rightarrow>
               (case expires_at entry of
                  None \<Rightarrow> (- 1, s1)
                | Some deadline \<Rightarrow> (remaining_ttl deadline now, s1))))"

subsection \<open>Snapshots\<close>

definition snapshot :: "rat \<Rightarrow> StorageEngine \<Rightarrow> SnapshotEntry list \<times> StorageEngine" where
  "snapshot now s =
     (let s1 = purge_expired_keys now s
      in (map (\<lambda>(k, e). (k, entry_value e, expires_at e)) (store s1), s1))"

fun load_entries_into :: "rat \<Rightarrow> SnapshotEntry list \<Rightarrow> StorageEngine \<Rightarrow> StorageEngine" where
  "load_entries_into now [] s = s"
| "load_entries_into now ((key, val, deadline) # es) s =
     (if entry_expired now (mk_entry val deadline) then load_entries_into now es s
      else load_entries_into now es (store_key key (mk_entry val deadline) s))"

definition load_snapshot :: "rat \<Rightarrow> SnapshotEntry list \<Rightarrow> StorageEngine \<Rightarrow> StorageEngine" where
  "load_snapshot now entries s = load_entries_into now entries (s\<lparr>store := []\<rparr>)"

subsection \<open>Seat records\<close>

definition seat_key :: "ustr \<Rightarrow> ustr \<Rightarrow> ustr" where
  "seat_key event_id seat_id = lit ''seat:'' @ event_id @ lit '':'' @ seat_id"

definition serialize_seat_record :: "ustr \<Rightarrow> ustr option \<Rightarrow> ustr" where
  "serialize_seat_record st user =
     json_dumps (JObj [(lit ''state'', JStr st),
       (lit ''user_id'', case user of None \<Rightarrow> JNull | Some u \<Rightarrow> JStr u)])"

fun json_type_name :: "json \<Rightarrow> string" where
  "json_type_name JNull = ''NoneType''"
| "json_type_name (JBool b) = ''bool''"
| "json_type_name (JInt t) = ''int''"
| "json_type_name (JFloat t) = ''float''"
| "json_type_name (JStr s) = ''str''"
| "json_type_name (JArr vs) = ''list''"
| "json_type_name (JObj kvs) = ''dict''"

definition deserialize_seat_record :: "ustr \<Rightarrow> py_error + (ustr \<times> ustr option)" where
  "deserialize_seat_record raw_value =
     (case json_loads raw_value of
        None \<Rightarrow> Inl JSONDecodeError
      | Some payload \<Rightarrow>
          (case payload of
             JObj kvs \<Rightarrow>
               (case (json_get kvs (lit ''state''), json_get kvs (lit ''user_id'')) of
                  (JStr st, JNull) \<Rightarrow> Inr (st, None)
                | (JStr st, JStr u) \<Rightarrow> Inr (st, Some u)
                | (JStr st, _) \<Rightarrow>
                    Inl (ValueError (lit ''seat record user_id must be a string or null''))
                | (_, _) \<Rightarrow> Inl (ValueError (lit ''seat record state must be a string'')))
           | other \<Rightarrow>
               Inl (AttributeError ([39] @ lit (json_type_name other) @ [39] @
                 lit '' object has no attribute '' @ [39] @ lit ''get'' @ [39]))))"

definition seat_status_by_key :: "rat \<Rightarrow> ustr \<Rightarrow> (StorageEngine, SeatStatus) op" where
  "seat_status_by_key now key s =
     (case purge_if_expired key now s of
        (True, s1) \<Rightarrow> (Inr (mk_status SEAT_AVAILABLE None (- 1)), s1)
      | (False, s1) \<Rightarrow>
          (case lookup_key s1 key of
             None \<Rightarrow> (Inr (mk_status SEAT_AVAILABLE None (- 1)), s1)
           | Some entry \<Rightarrow>
               (case deserialize_seat_record (entry_value entry) of
                  Inl e \<Rightarrow> (Inl e, s1)
                | Inr (st, user) \<Rightarrow>
                    (let t = (case expires_at entry of
                                None \<Rightarrow> - 1
                              | Some d \<Rightarrow> remaining_ttl d now)
                     in (Inr (mk_status st user t), s1)))))"

definition reserve_seat ::
  "rat \<Rightarrow> ustr \<Rightarrow> ustr \<Rightarrow> ustr \<Rightarrow> int \<Rightarrow> (StorageEngine, bool \<times> SeatStatus) op" where
  "reserve_seat now event_id seat_id user hold_seconds s =
     (if hold_seconds \<le> 0
      then (Inl (ValueError (lit ''RESERVE_SEAT ttl_seconds must be a positive integer'')), s)
      else
        (let key = seat_key event_id seat_id
         in (case seat_status_by_key now key s of
               (Inl e, s1) \<Rightarrow> (Inl e, s1)
             | (Inr status, s1) \<Rightarrow>
                 if seat_state status = SEAT_AVAILABLE \<or>
                    (seat_state status = SEAT_HELD \<and> seat_user_id status = Some user)
                 then
                   (case compute_deadline now hold_seconds of
                      Inl e \<Rightarrow> (Inl e, s1)
                    | Inr deadline \<Rightarrow>
                        (Inr (True, mk_status SEAT_HELD (Some user) hold_seconds),
                         store_key key
                           (mk_entry (serialize_seat_record SEAT_HELD (Some user)) (Some deadline))
                           s1))
                 else (Inr (False, status), s1))))"

definition confirm_seat ::
  "rat \<Rightarrow> ustr \<Rightarrow> ustr \<Rightarrow> ustr \<Rightarrow> (StorageEngine, bool \<times> SeatStatus) op" where
  "confirm_seat now event_id seat_id user s =
     (let key = seat_key event_id seat_id
      in (case seat_status_by_key now key s of
            (Inl e, s1) \<Rightarrow> (Inl e, s1)
          | (Inr status, s1) \<Rightarrow>
              if seat_state status = SEAT_CONFIRMED \<and> seat_user_id status = Some user
              then (Inr (True, status), s1)
              else if seat_state status \<noteq> SEAT_HELD \<or> seat_user_id status \<noteq> Some user
              then (Inr (False, status), s1)
              else
                (Inr (True, mk_status SEAT_CONFIRMED (Some user) (- 1)),
                 store_key key
                   (mk_entry (serialize_seat_record SEAT_CONFIRMED (Some user)) None) s1)))"

definition force_confirm_seat ::
  "ustr \<Rightarrow> ustr \<Rightarrow> ustr \<Rightarrow> (StorageEngine, bool \<times> SeatStatus) op" where
  "force_confirm_seat event_id seat_id user s =
     (Inr (True, mk_status SEAT_CONFIRMED (Some user) (- 1)),
      store_key (seat_key event_id seat_id)
        (mk_entry (serialize_seat_record SEAT_CONFIRMED (Some user)) None) s)"

definition release_seat ::
  "rat \<Rightarrow> ustr \<Rightarrow> ustr \<Rightarrow> ustr \<Rightarrow> (StorageEngine, bool \<times> SeatStatus) op" where
  "release_seat now event_id seat_id user s =
     (let key = seat_key event_id seat_id
      in (case seat_status_by_key now key s of
            (Inl e, s1) \<Rightarrow> (Inl e, s1)
          | (Inr status, s1) \<Rightarrow>
              if seat_state status \<noteq> SEAT_HELD \<or> seat_user_id status \<noteq> Some user
              then (Inr (False, status), s1)
              else (Inr (True, mk_status SEAT_AVAILABLE None (- 1)), delete_key key s1)))"

definition seat_status :: "rat \<Rightarrow> ustr \<Rightarrow> ustr \<Rightarrow> (StorageEngine, SeatStatus) op" where
  "seat_status now event_id seat_id s = seat_status_by_key now (seat_key event_id seat_id) s"

subsection \<open>Queues\<close>

definition queue_key :: "ustr \<Rightarrow> ustr" where
  "queue_key event_id = lit ''queue:'' @ event_id"

definition serialize_queue :: "ustr list \<Rightarrow> ustr" where
  "serialize_queue queue = json_dumps (JArr (map JStr queue))"

fun json_str :: "json \<Rightarrow> ustr option" where
  "json_str (JStr s) = Some s"
| "json_str _ = None"

definition deserialize_queue :: "ustr \<Rightarrow> py_error + ustr list" where
  "deserialize_queue raw_value =
     (case json_loads raw_value of
        None \<Rightarrow> Inl JSONDecodeError
      | Some payload \<Rightarrow>
          (case payload of
             JArr items \<Rightarrow>
               if \<exists>item\<in>set items. json_str item = None
               then Inl (ValueError (lit ''queue entries must be strings''))
               else Inr (map (\<lambda>item. the (json_str item)) items)
           | _ \<Rightarrow> Inl (ValueError (lit ''queue record must be a list''))))"

definition load_queue :: "ustr \<Rightarrow> StorageEngine \<Rightarrow> py_error + ustr list" where
  "load_queue key s =
     (case lookup_key s key of
        None \<Rightarrow> Inr []
      | Some entry \<Rightarrow> deserialize_queue (entry_value entry))"

definition store_queue :: "ustr \<Rightarrow> ustr list \<Rightarrow> StorageEngine \<Rightarrow> StorageEngine" where
  "store_queue key queue s =
     (if queue = [] then delete_key key s
      else store_key key (mk_entry (serialize_queue queue) None) s)"

definition index_of :: "'a \<Rightarrow> 'a list \<Rightarrow> nat" where
  "index_of x xs = length (takeWhile (\<lambda>y. y \<noteq> x) xs)"

definition join_queue :: "ustr \<Rightarrow> ustr \<Rightarrow> (StorageEngine, bool \<times> int \<times> int) op" where
  "join_queue event_id user s =
     (let key = queue_key event_id
      in (case load_queue key s of
            Inl e \<Rightarrow> (Inl e, s)
          | Inr queue \<Rightarrow>
              if user \<in> set queue
              then (Inr (False, int (index_of user queue) + 1, int (length queue)), s)
              else
                (let queue1 = queue @ [user]
                 in (Inr (True, int (length queue1), int (length queue1)),
                     store_queue key queue1 s))))"

definition queue_position :: "ustr \<Rightarrow> ustr \<Rightarrow> (StorageEngine, int \<times> int) op" where
  "queue_position event_id user s =
     (case load_queue (queue_key event_id) s of
        Inl e \<Rightarrow> (Inl e, s)
      | Inr queue \<Rightarrow>
          if user \<notin> set queue then (Inr (- 1, int (length queue)), s)
          else (Inr (int (index_of user queue) + 1, int (length queue)), s))"

definition pop_queue :: "ustr \<Rightarrow> (StorageEngine, ustr option \<times> int) op" where
  "pop_queue event_id s =
     (let key = queue_key event_id
      in (case load_queue key s of
            Inl e \<Rightarrow> (Inl e, s)
          | Inr [] \<Rightarrow> (Inr (None, 0), s)
          | Inr (user # queue) \<Rightarrow>
              (Inr (Some user, int (length queue)), store_queue key queue s)))"

definition leave_queue :: "ustr \<Rightarrow> ustr \<Rightarrow> (StorageEngine, bool \<times> int \<times> int) op" where
  "leave_queue event_id user s =
     (let key = queue_key event_id
      in (case load_queue key s of
            Inl e \<Rightarrow> (Inl e, s)
          | Inr queue \<Rightarrow>
              if user \<notin> set queue then (Inr (False, - 1, int (length queue)), s)
              else
                (let position = int (index_of user queue) + 1; queue1 = remove1 user queue
                 in (Inr (True, position, int (length queue1)), store_queue key queue1 s))))"

definition peek_queue :: "ustr \<Rightarrow> (StorageEngine, ustr option \<times> int) op" where
  "peek_queue event_id s =
     (case load_queue (queue_key event_id) s of
        Inl e \<Rightarrow> (Inl e, s)
      | Inr [] \<Rightarrow> (Inr (None, 0), s)
      | Inr (user # queue) \<Rightarrow> (Inr (Some user, int (length (user # queue))), s))"

end
