(* ===== verification/Storage_Live.thy ===== *)
theory Storage_Live
  imports Storage_Engine
begin

section \<open>Keys and values: lazy expiration is invisible\<close>

text \<open>
  What a client can observe of the store at time \<open>now\<close> is its live part: the entries
  whose deadline has not passed. The lemmas below characterise every key-value operation by
  the live part before and after it, so that an expired entry that is still in the
  dictionary never shows. The engine that removes expired keys eagerly and the engine that
  removes them on access are then the same to a client.
\<close>

definition live :: "rat \<Rightarrow> StorageEngine \<Rightarrow> ustr \<Rightarrow> Entry option" where
  "live now s k =
     (case lookup_key s k of
        None \<Rightarrow> None
      | Some e \<Rightarrow> if entry_expired now e then None else Some e)"

definition engine_ok :: "StorageEngine \<Rightarrow> bool" where
  "engine_ok s \<longleftrightarrow> dict_ok (store s)"

subsection \<open>The dictionary\<close>

lemma lookup_store [dict_simps]:
  "lookup_key (store_key k e s) k' = (if k' = k then Some e else lookup_key s k')"
  by (simp add: lookup_key_def store_key_def dict_simps)

lemma lookup_delete [dict_simps]:
  "lookup_key (delete_key k s) k' = (if k' = k then None else lookup_key s k')"
  by (simp add: lookup_key_def delete_key_def dict_simps)

interpretation engine: dict_like lookup_key store_key delete_key
  by unfold_locales (simp_all add: dict_simps)

lemma engine_ok_store [simp, intro]: "engine_ok s \<Longrightarrow> engine_ok (store_key k e s)"
  by (simp add: engine_ok_def store_key_def)

lemma engine_ok_delete [simp, intro]: "engine_ok s \<Longrightarrow> engine_ok (delete_key k s)"
  by (simp add: engine_ok_def delete_key_def)

lemma engine_ok_new [simp]: "engine_ok new_engine"
  by (simp add: engine_ok_def new_engine_def)

lemma mk_entry_sel [simp]:
  "entry_value (mk_entry v d) = v" "expires_at (mk_entry v d) = d"
  by (simp_all add: mk_entry_def)

lemma mk_status_sel [simp]:
  "seat_state (mk_status a b c) = a" "seat_user_id (mk_status a b c) = b"
  "seat_ttl (mk_status a b c) = c"
  by (simp_all add: mk_status_def)

lemma entry_expired_mono: "now \<le> now' \<Longrightarrow> entry_expired now e \<Longrightarrow> entry_expired now' e"
  by (auto simp: entry_expired_def is_expired_def split: option.splits)

lemma entry_expired_persistent [simp]: "\<not> entry_expired now (mk_entry v None)"
  by (simp add: entry_expired_def)

subsection \<open>The live part after an update\<close>

lemma live_store [dict_simps]:
  "live now (store_key k e s) k' =
     (if k' = k then (if entry_expired now e then None else Some e) else live now s k')"
  by (simp add: live_def dict_simps)

lemma live_delete [dict_simps]:
  "live now (delete_key k s) k' = (if k' = k then None else live now s k')"
  by (simp add: live_def dict_simps)

lemma live_later:
  "now \<le> now' \<Longrightarrow>
     live now' s k =
       (case live now s k of None \<Rightarrow> None | Some e \<Rightarrow> if entry_expired now' e then None else Some e)"
  by (auto simp: live_def entry_expired_mono split: option.split)

lemma live_SomeD: "live now s k = Some e \<Longrightarrow> lookup_key s k = Some e \<and> \<not> entry_expired now e"
  by (auto simp: live_def split: option.splits if_splits)

subsection \<open>Purging one key\<close>

lemma purge_lookup:
  assumes "purge_if_expired k now s = (b, s1)"
  shows "lookup_key s1 k = live now s k"
    and "k' \<noteq> k \<Longrightarrow> lookup_key s1 k' = lookup_key s k'"
    and "b \<Longrightarrow> live now s k = None"
  using assms
  by (auto simp: purge_if_expired_def live_def entry_expired_def dict_simps
      split: option.splits if_splits)

lemma purge_live:
  assumes "purge_if_expired k now s = (b, s1)" and "now \<le> now'"
  shows "live now' s1 = live now' s"
proof
  fix k'
  show "live now' s1 k' = live now' s k'"
  proof (cases "k' = k")
    case True
    with purge_lookup(1) [OF assms(1)] have "live now' s1 k' =
        (case live now s k of None \<Rightarrow> None | Some e \<Rightarrow> if entry_expired now' e then None else Some e)"
      by (simp add: live_def [of now' s1])
    with True show ?thesis by (simp add: live_later [OF assms(2)])
  next
    case False
    with purge_lookup(2) [OF assms(1)] show ?thesis by (simp add: live_def)
  qed
qed

lemma purge_ok: "engine_ok s \<Longrightarrow> engine_ok (snd (purge_if_expired k now s))"
  by (auto simp: purge_if_expired_def split: option.split)

lemma purge_snd:
  "purge_if_expired k now s = (fst (purge_if_expired k now s), snd (purge_if_expired k now s))"
  by simp

lemmas purge_facts = purge_lookup [OF purge_snd] purge_live [OF purge_snd]

subsection \<open>Operations by their live part\<close>

lemma get_by_live:
  "fst (eng_get now k s) = map_option entry_value (live now s k)"
  "now \<le> now' \<Longrightarrow> live now' (snd (eng_get now k s)) = live now' s"
  by (auto simp: eng_get_def Let_def purge_facts split: option.split)

lemma delete_by_live:
  "fst (eng_delete now k s) = (live now s k \<noteq> None)"
  "now \<le> now' \<Longrightarrow> live now' (snd (eng_delete now k s)) = (live now' s)(k := None)"
  by (auto simp: eng_delete_def Let_def purge_facts fun_eq_iff live_delete live_later [of now now'])

lemma ttl_by_live:
  "fst (eng_ttl now k s) =
     (case live now s k of
        None \<Rightarrow> - 2
      | Some e \<Rightarrow> (case expires_at e of None \<Rightarrow> - 1 | Some d \<Rightarrow> remaining_ttl d now))"
  "now \<le> now' \<Longrightarrow> live now' (snd (eng_ttl now k s)) = live now' s"
proof -
  obtain b s1 where p: "purge_if_expired k now s = (b, s1)" by (cases "purge_if_expired k now s")
  note l = purge_lookup [OF p]
  show "fst (eng_ttl now k s) =
     (case live now s k of
        None \<Rightarrow> - 2
      | Some e \<Rightarrow> (case expires_at e of None \<Rightarrow> - 1 | Some d \<Rightarrow> remaining_ttl d now))"
    using l by (auto simp: eng_ttl_def p split: bool.split option.split)
  show "now \<le> now' \<Longrightarrow> live now' (snd (eng_ttl now k s)) = live now' s"
    using l purge_live [OF p] by (auto simp: eng_ttl_def p split: bool.split option.split)
qed

text \<open>
  \<open>EXPIRE\<close> on a live key whose new deadline is accepted replaces the deadline, or removes
  the key when the timeout is not positive; in every other case nothing changes.
\<close>

definition expire_effect ::
  "rat \<Rightarrow> int \<Rightarrow> ustr option \<Rightarrow> Entry option \<Rightarrow> py_error + bool \<times> Entry option" where
  "expire_effect now seconds opt cur =
     (case normalize_expire_option opt of
        Inl e \<Rightarrow> Inl e
      | Inr opt1 \<Rightarrow>
          (case cur of
             None \<Rightarrow> Inr (False, None)
           | Some entry \<Rightarrow>
               (case compute_deadline now seconds of
                  Inl e \<Rightarrow> Inl e
                | Inr d \<Rightarrow>
                    if should_apply_expiry opt1 (expires_at entry) d = Inr True
                    then Inr (True, if seconds \<le> 0 then None
                                    else Some (entry\<lparr>expires_at := Some d\<rparr>))
                    else Inr (False, Some entry))))"

lemma expire_by_live:
  "fst (eng_expire now k seconds opt s) =
     (case expire_effect now seconds opt (live now s k) of Inl e \<Rightarrow> Inl e | Inr (b, _) \<Rightarrow> Inr b)"
  "now \<le> now' \<Longrightarrow> live now' (snd (eng_expire now k seconds opt s)) =
     (case expire_effect now seconds opt (live now s k) of
        Inl e \<Rightarrow> live now' s
      | Inr (_, cur) \<Rightarrow>
          (live now' s)(k := (case cur of None \<Rightarrow> None
             | Some e \<Rightarrow> if entry_expired now' e then None else Some e)))"
proof -
  obtain b s1 where p: "purge_if_expired k now s = (b, s1)" by (cases "purge_if_expired k now s")
  note l = purge_lookup [OF p]
  have sa: "normalize_expire_option opt = Inr r \<Longrightarrow> should_apply_expiry r c d = Inl e \<Longrightarrow> False"
    for r c d e using should_apply_normalized [of opt r c d] by auto
  show "fst (eng_expire now k seconds opt s) =
     (case expire_effect now seconds opt (live now s k) of Inl e \<Rightarrow> Inl e | Inr (b, _) \<Rightarrow> Inr b)"
    using l
    by (auto simp: eng_expire_def expire_effect_def p split: bool.split option.split sum.split
        dest: sa)
  assume n: "now \<le> now'"
  show "live now' (snd (eng_expire now k seconds opt s)) =
     (case expire_effect now seconds opt (live now s k) of
        Inl e \<Rightarrow> live now' s
      | Inr (_, cur) \<Rightarrow>
          (live now' s)(k := (case cur of None \<Rightarrow> None
             | Some e \<Rightarrow> if entry_expired now' e then None else Some e)))"
    using l purge_live [OF p n] live_later [OF n, of s k]
    by (auto simp: eng_expire_def expire_effect_def p fun_eq_iff dict_simps
        split: bool.split option.split sum.split dest: sa)
qed

end
