(* ===== verification/Storage_Seats.thy ===== *)
theory Storage_Seats
  imports Storage_Live
begin

section \<open>Seats: an abstract seat and its refinement\<close>

text \<open>
  What the seat operations promise, stated on an abstract seat (available, held by a user up
  to a deadline, or confirmed for a user), and the proof that the engine's operations on
  JSON records implement it. Time only turns a held seat into an available one. The
  interface \<open>seat_machine\<close> is what a client of the engine relies on; its lemmas on whole
  histories of operations hold for the engine through the interpretation at the end.
\<close>

subsection \<open>Seat records as text\<close>

lemmas seat_names = SEAT_AVAILABLE_def SEAT_HELD_def SEAT_CONFIRMED_def

lemma seat_names_distinct [simp]:
  "SEAT_HELD \<noteq> SEAT_AVAILABLE" "SEAT_AVAILABLE \<noteq> SEAT_HELD"
  "SEAT_CONFIRMED \<noteq> SEAT_AVAILABLE" "SEAT_AVAILABLE \<noteq> SEAT_CONFIRMED"
  "SEAT_CONFIRMED \<noteq> SEAT_HELD" "SEAT_HELD \<noteq> SEAT_CONFIRMED"
  by (simp_all add: seat_names)

definition user_ok :: "ustr \<Rightarrow> bool" where
  "user_ok u \<longleftrightarrow> list_all scalar u"

definition record_ok :: "ustr \<times> ustr option \<Rightarrow> bool" where
  "record_ok r \<longleftrightarrow> list_all scalar (fst r) \<and> (case snd r of None \<Rightarrow> True | Some u \<Rightarrow> user_ok u)"

definition read_seat_record :: "ustr \<Rightarrow> (ustr \<times> ustr option) option" where
  "read_seat_record t = (case deserialize_seat_record t of Inl e \<Rightarrow> None | Inr r \<Rightarrow> Some r)"

lemma deserialize_serialize_seat:
  assumes "record_ok (st, user)"
  shows "deserialize_seat_record (serialize_seat_record st user) = Inr (st, user)"
proof -
  let ?v = "JObj [(lit ''state'', JStr st),
       (lit ''user_id'', case user of None \<Rightarrow> JNull | Some u \<Rightarrow> JStr u)]"
  have "writable ?v"
    using assms by (auto simp: record_ok_def user_ok_def split: option.split)
  then have "json_loads (serialize_seat_record st user) = Some ?v"
    unfolding serialize_seat_record_def by (rule json_loads_dumps)
  then show ?thesis
    by (simp add: deserialize_seat_record_def json_get_def split: option.split)
qed

interpretation seat_record: codec "\<lambda>r. serialize_seat_record (fst r) (snd r)" read_seat_record record_ok
  by unfold_locales (simp add: read_seat_record_def deserialize_serialize_seat)

subsection \<open>The status of a live entry\<close>

definition status_of_entry :: "rat \<Rightarrow> Entry option \<Rightarrow> py_error + SeatStatus" where
  "status_of_entry now e =
     (case e of
        None \<Rightarrow> Inr (mk_status SEAT_AVAILABLE None (- 1))
      | Some entry \<Rightarrow>
          (case deserialize_seat_record (entry_value entry) of
             Inl err \<Rightarrow> Inl err
           | Inr (st, user) \<Rightarrow>
               Inr (mk_status st user
                 (case expires_at entry of None \<Rightarrow> - 1 | Some d \<Rightarrow> remaining_ttl d now))))"

lemma seat_status_by_live:
  assumes "seat_status_by_key now k s = (r, s1)"
  shows "r = status_of_entry now (live now s k)"
    and "lookup_key s1 k = live now s k"
    and "k' \<noteq> k \<Longrightarrow> lookup_key s1 k' = lookup_key s k'"
    and "now \<le> now' \<Longrightarrow> live now' s1 = live now' s"
    and "engine_ok s \<Longrightarrow> engine_ok s1"
proof -
  obtain b s2 where p: "purge_if_expired k now s = (b, s2)" by (cases "purge_if_expired k now s")
  note l = purge_lookup [OF p]
  have s1: "s1 = s2"
    using assms by (auto simp: seat_status_by_key_def p Let_def
        split: bool.splits option.splits sum.splits)
  show "r = status_of_entry now (live now s k)"
    using assms l by (auto simp: seat_status_by_key_def status_of_entry_def p Let_def
        split: bool.splits option.splits sum.splits)
  show "lookup_key s1 k = live now s k" and "k' \<noteq> k \<Longrightarrow> lookup_key s1 k' = lookup_key s k'"
    using l s1 by simp_all
  show "now \<le> now' \<Longrightarrow> live now' s1 = live now' s" using purge_live [OF p] s1 by simp
  show "engine_ok s \<Longrightarrow> engine_ok s1" using purge_ok [of s k now] p s1 by simp
qed

subsection \<open>The abstract seat\<close>

datatype seat = Available | Held ustr rat | Confirmed ustr

fun age :: "rat \<Rightarrow> seat \<Rightarrow> seat" where
  "age now (Held u d) = (if is_expired d now then Available else Held u d)"
| "age now a = a"

fun seat_entry :: "seat \<Rightarrow> Entry option" where
  "seat_entry Available = None"
| "seat_entry (Held u d) = Some (mk_entry (serialize_seat_record SEAT_HELD (Some u)) (Some d))"
| "seat_entry (Confirmed u) = Some (mk_entry (serialize_seat_record SEAT_CONFIRMED (Some u)) None)"

fun seat_wf :: "seat \<Rightarrow> bool" where
  "seat_wf Available = True"
| "seat_wf (Held u d) = user_ok u"
| "seat_wf (Confirmed u) = user_ok u"

fun abs_status :: "rat \<Rightarrow> seat \<Rightarrow> SeatStatus" where
  "abs_status now Available = mk_status SEAT_AVAILABLE None (- 1)"
| "abs_status now (Held u d) = mk_status SEAT_HELD (Some u) (remaining_ttl d now)"
| "abs_status now (Confirmed u) = mk_status SEAT_CONFIRMED (Some u) (- 1)"

datatype seat_op =
    OpReserve ustr int
  | OpConfirm ustr
  | OpForce ustr
  | OpRelease ustr
  | OpStatus

text \<open>The effect of an operation on a seat that has been aged to the time of the call.\<close>

definition hold_or_fail ::
  "rat \<Rightarrow> ustr \<Rightarrow> int \<Rightarrow> seat \<Rightarrow> (py_error + bool \<times> SeatStatus) \<times> seat" where
  "hold_or_fail now u h a =
     (case compute_deadline now h of
        Inl e \<Rightarrow> (Inl e, a)
      | Inr d \<Rightarrow> (Inr (True, mk_status SEAT_HELD (Some u) h), Held u d))"

fun abs_seat_op ::
  "rat \<Rightarrow> seat_op \<Rightarrow> seat \<Rightarrow> (py_error + bool \<times> SeatStatus) \<times> seat" where
  "abs_seat_op now (OpReserve u h) a =
     (if h \<le> 0
      then (Inl (ValueError (lit ''RESERVE_SEAT ttl_seconds must be a positive integer'')), a)
      else
        (case a of
           Available \<Rightarrow> hold_or_fail now u h a
         | Held v d \<Rightarrow>
             if v = u then hold_or_fail now u h a else (Inr (False, abs_status now a), a)
         | Confirmed v \<Rightarrow> (Inr (False, abs_status now a), a)))"
| "abs_seat_op now (OpConfirm u) a =
     (case a of
        Available \<Rightarrow> (Inr (False, abs_status now a), a)
      | Held v d \<Rightarrow>
          if v = u then (Inr (True, abs_status now (Confirmed u)), Confirmed u)
          else (Inr (False, abs_status now a), a)
      | Confirmed v \<Rightarrow> (Inr (v = u, abs_status now a), a))"
| "abs_seat_op now (OpForce u) a = (Inr (True, abs_status now (Confirmed u)), Confirmed u)"
| "abs_seat_op now (OpRelease u) a =
     (case a of
        Held v d \<Rightarrow>
          if v = u then (Inr (True, abs_status now Available), Available)
          else (Inr (False, abs_status now a), a)
      | _ \<Rightarrow> (Inr (False, abs_status now a), a))"
| "abs_seat_op now OpStatus a = (Inr (True, abs_status now a), a)"

fun op_wf :: "seat_op \<Rightarrow> bool" where
  "op_wf (OpReserve u h) = user_ok u"
| "op_wf (OpConfirm u) = user_ok u"
| "op_wf (OpForce u) = user_ok u"
| "op_wf (OpRelease u) = user_ok u"
| "op_wf OpStatus = True"

subsection \<open>The engine's operations on one seat\<close>

fun engine_seat_op ::
  "ustr \<Rightarrow> ustr \<Rightarrow> rat \<Rightarrow> seat_op \<Rightarrow> (StorageEngine, bool \<times> SeatStatus) op" where
  "engine_seat_op ev st now (OpReserve u h) s = reserve_seat now ev st u h s"
| "engine_seat_op ev st now (OpConfirm u) s = confirm_seat now ev st u s"
| "engine_seat_op ev st now (OpForce u) s = force_confirm_seat ev st u s"
| "engine_seat_op ev st now (OpRelease u) s = release_seat now ev st u s"
| "engine_seat_op ev st now OpStatus s =
     (case seat_status now ev st s of
        (Inl e, s1) \<Rightarrow> (Inl e, s1)
      | (Inr status, s1) \<Rightarrow> (Inr (True, status), s1))"

definition seat_rep :: "ustr \<Rightarrow> ustr \<Rightarrow> rat \<Rightarrow> StorageEngine \<Rightarrow> seat \<Rightarrow> bool" where
  "seat_rep ev st now s a \<longleftrightarrow> live now s (seat_key ev st) = seat_entry (age now a) \<and> seat_wf a"

lemma age_later: "now \<le> now' \<Longrightarrow> age now' (age now a) = age now' a"
  by (cases a) (auto simp: is_expired_def)

lemma age_age [simp]: "age now (age now a) = age now a"
  by (simp add: age_later)

lemma seat_wf_age: "seat_wf a \<Longrightarrow> seat_wf (age now a)"
  by (cases a) auto

lemma seat_entry_age:
  "(case seat_entry a of None \<Rightarrow> None | Some e \<Rightarrow> if entry_expired now e then None else Some e) =
     seat_entry (age now a)"
  by (cases a) (auto simp: entry_expired_def)

lemma seat_rep_later:
  assumes "seat_rep ev st now s a" and "now \<le> now'"
  shows "seat_rep ev st now' s a"
  using assms seat_entry_age [where a = "age now a" and now = now']
  by (simp add: seat_rep_def live_later [OF assms(2)] age_later)

lemma seat_rep_age: "seat_rep ev st now s a \<Longrightarrow> seat_rep ev st now s (age now a)"
  by (simp add: seat_rep_def seat_wf_age)

lemma status_of_seat:
  assumes "seat_wf a"
  shows "status_of_entry now (seat_entry a) = Inr (abs_status now a)"
  using assms
  by (cases a) (auto simp: status_of_entry_def deserialize_serialize_seat record_ok_def
      seat_names)

text \<open>A store of the record of an abstract seat represents that seat.\<close>

lemma seat_rep_store:
  "seat_entry a = Some e \<Longrightarrow> seat_wf a \<Longrightarrow> seat_rep ev st now (store_key (seat_key ev st) e s) a"
  using seat_entry_age [where a = a and now = now] by (simp add: seat_rep_def dict_simps)

lemma seat_rep_delete: "seat_rep ev st now (delete_key (seat_key ev st) s) Available"
  by (simp add: seat_rep_def dict_simps)

subsection \<open>Simulation\<close>

text \<open>
  The engine's step on one seat: the status read first leaves a store that still represents
  the seat; then each branch of the operation is the branch of the abstract one.
\<close>

lemma status_step:
  assumes "seat_rep ev st now s a" and "seat_status_by_key now (seat_key ev st) s = (r, s1)"
  shows "r = Inr (abs_status now (age now a))"
    and "seat_rep ev st now s1 (age now a)"
    and "k' \<noteq> seat_key ev st \<Longrightarrow> lookup_key s1 k' = lookup_key s k'"
proof -
  note l = seat_status_by_live [OF assms(2)]
  have wf: "seat_wf (age now a)" using assms(1) by (simp add: seat_rep_def seat_wf_age)
  show "r = Inr (abs_status now (age now a))"
    using l(1) assms(1) status_of_seat [OF wf] by (simp add: seat_rep_def)
  show "seat_rep ev st now s1 (age now a)"
    using l(4) [of now] assms(1) wf by (simp add: seat_rep_def)
  show "k' \<noteq> seat_key ev st \<Longrightarrow> lookup_key s1 k' = lookup_key s k'" by (rule l(3))
qed

definition seat_sim ::
  "ustr \<Rightarrow> ustr \<Rightarrow> rat \<Rightarrow> StorageEngine \<Rightarrow> (py_error + bool \<times> SeatStatus) \<times> StorageEngine \<Rightarrow>
     (py_error + bool \<times> SeatStatus) \<times> seat \<Rightarrow> bool" where
  "seat_sim ev st now s c a \<longleftrightarrow>
     fst c = fst a \<and> seat_rep ev st now (snd c) (snd a) \<and>
     (\<forall>k'. k' \<noteq> seat_key ev st \<longrightarrow> lookup_key (snd c) k' = lookup_key s k')"

lemma seat_simI:
  "r = r' \<Longrightarrow> seat_rep ev st now s1 a1 \<Longrightarrow>
     (\<And>k'. k' \<noteq> seat_key ev st \<Longrightarrow> lookup_key s1 k' = lookup_key s k') \<Longrightarrow>
     seat_sim ev st now s (r, s1) (r', a1)"
  by (simp add: seat_sim_def)

lemma status_expanded:
  obtains r s1 where "seat_status_by_key now (seat_key ev st) s = (r, s1)"
  by (cases "seat_status_by_key now (seat_key ev st) s")

lemma reserve_sim:
  assumes rep: "seat_rep ev st now s a" and u: "user_ok u"
  shows "seat_sim ev st now s (reserve_seat now ev st u h s)
           (abs_seat_op now (OpReserve u h) (age now a))"
proof -
  obtain r s1 where q: "seat_status_by_key now (seat_key ev st) s = (r, s1)"
    by (rule status_expanded)
  note l = status_step [OF rep q]
  have hold: "seat_rep ev st now (store_key (seat_key ev st)
      (mk_entry (serialize_seat_record SEAT_HELD (Some u)) (Some d)) s1) (Held u d)" for d
    using u by (intro seat_rep_store) simp_all
  show ?thesis
  proof (cases "h \<le> 0")
    case True
    with rep show ?thesis
      by (simp add: reserve_seat_def seat_sim_def seat_rep_age)
  next
    case False
    then show ?thesis
      using l hold
      by (cases "age now a"; cases "compute_deadline now h")
        (auto simp: reserve_seat_def q Let_def hold_or_fail_def dict_simps intro!: seat_simI)
  qed
qed

lemma confirm_sim:
  assumes rep: "seat_rep ev st now s a" and u: "user_ok u"
  shows "seat_sim ev st now s (confirm_seat now ev st u s)
           (abs_seat_op now (OpConfirm u) (age now a))"
proof -
  obtain r s1 where q: "seat_status_by_key now (seat_key ev st) s = (r, s1)"
    by (rule status_expanded)
  note l = status_step [OF rep q]
  have conf: "seat_rep ev st now (store_key (seat_key ev st)
      (mk_entry (serialize_seat_record SEAT_CONFIRMED (Some u)) None) s1) (Confirmed u)"
    using u by (intro seat_rep_store) simp_all
  show ?thesis
    using l conf
    by (cases "age now a") (auto simp: confirm_seat_def q Let_def dict_simps intro!: seat_simI)
qed

lemma force_sim:
  "user_ok u \<Longrightarrow> seat_sim ev st now s (force_confirm_seat ev st u s)
     (abs_seat_op now (OpForce u) a)"
  by (auto simp: force_confirm_seat_def dict_simps intro!: seat_simI seat_rep_store)

lemma release_sim:
  assumes rep: "seat_rep ev st now s a"
  shows "seat_sim ev st now s (release_seat now ev st u s)
           (abs_seat_op now (OpRelease u) (age now a))"
proof -
  obtain r s1 where q: "seat_status_by_key now (seat_key ev st) s = (r, s1)"
    by (rule status_expanded)
  note l = status_step [OF rep q]
  show ?thesis
    using l
    by (cases "age now a")
      (auto simp: release_seat_def q Let_def dict_simps seat_rep_delete intro!: seat_simI)
qed

lemma seat_op_sim:
  assumes "seat_rep ev st now s a" and "op_wf oper"
  shows "seat_sim ev st now s (engine_seat_op ev st now oper s)
           (abs_seat_op now oper (age now a))"
proof (cases oper)
  case OpStatus
  obtain r s1 where q: "seat_status_by_key now (seat_key ev st) s = (r, s1)"
    by (rule status_expanded)
  with OpStatus status_step [OF assms(1) q] show ?thesis
    by (auto simp: seat_status_def intro!: seat_simI)
qed (use assms reserve_sim confirm_sim force_sim release_sim in simp_all)

subsection \<open>Histories\<close>

text \<open>
  A history is a list of operations with the times at which they run, in the order the
  single worker runs them; the clock does not go back.
\<close>

type_synonym history = "(rat \<times> seat_op) list"

fun run_history ::
  "(rat \<Rightarrow> seat_op \<Rightarrow> 's \<Rightarrow> 'r \<times> 's) \<Rightarrow> history \<Rightarrow> 's \<Rightarrow> 'r list \<times> 's" where
  "run_history f [] s = ([], s)"
| "run_history f ((now, oper) # h) s =
     (case f now oper s of (r, s1) \<Rightarrow>
        (case run_history f h s1 of (rs, s2) \<Rightarrow> (r # rs, s2)))"

fun timed :: "rat \<Rightarrow> history \<Rightarrow> bool" where
  "timed t [] = True"
| "timed t ((now, oper) # h) = (t \<le> now \<and> timed now h)"

fun end_time :: "rat \<Rightarrow> history \<Rightarrow> rat" where
  "end_time t [] = t"
| "end_time t ((now, oper) # h) = end_time now h"

definition abs_step :: "rat \<Rightarrow> seat_op \<Rightarrow> seat \<Rightarrow> (py_error + bool \<times> SeatStatus) \<times> seat" where
  "abs_step now oper a = abs_seat_op now oper (age now a)"

definition history_wf :: "history \<Rightarrow> bool" where
  "history_wf h \<longleftrightarrow> (\<forall>x\<in>set h. op_wf (snd x))"

fun op_user :: "seat_op \<Rightarrow> ustr option" where
  "op_user (OpReserve u h) = Some u"
| "op_user (OpConfirm u) = Some u"
| "op_user (OpForce u) = Some u"
| "op_user (OpRelease u) = Some u"
| "op_user OpStatus = None"

fun is_force :: "seat_op \<Rightarrow> bool" where
  "is_force (OpForce u) = True"
| "is_force _ = False"

definition succeeded :: "py_error + bool \<times> SeatStatus \<Rightarrow> bool" where
  "succeeded r \<longleftrightarrow> (case r of Inl e \<Rightarrow> False | Inr (b, st) \<Rightarrow> b)"

lemma succeeded_simps [simp]: "succeeded (Inl e) = False" "succeeded (Inr (b, st)) = b"
  by (simp_all add: succeeded_def)

text \<open>Histories that leave an abstract seat as it is.\<close>

lemma abs_history_confirmed:
  "\<forall>x\<in>set h. \<not> is_force (snd x) \<Longrightarrow> snd (run_history abs_step h (Confirmed u)) = Confirmed u"
proof (induction h)
  case (Cons x h)
  obtain now oper where x: "x = (now, oper)" by (cases x)
  have "snd (abs_step now oper (Confirmed u)) = Confirmed u"
    using Cons.prems x by (cases oper) (auto simp: abs_step_def)
  with Cons x show ?case by (auto split: prod.split)
qed simp

lemma abs_history_confirmed_results:
  "\<forall>x\<in>set h. op_user (snd x) \<noteq> Some u \<and> snd x \<noteq> OpStatus \<and> \<not> is_force (snd x) \<Longrightarrow>
     \<forall>r\<in>set (fst (run_history abs_step h (Confirmed u))). \<not> succeeded r"
proof (induction h)
  case (Cons x h)
  obtain now oper where x: "x = (now, oper)" by (cases x)
  have "snd (abs_step now oper (Confirmed u)) = Confirmed u"
    "\<not> succeeded (fst (abs_step now oper (Confirmed u)))"
    using Cons.prems x by (cases oper; simp add: abs_step_def)+
  with Cons x show ?case by (auto split: prod.split)
qed simp

lemma abs_history_held:
  "\<forall>x\<in>set h. op_user (snd x) \<noteq> Some u \<and> snd x \<noteq> OpStatus \<and> \<not> is_force (snd x) \<and> fst x < d \<Longrightarrow>
     snd (run_history abs_step h (Held u d)) = Held u d \<and>
     (\<forall>r\<in>set (fst (run_history abs_step h (Held u d))). \<not> succeeded r)"
proof (induction h)
  case (Cons x h)
  obtain now oper where x: "x = (now, oper)" by (cases x)
  have "snd (abs_step now oper (Held u d)) = Held u d"
    "\<not> succeeded (fst (abs_step now oper (Held u d)))"
    using Cons.prems x by (cases oper; auto simp: abs_step_def is_expired_def)+
  with Cons x show ?case by (auto split: prod.split)
qed simp

subsection \<open>The interface of a seat service\<close>

locale seat_machine =
  fixes run_op :: "rat \<Rightarrow> seat_op \<Rightarrow> 's \<Rightarrow> (py_error + bool \<times> SeatStatus) \<times> 's"
    and rep :: "rat \<Rightarrow> 's \<Rightarrow> seat \<Rightarrow> bool"
  assumes rep_later: "rep now s a \<Longrightarrow> now \<le> now' \<Longrightarrow> rep now' s a"
    and run_result: "rep now s a \<Longrightarrow> op_wf oper \<Longrightarrow>
      fst (run_op now oper s) = fst (abs_step now oper a)"
    and run_rep: "rep now s a \<Longrightarrow> op_wf oper \<Longrightarrow>
      rep now (snd (run_op now oper s)) (snd (abs_step now oper a))"
begin

lemma history_sim:
  "rep t s a \<Longrightarrow> timed t h \<Longrightarrow> history_wf h \<Longrightarrow>
     fst (run_history run_op h s) = fst (run_history abs_step h a) \<and>
     rep (end_time t h) (snd (run_history run_op h s)) (snd (run_history abs_step h a))"
proof (induction h arbitrary: t s a)
  case (Cons x h)
  obtain now oper where x: "x = (now, oper)" by (cases x)
  have rep: "rep now s a" using Cons.prems x by (auto intro: rep_later)
  have wf: "op_wf oper" "history_wf h" using Cons.prems x by (auto simp: history_wf_def)
  obtain r s1 where f: "run_op now oper s = (r, s1)" by (cases "run_op now oper s")
  obtain r' a1 where g: "abs_step now oper a = (r', a1)" by (cases "abs_step now oper a")
  have "r = r'" "rep now s1 a1"
    using run_result [OF rep wf(1)] run_rep [OF rep wf(1)] f g by simp_all
  with Cons.IH [of now s1 a1] Cons.prems x wf f g show ?case
    by (auto split: prod.split)
qed simp

lemma confirmed_for_good:
  assumes "rep t s (Confirmed u)" and "timed t h" and "history_wf h"
    and "\<forall>x\<in>set h. \<not> is_force (snd x)"
  shows "rep (end_time t h) (snd (run_history run_op h s)) (Confirmed u)"
  using history_sim [OF assms(1-3)] abs_history_confirmed [OF assms(4)] by simp

lemma held_exclusively:
  assumes "rep t s (Held u d)" and "timed t h" and "history_wf h"
    and "\<forall>x\<in>set h. op_user (snd x) \<noteq> Some u \<and> snd x \<noteq> OpStatus \<and> \<not> is_force (snd x) \<and> fst x < d"
  shows "\<forall>r\<in>set (fst (run_history run_op h s)). \<not> succeeded r"
    and "rep (end_time t h) (snd (run_history run_op h s)) (Held u d)"
  using history_sim [OF assms(1-3)] abs_history_held [OF assms(4)] by simp_all

end

interpretation engine_seat: seat_machine "engine_seat_op ev st" "seat_rep ev st"
proof unfold_locales
  fix now now' s a oper
  show "seat_rep ev st now s a \<Longrightarrow> now \<le> now' \<Longrightarrow> seat_rep ev st now' s a"
    by (rule seat_rep_later)
  show "seat_rep ev st now s a \<Longrightarrow> op_wf oper \<Longrightarrow>
      fst (engine_seat_op ev st now oper s) = fst (abs_step now oper a)"
    using seat_op_sim by (simp add: seat_sim_def abs_step_def)
  show "seat_rep ev st now s a \<Longrightarrow> op_wf oper \<Longrightarrow>
      seat_rep ev st now (snd (engine_seat_op ev st now oper s)) (snd (abs_step now oper a))"
    using seat_op_sim by (simp add: seat_sim_def abs_step_def)
qed

subsection \<open>Keys\<close>

lemma split_at_colon:
  "a @ 58 # b = c @ 58 # d \<Longrightarrow> 58 \<notin> set a \<Longrightarrow> 58 \<notin> set c \<Longrightarrow> a = c \<and> b = (d :: nat list)"
proof (induction a arbitrary: c)
  case Nil
  then show ?case by (cases c) auto
next
  case (Cons x a)
  then show ?case by (cases c) auto
qed

lemma seat_key_expand: "seat_key ev st = lit ''seat:'' @ ev @ 58 # st"
  by (simp add: seat_key_def lit_Cons)

lemma seat_key_not_queue_key: "seat_key ev st \<noteq> queue_key ev'"
  by (simp add: seat_key_def queue_key_def lit_Cons)

end
