(* ===== verification/Storage_Queues.thy ===== *)
theory Storage_Queues
  imports Storage_Live
begin

section \<open>Queues: an abstract waiting line and its refinement\<close>

text \<open>
  A waiting queue is a list of distinct users. The interface \<open>waiting_line\<close> says what the
  five queue operations do to it; the engine implements it on the JSON array under the
  event's key (\<open>engine_queue\<close>), whatever else the store holds.
\<close>

subsection \<open>Queues as text\<close>

definition queue_ok :: "ustr list \<Rightarrow> bool" where
  "queue_ok q \<longleftrightarrow> (\<forall>u\<in>set q. list_all scalar u)"

definition read_queue :: "ustr \<Rightarrow> ustr list option" where
  "read_queue t = (case deserialize_queue t of Inl e \<Rightarrow> None | Inr q \<Rightarrow> Some q)"

lemma deserialize_serialize_queue:
  assumes "queue_ok q"
  shows "deserialize_queue (serialize_queue q) = Inr q"
proof -
  have "json_loads (serialize_queue q) = Some (JArr (map JStr q))"
    unfolding serialize_queue_def
    using assms by (intro json_loads_dumps) (auto simp: queue_ok_def)
  then show ?thesis by (auto simp: deserialize_queue_def o_def)
qed

interpretation queue_text: codec serialize_queue read_queue queue_ok
  by unfold_locales (simp add: read_queue_def deserialize_serialize_queue)

lemma load_store_queue:
  "queue_ok q \<Longrightarrow> load_queue k (store_queue k q s) = Inr q"
  by (simp add: load_queue_def store_queue_def dict_simps deserialize_serialize_queue)

lemma load_store_queue_other:
  "k' \<noteq> k \<Longrightarrow> lookup_key (store_queue k q s) k' = lookup_key s k'"
  by (simp add: store_queue_def dict_simps)

lemma engine_ok_store_queue [simp, intro]: "engine_ok s \<Longrightarrow> engine_ok (store_queue k q s)"
  by (simp add: store_queue_def)

subsection \<open>Positions\<close>

lemma index_of_less: "x \<in> set xs \<Longrightarrow> index_of x xs < length xs"
  unfolding index_of_def by (induction xs) auto

lemma nth_index_of: "x \<in> set xs \<Longrightarrow> xs ! index_of x xs = x"
  unfolding index_of_def by (induction xs) auto

lemma index_of_append_new: "x \<notin> set xs \<Longrightarrow> index_of x (xs @ [x]) = length xs"
  unfolding index_of_def by (induction xs) auto

lemma index_of_nth: "distinct xs \<Longrightarrow> i < length xs \<Longrightarrow> index_of (xs ! i) xs = i"
proof (induction xs arbitrary: i)
  case (Cons x xs)
  then show ?case by (cases i) (auto simp: index_of_def)
qed simp

lemma int_length_remove1: "x \<in> set xs \<Longrightarrow> int (length (remove1 x xs)) = int (length xs) - 1"
  by (induction xs) auto

lemma remove1_changes: "x \<in> set xs \<Longrightarrow> remove1 x xs \<noteq> xs"
  by (metis int_length_remove1 diff_less_eq less_add_one order_less_irrefl)

subsection \<open>The abstract waiting line\<close>

datatype queue_op = QJoin ustr | QPosition ustr | QPop | QLeave ustr | QPeek

datatype queue_result =
    RFlag bool int int
  | RPlace int int
  | RFront "ustr option" int

fun abs_queue_op :: "queue_op \<Rightarrow> ustr list \<Rightarrow> queue_result \<times> ustr list" where
  "abs_queue_op (QJoin u) q =
     (if u \<in> set q then (RFlag False (int (index_of u q) + 1) (int (length q)), q)
      else (RFlag True (int (length q) + 1) (int (length q) + 1), q @ [u]))"
| "abs_queue_op (QPosition u) q =
     (if u \<in> set q then RPlace (int (index_of u q) + 1) (int (length q))
      else RPlace (- 1) (int (length q)), q)"
| "abs_queue_op QPop [] = (RFront None 0, [])"
| "abs_queue_op QPop (u # q) = (RFront (Some u) (int (length q)), q)"
| "abs_queue_op (QLeave u) q =
     (if u \<in> set q
      then (RFlag True (int (index_of u q) + 1) (int (length q) - 1), remove1 u q)
      else (RFlag False (- 1) (int (length q)), q))"
| "abs_queue_op QPeek q =
     (case q of [] \<Rightarrow> RFront None 0 | u # _ \<Rightarrow> RFront (Some u) (int (length q)), q)"

fun queue_op_ok :: "queue_op \<Rightarrow> bool" where
  "queue_op_ok (QJoin u) = list_all scalar u"
| "queue_op_ok _ = True"

fun engine_queue_op :: "ustr \<Rightarrow> queue_op \<Rightarrow> (StorageEngine, queue_result) op" where
  "engine_queue_op ev (QJoin u) s =
     (case join_queue ev u s of
        (Inl e, s1) \<Rightarrow> (Inl e, s1) | (Inr (b, p, n), s1) \<Rightarrow> (Inr (RFlag b p n), s1))"
| "engine_queue_op ev (QPosition u) s =
     (case queue_position ev u s of
        (Inl e, s1) \<Rightarrow> (Inl e, s1) | (Inr (p, n), s1) \<Rightarrow> (Inr (RPlace p n), s1))"
| "engine_queue_op ev QPop s =
     (case pop_queue ev s of
        (Inl e, s1) \<Rightarrow> (Inl e, s1) | (Inr (u, n), s1) \<Rightarrow> (Inr (RFront u n), s1))"
| "engine_queue_op ev (QLeave u) s =
     (case leave_queue ev u s of
        (Inl e, s1) \<Rightarrow> (Inl e, s1) | (Inr (b, p, n), s1) \<Rightarrow> (Inr (RFlag b p n), s1))"
| "engine_queue_op ev QPeek s =
     (case peek_queue ev s of
        (Inl e, s1) \<Rightarrow> (Inl e, s1) | (Inr (u, n), s1) \<Rightarrow> (Inr (RFront u n), s1))"

definition queue_rep :: "ustr \<Rightarrow> StorageEngine \<Rightarrow> ustr list \<Rightarrow> bool" where
  "queue_rep ev s q \<longleftrightarrow> load_queue (queue_key ev) s = Inr q \<and> queue_ok q \<and> distinct q"

fun run_queue :: "(queue_op \<Rightarrow> 's \<Rightarrow> 'r \<times> 's) \<Rightarrow> queue_op list \<Rightarrow> 's \<Rightarrow> 'r list \<times> 's" where
  "run_queue f [] s = ([], s)"
| "run_queue f (oper # ops) s =
     (case f oper s of (r, s1) \<Rightarrow> (case run_queue f ops s1 of (rs, s2) \<Rightarrow> (r # rs, s2)))"

lemma run_queue_append:
  "run_queue f (xs @ ys) s =
     (case run_queue f xs s of (rs, s1) \<Rightarrow>
        (case run_queue f ys s1 of (rs', s2) \<Rightarrow> (rs @ rs', s2)))"
  by (induction xs arbitrary: s) (simp_all split: prod.split)

lemma abs_queue_keeps:
  "queue_ok q \<Longrightarrow> distinct q \<Longrightarrow> queue_op_ok oper \<Longrightarrow>
     queue_ok (snd (abs_queue_op oper q)) \<and> distinct (snd (abs_queue_op oper q))"
  by (cases oper; cases q) (auto simp: queue_ok_def dest: notin_set_remove1 set_remove1_subset [THEN subsetD])

text \<open>
  First in, first out: users who join an empty line one after the other leave it in the
  same order.
\<close>

lemma abs_join_all:
  "distinct (q @ us) \<Longrightarrow>
     run_queue abs_queue_op (map QJoin us) q =
       (map (\<lambda>i. RFlag True (int (length q + i) + 1) (int (length q + i) + 1)) [0..<length us], q @ us)"
proof (induction us arbitrary: q)
  case (Cons u us)
  have IH: "run_queue abs_queue_op (map QJoin us) (q @ [u]) =
       (map (\<lambda>i. RFlag True (int (length (q @ [u]) + i) + 1) (int (length (q @ [u]) + i) + 1))
          [0..<length us], (q @ [u]) @ us)"
    using Cons.prems by (intro Cons.IH) simp
  have "map (\<lambda>i. RFlag True (int (length q + i) + 1) (int (length q + i) + 1)) [0..<length (u # us)] =
      RFlag True (int (length q) + 1) (int (length q) + 1) #
      map (\<lambda>i. RFlag True (int (length (q @ [u]) + i) + 1) (int (length (q @ [u]) + i) + 1))
        [0..<length us]"
    by (simp add: upt_conv_Cons map_Suc_upt [symmetric] del: upt_Suc)
  with IH Cons.prems show ?case by simp
qed simp

lemma abs_pop_all:
  "run_queue abs_queue_op (replicate (length q) QPop) q =
     (map (\<lambda>i. RFront (Some (q ! i)) (int (length q - 1 - i))) [0..<length q], [])"
proof (induction q)
  case (Cons u q)
  have "map (\<lambda>i. RFront (Some ((u # q) ! i)) (int (length (u # q) - 1 - i))) [0..<length (u # q)] =
      RFront (Some u) (int (length q)) #
      map (\<lambda>i. RFront (Some (q ! i)) (int (length q - 1 - i))) [0..<length q]"
    by (simp add: upt_conv_Cons map_Suc_upt [symmetric] del: upt_Suc)
  with Cons show ?case by simp
qed simp

subsection \<open>The interface of a waiting line\<close>

locale waiting_line =
  fixes run_op :: "queue_op \<Rightarrow> 's \<Rightarrow> (py_error + queue_result) \<times> 's"
    and rep :: "'s \<Rightarrow> ustr list \<Rightarrow> bool"
  assumes rep_ok: "rep s q \<Longrightarrow> queue_ok q \<and> distinct q"
    and run_result: "rep s q \<Longrightarrow> queue_op_ok oper \<Longrightarrow>
      fst (run_op oper s) = Inr (fst (abs_queue_op oper q))"
    and run_rep: "rep s q \<Longrightarrow> queue_op_ok oper \<Longrightarrow>
      rep (snd (run_op oper s)) (snd (abs_queue_op oper q))"
begin

lemma line_sim:
  "rep s q \<Longrightarrow> \<forall>oper\<in>set ops. queue_op_ok oper \<Longrightarrow>
     fst (run_queue run_op ops s) = map Inr (fst (run_queue abs_queue_op ops q)) \<and>
     rep (snd (run_queue run_op ops s)) (snd (run_queue abs_queue_op ops q))"
proof (induction ops arbitrary: s q)
  case (Cons oper ops)
  obtain r s1 where f: "run_op oper s = (r, s1)" by (cases "run_op oper s")
  obtain r' q1 where g: "abs_queue_op oper q = (r', q1)" by (cases "abs_queue_op oper q")
  have "r = Inr r'" "rep s1 q1"
    using run_result [of s q oper] run_rep [of s q oper] Cons.prems f g by simp_all
  with Cons.IH [of s1 q1] Cons.prems f g show ?case by (auto split: prod.split)
qed simp

lemma fifo:
  assumes "rep s []" and "distinct us" and "\<forall>u\<in>set us. list_all scalar u"
  shows "fst (run_queue run_op (map QJoin us @ replicate (length us) QPop) s) =
      map (\<lambda>i. Inr (RFlag True (int i + 1) (int i + 1))) [0..<length us] @
      map (\<lambda>i. Inr (RFront (Some (us ! i)) (int (length us - 1 - i)))) [0..<length us]"
    and "rep (snd (run_queue run_op (map QJoin us @ replicate (length us) QPop) s)) []"
proof -
  let ?ops = "map QJoin us @ replicate (length us) QPop"
  have "run_queue abs_queue_op ?ops [] =
      (map (\<lambda>i. RFlag True (int i + 1) (int i + 1)) [0..<length us] @
       map (\<lambda>i. RFront (Some (us ! i)) (int (length us - 1 - i))) [0..<length us], [])"
    using abs_join_all [of "[]" us] assms(2) by (simp add: run_queue_append abs_pop_all)
  moreover have "\<forall>oper\<in>set ?ops. queue_op_ok oper" using assms(3) by auto
  ultimately show "fst (run_queue run_op ?ops s) =
      map (\<lambda>i. Inr (RFlag True (int i + 1) (int i + 1))) [0..<length us] @
      map (\<lambda>i. Inr (RFront (Some (us ! i)) (int (length us - 1 - i)))) [0..<length us]"
    and "rep (snd (run_queue run_op ?ops s)) []"
    using line_sim [OF assms(1), of ?ops] by (simp_all add: o_def)
qed

end

subsection \<open>The engine implements it\<close>

lemmas queue_ops = join_queue_def queue_position_def pop_queue_def leave_queue_def peek_queue_def

lemma engine_queue_result:
  assumes "queue_rep ev s q" and "queue_op_ok oper"
  shows "fst (engine_queue_op ev oper s) = Inr (fst (abs_queue_op oper q))"
proof (cases oper)
  case QPop
  with assms show ?thesis by (cases q) (auto simp: queue_rep_def queue_ops Let_def)
next
  case QPeek
  with assms show ?thesis by (cases q) (auto simp: queue_rep_def queue_ops Let_def)
qed (use assms in \<open>auto simp: queue_rep_def queue_ops Let_def int_length_remove1\<close>)

lemma engine_queue_store:
  assumes "queue_rep ev s q"
  shows "snd (engine_queue_op ev oper s) =
     (if snd (abs_queue_op oper q) = q then s
      else store_queue (queue_key ev) (snd (abs_queue_op oper q)) s)"
proof (cases oper)
  case QPop
  with assms show ?thesis by (cases q) (auto simp: queue_rep_def queue_ops Let_def)
next
  case QPeek
  with assms show ?thesis by (cases q) (auto simp: queue_rep_def queue_ops Let_def)
qed (use assms in \<open>auto simp: queue_rep_def queue_ops Let_def remove1_changes\<close>)

lemma engine_queue_rep:
  assumes "queue_rep ev s q" and "queue_op_ok oper"
  shows "queue_rep ev (snd (engine_queue_op ev oper s)) (snd (abs_queue_op oper q))"
proof -
  have k: "queue_ok (snd (abs_queue_op oper q))" "distinct (snd (abs_queue_op oper q))"
    using abs_queue_keeps [of q oper] assms by (auto simp: queue_rep_def)
  show ?thesis
    unfolding engine_queue_store [OF assms(1)]
    using assms k by (auto simp: queue_rep_def load_store_queue)
qed

interpretation engine_queue: waiting_line "engine_queue_op ev" "queue_rep ev"
proof unfold_locales
  fix s q oper
  show "queue_rep ev s q \<Longrightarrow> queue_ok q \<and> distinct q" by (simp add: queue_rep_def)
qed (rule engine_queue_result engine_queue_rep; assumption)+

end
