(* ===== verification/Commands.thy ===== *)
theory Commands
  imports Storage_Seats Storage_Queues
begin

section \<open>The command layer (\<open>commands/registry.py\<close>, \<open>commands/handler.py\<close>)\<close>

text \<open>
  A command is a list of strings: its name, in any case, and its arguments. The handler
  checks the name and the number of arguments, parses the numeric ones, calls the storage
  engine and shapes the result as a scalar or a list of scalars. Every \<open>raise\<close> is an
  \<open>Inl\<close>; the store that an exception leaves behind is part of the result.
\<close>

subsection \<open>Results and registry\<close>

datatype resp_scalar = SStr ustr | SInt int | SNone

datatype command_result = Scalar resp_scalar | Items "resp_scalar list"

definition COMMAND_ARITY :: "(string \<times> nat \<times> nat) list" where
  "COMMAND_ARITY =
     [(''SET'', 3, 3), (''GET'', 2, 2), (''DEL'', 2, 2), (''EXPIRE'', 3, 4), (''TTL'', 2, 2),
      (''RESERVE_SEAT'', 5, 5), (''CONFIRM_SEAT'', 4, 4), (''FORCE_CONFIRM_SEAT'', 4, 4),
      (''RELEASE_SEAT'', 4, 4), (''SEAT_STATUS'', 3, 3), (''JOIN_QUEUE'', 3, 3),
      (''QUEUE_POSITION'', 3, 3), (''POP_QUEUE'', 2, 2), (''LEAVE_QUEUE'', 3, 3),
      (''PEEK_QUEUE'', 2, 2)]"

definition SUPPORTED_COMMANDS :: "ustr list" where
  "SUPPORTED_COMMANDS =
     [lit ''SET'', lit ''GET'', lit ''DEL'', lit ''EXPIRE'', lit ''TTL'', lit ''RESERVE_SEAT'',
      lit ''CONFIRM_SEAT'', lit ''FORCE_CONFIRM_SEAT'', lit ''RELEASE_SEAT'', lit ''SEAT_STATUS'',
      lit ''JOIN_QUEUE'', lit ''QUEUE_POSITION'', lit ''POP_QUEUE'', lit ''LEAVE_QUEUE'',
      lit ''PEEK_QUEUE'']"

definition command_arity :: "ustr \<Rightarrow> (nat \<times> nat) option" where
  "command_arity name = map_of (map (\<lambda>(n, a). (lit n, a)) COMMAND_ARITY) name"

definition quoted :: "ustr \<Rightarrow> ustr" where
  "quoted s = 39 # s @ [39]"

definition validate_command :: "ustr list \<Rightarrow> py_error + ustr \<times> ustr list" where
  "validate_command command =
     (if command = [] \<or> hd command = [] then Inl (CommandError (lit ''empty command''))
      else
        (let name = py_upper (hd command)
         in if name \<notin> set SUPPORTED_COMMANDS
            then Inl (UnknownCommandError (lit ''unknown command '' @ quoted name))
            else
              (case command_arity name of
                 None \<Rightarrow> Inl (UnknownCommandError (lit ''unknown command '' @ quoted name))
               | Some (lo, hi) \<Rightarrow>
                   if \<not> (lo \<le> length command \<and> length command \<le> hi)
                   then Inl (WrongNumberOfArgumentsError
                     (lit ''wrong number of arguments for '' @ quoted name @ lit '' command''))
                   else Inr (name, tl command))))"

text \<open>
  Unpacking a list into variables raises \<open>ValueError\<close> when the lengths differ. The arity
  check rules it out.
\<close>

definition unpack_error :: py_error where
  "unpack_error = ValueError (lit ''wrong number of values to unpack'')"

definition EXPIRE_OPTIONS :: "ustr list" where
  "EXPIRE_OPTIONS = [lit ''NX'', lit ''XX'', lit ''GT'', lit ''LT'']"

definition parse_expire_arguments :: "ustr list \<Rightarrow> py_error + ustr \<times> int \<times> ustr option" where
  "parse_expire_arguments args =
     (case args of
        key # raw_seconds # rest \<Rightarrow>
          (case py_int raw_seconds of
             None \<Rightarrow> Inl (CommandError (lit ''EXPIRE seconds must be an integer''))
           | Some seconds \<Rightarrow>
               (case rest of
                  [] \<Rightarrow> Inr (key, seconds, None)
                | opt # _ \<Rightarrow>
                    if py_upper opt \<notin> set EXPIRE_OPTIONS
                    then Inl (CommandError (lit ''unsupported EXPIRE option '' @ quoted opt))
                    else Inr (key, seconds, Some (py_upper opt))))
      | _ \<Rightarrow> Inl unpack_error)"

definition parse_reserve_arguments ::
  "ustr list \<Rightarrow> py_error + ustr \<times> ustr \<times> ustr \<times> int" where
  "parse_reserve_arguments args =
     (case args of
        [event_id, seat_id, user, raw_hold_seconds] \<Rightarrow>
          (case py_int raw_hold_seconds of
             None \<Rightarrow> Inl (CommandError (lit ''RESERVE_SEAT ttl_seconds must be an integer''))
           | Some hold_seconds \<Rightarrow>
               if hold_seconds \<le> 0
               then Inl (CommandError (lit ''RESERVE_SEAT ttl_seconds must be a positive integer''))
               else Inr (event_id, seat_id, user, hold_seconds))
      | _ \<Rightarrow> Inl unpack_error)"

subsection \<open>Shapes of results\<close>

definition opt_str :: "ustr option \<Rightarrow> resp_scalar" where
  "opt_str u = (case u of None \<Rightarrow> SNone | Some s \<Rightarrow> SStr s)"

definition flag :: "bool \<Rightarrow> resp_scalar" where
  "flag b = SInt (if b then 1 else 0)"

definition seat_operation_result :: "bool \<times> SeatStatus \<Rightarrow> command_result" where
  "seat_operation_result r =
     Items [flag (fst r), SStr (seat_state (snd r)), opt_str (seat_user_id (snd r)),
       SInt (seat_ttl (snd r))]"

definition seat_status_result :: "SeatStatus \<Rightarrow> command_result" where
  "seat_status_result st = Items [SStr (seat_state st), opt_str (seat_user_id st), SInt (seat_ttl st)]"

definition queue_join_result :: "bool \<times> int \<times> int \<Rightarrow> command_result" where
  "queue_join_result r = (case r of (joined, position, len) \<Rightarrow> Items [flag joined, SInt position, SInt len])"

definition queue_position_result :: "int \<times> int \<Rightarrow> command_result" where
  "queue_position_result r = (case r of (position, len) \<Rightarrow> Items [SInt position, SInt len])"

definition queue_pop_result :: "ustr option \<times> int \<Rightarrow> command_result" where
  "queue_pop_result r = (case r of (user, len) \<Rightarrow> Items [opt_str user, SInt len])"

definition queue_leave_result :: "bool \<times> int \<times> int \<Rightarrow> command_result" where
  "queue_leave_result r = (case r of (removed, position, len) \<Rightarrow> Items [flag removed, SInt position, SInt len])"

definition answer :: "('a \<Rightarrow> command_result) \<Rightarrow> (py_error + 'a) \<times> StorageEngine \<Rightarrow>
    (py_error + command_result) \<times> StorageEngine" where
  "answer f r = (case fst r of Inl e \<Rightarrow> Inl e | Inr v \<Rightarrow> Inr (f v), snd r)"

subsection \<open>Dispatch\<close>

definition handle_command :: "rat \<Rightarrow> ustr list \<Rightarrow> (StorageEngine, command_result) op" where
  "handle_command now command s =
     (case validate_command command of
        Inl e \<Rightarrow> (Inl e, s)
      | Inr (name, args) \<Rightarrow>
          if name = lit ''SET'' then
            (case args of
               [key, val] \<Rightarrow> (Inr (Scalar (SStr (lit ''OK''))), eng_set key val s)
             | _ \<Rightarrow> (Inl unpack_error, s))
          else if name = lit ''GET'' then
            (case args of
               key # _ \<Rightarrow>
                 (case eng_get now key s of (v, s1) \<Rightarrow> (Inr (Scalar (opt_str v)), s1))
             | [] \<Rightarrow> (Inl unpack_error, s))
          else if name = lit ''DEL'' then
            (case args of
               key # _ \<Rightarrow>
                 (case eng_delete now key s of (b, s1) \<Rightarrow> (Inr (Scalar (flag b)), s1))
             | [] \<Rightarrow> (Inl unpack_error, s))
          else if name = lit ''EXPIRE'' then
            (case parse_expire_arguments args of
               Inl e \<Rightarrow> (Inl e, s)
             | Inr (key, seconds, opt) \<Rightarrow>
                 answer (\<lambda>b. Scalar (flag b)) (eng_expire now key seconds opt s))
          else if name = lit ''TTL'' then
            (case args of
               key # _ \<Rightarrow>
                 (case eng_ttl now key s of (t, s1) \<Rightarrow> (Inr (Scalar (SInt t)), s1))
             | [] \<Rightarrow> (Inl unpack_error, s))
          else if name = lit ''RESERVE_SEAT'' then
            (case parse_reserve_arguments args of
               Inl e \<Rightarrow> (Inl e, s)
             | Inr (event_id, seat_id, user, hold_seconds) \<Rightarrow>
                 answer seat_operation_result (reserve_seat now event_id seat_id user hold_seconds s))
          else if name = lit ''CONFIRM_SEAT'' then
            (case args of
               [event_id, seat_id, user] \<Rightarrow>
                 answer seat_operation_result (confirm_seat now event_id seat_id user s)
             | _ \<Rightarrow> (Inl unpack_error, s))
          else if name = lit ''FORCE_CONFIRM_SEAT'' then
            (case args of
               [event_id, seat_id, user] \<Rightarrow>
                 answer seat_operation_result (force_confirm_seat event_id seat_id user s)
             | _ \<Rightarrow> (Inl unpack_error, s))
          else if name = lit ''RELEASE_SEAT'' then
            (case args of
               [event_id, seat_id, user] \<Rightarrow>
                 answer seat_operation_result (release_seat now event_id seat_id user s)
             | _ \<Rightarrow> (Inl unpack_error, s))
          else if name = lit ''SEAT_STATUS'' then
            (case args of
               [event_id, seat_id] \<Rightarrow> answer seat_status_result (seat_status now event_id seat_id s)
             | _ \<Rightarrow> (Inl unpack_error, s))
          else if name = lit ''JOIN_QUEUE'' then
            (case args of
               [event_id, user] \<Rightarrow> answer queue_join_result (join_queue event_id user s)
             | _ \<Rightarrow> (Inl unpack_error, s))
          else if name = lit ''QUEUE_POSITION'' then
            (case args of
               [event_id, user] \<Rightarrow> answer queue_position_result (queue_position event_id user s)
             | _ \<Rightarrow> (Inl unpack_error, s))
          else if name = lit ''POP_QUEUE'' then
            (case args of
               event_id # _ \<Rightarrow> answer queue_pop_result (pop_queue event_id s)
             | [] \<Rightarrow> (Inl unpack_error, s))
          else if name = lit ''LEAVE_QUEUE'' then
            (case args of
               [event_id, user] \<Rightarrow> answer queue_leave_result (leave_queue event_id user s)
             | _ \<Rightarrow> (Inl unpack_error, s))
          else if name = lit ''PEEK_QUEUE'' then
            (case args of
               event_id # _ \<Rightarrow> answer queue_pop_result (peek_queue event_id s)
             | [] \<Rightarrow> (Inl unpack_error, s))
          else (Inl (UnknownCommandError (lit ''unknown command '' @ quoted name)), s))"

end
