(* ===== verification/Command_Laws.thy ===== *)
theory Command_Laws
  imports Commands
begin

section \<open>Laws of the command layer\<close>

text \<open>
  Facts about every command at once: the case analysis \<open>command_cases\<close> lists the
  accepted commands with their arguments, and the laws follow case by case from the engine's
  lemmas: which key a command may touch, that an exception leaves the live part as it was,
  and which shape of result each command returns.
\<close>

subsection \<open>Accepted commands\<close>

lemma validate_accepts:
  assumes "validate_command command = Inr (name, args)"
  shows "command \<noteq> []" and "name = py_upper (hd command)" and "args = tl command"
    and "\<exists>n lo hi. name = lit n \<and> (n, lo, hi) \<in> set COMMAND_ARITY \<and>
           lo \<le> Suc (length args) \<and> Suc (length args) \<le> hi"
proof -
  from assms obtain lo hi where ar: "command_arity name = Some (lo, hi)"
    and c: "command \<noteq> []" "name = py_upper (hd command)" "args = tl command"
    and len: "lo \<le> length command" "length command \<le> hi"
    by (auto simp: validate_command_def Let_def split: if_splits option.splits)
  show "command \<noteq> []" "name = py_upper (hd command)" "args = tl command" by (fact c)+
  from ar have "(name, lo, hi) \<in> set (map (\<lambda>(n, a). (lit n, a)) COMMAND_ARITY)"
    unfolding command_arity_def by (rule map_of_SomeD)
  then obtain n where "name = lit n" "(n, lo, hi) \<in> set COMMAND_ARITY" by auto
  moreover have "length command = Suc (length args)" using c by (cases command) auto
  ultimately show "\<exists>n lo hi. name = lit n \<and> (n, lo, hi) \<in> set COMMAND_ARITY \<and>
           lo \<le> Suc (length args) \<and> Suc (length args) \<le> hi" using len by auto
qed

lemma len1: "length xs = 1 \<Longrightarrow> \<exists>a. xs = [a]"
  by (cases xs) auto

lemma len2: "length xs = 2 \<Longrightarrow> \<exists>a b. xs = [a, b]"
  by (cases xs; cases "tl xs") auto

lemma len3: "length xs = 3 \<Longrightarrow> \<exists>a b c. xs = [a, b, c]"
  using len2 [of "tl xs"] by (cases xs) auto

lemma len4: "length xs = 4 \<Longrightarrow> \<exists>a b c d. xs = [a, b, c, d]"
  using len3 [of "tl xs"] by (cases xs) auto

lemma command_cases [consumes 1, case_names SET GET DEL EXPIRE EXPIRE_OPT TTL RESERVE CONFIRM
    FORCE RELEASE STATUS JOIN POSITION POP LEAVE PEEK]:
  assumes "validate_command command = Inr (name, args)"
  obtains k v where "name = lit ''SET''" "args = [k, v]"
  | k where "name = lit ''GET''" "args = [k]"
  | k where "name = lit ''DEL''" "args = [k]"
  | k r where "name = lit ''EXPIRE''" "args = [k, r]"
  | k r q where "name = lit ''EXPIRE''" "args = [k, r, q]"
  | k where "name = lit ''TTL''" "args = [k]"
  | e st u r where "name = lit ''RESERVE_SEAT''" "args = [e, st, u, r]"
  | e st u where "name = lit ''CONFIRM_SEAT''" "args = [e, st, u]"
  | e st u where "name = lit ''FORCE_CONFIRM_SEAT''" "args = [e, st, u]"
  | e st u where "name = lit ''RELEASE_SEAT''" "args = [e, st, u]"
  | e st where "name = lit ''SEAT_STATUS''" "args = [e, st]"
  | e u where "name = lit ''JOIN_QUEUE''" "args = [e, u]"
  | e u where "name = lit ''QUEUE_POSITION''" "args = [e, u]"
  | e where "name = lit ''POP_QUEUE''" "args = [e]"
  | e u where "name = lit ''LEAVE_QUEUE''" "args = [e, u]"
  | e where "name = lit ''PEEK_QUEUE''" "args = [e]"
proof -
  from validate_accepts(4) [OF assms] obtain n lo hi where name: "name = lit n"
    and mem: "(n, lo, hi) \<in> set COMMAND_ARITY"
    and len: "lo \<le> Suc (length args)" "Suc (length args) \<le> hi" by blast
  from mem show thesis
    unfolding COMMAND_ARITY_def list.set
  proof (elim insertE emptyE)
    assume c1: "(n, lo, hi) = (''SET'', 3, 3)"
    then have "length args = 2" using len by simp
    then show thesis using that(1) c1 name len2 [of args] by blast
  next
    assume c2: "(n, lo, hi) = (''GET'', 2, 2)"
    then have "length args = 1" using len by simp
    then show thesis using that(2) c2 name len1 [of args] by blast
  next
    assume c3: "(n, lo, hi) = (''DEL'', 2, 2)"
    then have "length args = 1" using len by simp
    then show thesis using that(3) c3 name len1 [of args] by blast
  next
    assume c4: "(n, lo, hi) = (''EXPIRE'', 3, 4)"
    then have "length args = 2 \<or> length args = 3" using len by auto
    then show thesis
      using that(4) that(5) c4 name len2 [of args] len3 [of args] by blast
  next
    assume c5: "(n, lo, hi) = (''TTL'', 2, 2)"
    then have "length args = 1" using len by simp
    then show thesis using that(6) c5 name len1 [of args] by blast
  next
    assume c6: "(n, lo, hi) = (''RESERVE_SEAT'', 5, 5)"
    then have "length args = 4" using len by simp
    then show thesis using that(7) c6 name len4 [of args] by blast
  next
    assume c7: "(n, lo, hi) = (''CONFIRM_SEAT'', 4, 4)"
    then have "length args = 3" using len by simp
    then show thesis using that(8) c7 name len3 [of args] by blast
  next
    assume c8: "(n, lo, hi) = (''FORCE_CONFIRM_SEAT'', 4, 4)"
    then have "length args = 3" using len by simp
    then show thesis using that(9) c8 name len3 [of args] by blast
  next
    assume c9: "(n, lo, hi) = (''RELEASE_SEAT'', 4, 4)"
    then have "length args = 3" using len by simp
    then show thesis using that(10) c9 name len3 [of args] by blast
  next
    assume c10: "(n, lo, hi) = (''SEAT_STATUS'', 3, 3)"
    then have "length args = 2" using len by simp
    then show thesis using that(11) c10 name len2 [of args] by blast
  next
    assume c11: "(n, lo, hi) = (''JOIN_QUEUE'', 3, 3)"
    then have "length args = 2" using len by simp
    then show thesis using that(12) c11 name len2 [of args] by blast
  next
    assume c12: "(n, lo, hi) = (''QUEUE_POSITION'', 3, 3)"
    then have "length args = 2" using len by simp
    then show thesis using that(13) c12 name len2 [of args] by blast
  next
    assume c13: "(n, lo, hi) = (''POP_QUEUE'', 2, 2)"
    then have "length args = 1" using len by simp
    then show thesis using that(14) c13 name len1 [of args] by blast
  next
    assume c14: "(n, lo, hi) = (''LEAVE_QUEUE'', 3, 3)"
    then have "length args = 2" using len by simp
    then show thesis using that(15) c14 name len2 [of args] by blast
  next
    assume c15: "(n, lo, hi) = (''PEEK_QUEUE'', 2, 2)"
    then have "length args = 1" using len by simp
    then show thesis using that(16) c15 name len1 [of args] by blast
  qed
qed

lemma handle_rejected: "validate_command c = Inl e \<Longrightarrow> handle_command now c s = (Inl e, s)"
  by (simp add: handle_command_def)

lemma handle_dispatch [op_simps]:
  "validate_command c = Inr (lit ''SET'', [k, v]) \<Longrightarrow>
     handle_command now c s = (Inr (Scalar (SStr (lit ''OK''))), eng_set k v s)"
  "validate_command c = Inr (lit ''GET'', [k]) \<Longrightarrow>
     handle_command now c s = (Inr (Scalar (opt_str (fst (eng_get now k s)))), snd (eng_get now k s))"
  "validate_command c = Inr (lit ''DEL'', [k]) \<Longrightarrow>
     handle_command now c s = (Inr (Scalar (flag (fst (eng_delete now k s)))), snd (eng_delete now k s))"
  "validate_command c = Inr (lit ''EXPIRE'', args) \<Longrightarrow>
     handle_command now c s =
       (case parse_expire_arguments args of
          Inl e \<Rightarrow> (Inl e, s)
        | Inr (key, seconds, opt) \<Rightarrow> answer (\<lambda>b. Scalar (flag b)) (eng_expire now key seconds opt s))"
  "validate_command c = Inr (lit ''TTL'', [k]) \<Longrightarrow>
     handle_command now c s = (Inr (Scalar (SInt (fst (eng_ttl now k s)))), snd (eng_ttl now k s))"
  "validate_command c = Inr (lit ''RESERVE_SEAT'', args) \<Longrightarrow>
     handle_command now c s =
       (case parse_reserve_arguments args of
          Inl e \<Rightarrow> (Inl e, s)
        | Inr (ev, st, u, h) \<Rightarrow> answer seat_operation_result (reserve_seat now ev st u h s))"
  "validate_command c = Inr (lit ''CONFIRM_SEAT'', [ev, st, u]) \<Longrightarrow>
     handle_command now c s = answer seat_operation_result (confirm_seat now ev st u s)"
  "validate_command c = Inr (lit ''FORCE_CONFIRM_SEAT'', [ev, st, u]) \<Longrightarrow>
     handle_command now c s = answer seat_operation_result (force_confirm_seat ev st u s)"
  "validate_command c = Inr (lit ''RELEASE_SEAT'', [ev, st, u]) \<Longrightarrow>
     handle_command now c s = answer seat_operation_result (release_seat now ev st u s)"
  "validate_command c = Inr (lit ''SEAT_STATUS'', [ev, st]) \<Longrightarrow>
     handle_command now c s = answer seat_status_result (seat_status now ev st s)"
  "validate_command c = Inr (lit ''JOIN_QUEUE'', [ev, u]) \<Longrightarrow>
     handle_command now c s = answer queue_join_result (join_queue ev u s)"
  "validate_command c = Inr (lit ''QUEUE_POSITION'', [ev, u]) \<Longrightarrow>
     handle_command now c s = answer queue_position_result (queue_position ev u s)"
  "validate_command c = Inr (lit ''POP_QUEUE'', [ev]) \<Longrightarrow>
     handle_command now c s = answer queue_pop_result (pop_queue ev s)"
  "validate_command c = Inr (lit ''LEAVE_QUEUE'', [ev, u]) \<Longrightarrow>
     handle_command now c s = answer queue_leave_result (leave_queue ev u s)"
  "validate_command c = Inr (lit ''PEEK_QUEUE'', [ev]) \<Longrightarrow>
     handle_command now c s = answer queue_pop_result (peek_queue ev s)"
  by (simp_all add: handle_command_def split: prod.split)

lemma answer_snd [simp]: "snd (answer f r) = snd r"
  by (simp add: answer_def)

lemma answer_Inl [simp]: "fst (answer f r) = Inl e \<longleftrightarrow> fst r = Inl e"
  by (simp add: answer_def split: sum.split)

lemma answer_Inr: "fst (answer f r) = Inr x \<longleftrightarrow> (\<exists>v. fst r = Inr v \<and> x = f v)"
  by (auto simp: answer_def split: sum.split)

subsection \<open>One key per command\<close>

definition touches_only :: "ustr \<Rightarrow> StorageEngine \<Rightarrow> StorageEngine \<Rightarrow> bool" where
  "touches_only k s s1 \<longleftrightarrow> (\<forall>k'. k' \<noteq> k \<longrightarrow> lookup_key s1 k' = lookup_key s k')"

lemma touches_refl [simp]: "touches_only k s s"
  by (simp add: touches_only_def)

lemma touches_store [simp, intro]: "touches_only k s s1 \<Longrightarrow> touches_only k s (store_key k e s1)"
  by (simp add: touches_only_def dict_simps)

lemma touches_delete [simp, intro]: "touches_only k s s1 \<Longrightarrow> touches_only k s (delete_key k s1)"
  by (simp add: touches_only_def dict_simps)

lemma touches_store_queue [simp, intro]: "touches_only k s s1 \<Longrightarrow> touches_only k s (store_queue k q s1)"
  by (simp add: store_queue_def)

lemma touches_purge: "purge_if_expired k now s = (b, s1) \<Longrightarrow> touches_only k s s1"
  by (auto simp: touches_only_def dest: purge_lookup(2))

lemma touches_status: "seat_status_by_key now k s = (r, s1) \<Longrightarrow> touches_only k s s1"
  by (auto simp: touches_only_def dest: seat_status_by_live(3))

lemmas touches_steps = touches_purge touches_status

lemma touches_kv:
  "touches_only k s (eng_set k v s)"
  "touches_only k s (snd (eng_get now k s))"
  "touches_only k s (snd (eng_delete now k s))"
  "touches_only k s (snd (eng_expire now k seconds opt s))"
  "touches_only k s (snd (eng_ttl now k s))"
  by (auto simp: eng_set_def eng_get_def eng_delete_def eng_expire_def eng_ttl_def Let_def
      split: option.split sum.split bool.split prod.split intro: touches_purge touches_purge [OF purge_snd])

lemma touches_seat:
  "touches_only (seat_key ev st) s (snd (reserve_seat now ev st u h s))"
  "touches_only (seat_key ev st) s (snd (confirm_seat now ev st u s))"
  "touches_only (seat_key ev st) s (snd (force_confirm_seat ev st u s))"
  "touches_only (seat_key ev st) s (snd (release_seat now ev st u s))"
  "touches_only (seat_key ev st) s (snd (seat_status now ev st s))"
  by (auto simp: reserve_seat_def confirm_seat_def force_confirm_seat_def release_seat_def
      seat_status_def Let_def split: sum.split prod.split intro: touches_status
      touches_status [OF prod.collapse [symmetric]])

lemma touches_queue:
  "touches_only (queue_key ev) s (snd (join_queue ev u s))"
  "touches_only (queue_key ev) s (snd (queue_position ev u s))"
  "touches_only (queue_key ev) s (snd (pop_queue ev s))"
  "touches_only (queue_key ev) s (snd (leave_queue ev u s))"
  "touches_only (queue_key ev) s (snd (peek_queue ev s))"
  by (auto simp: queue_ops Let_def split: sum.split list.split)

text \<open>The key a command works on.\<close>

definition command_key :: "ustr \<Rightarrow> ustr list \<Rightarrow> ustr" where
  "command_key name args =
     (if name \<in> set [lit ''SET'', lit ''GET'', lit ''DEL'', lit ''EXPIRE'', lit ''TTL'']
      then args ! 0
      else if name \<in> set [lit ''RESERVE_SEAT'', lit ''CONFIRM_SEAT'', lit ''FORCE_CONFIRM_SEAT'',
        lit ''RELEASE_SEAT'', lit ''SEAT_STATUS'']
      then seat_key (args ! 0) (args ! 1)
      else queue_key (args ! 0))"

lemma parse_expire_key: "parse_expire_arguments args = Inr (key, secs, opt) \<Longrightarrow> key = args ! 0"
  by (auto simp: parse_expire_arguments_def split: list.splits option.splits if_splits)

lemma parse_reserve_key:
  "parse_reserve_arguments args = Inr (ev, st, u, h) \<Longrightarrow> ev = args ! 0 \<and> st = args ! 1"
  by (auto simp: parse_reserve_arguments_def split: list.splits option.splits if_splits)

lemma handle_touches:
  assumes "validate_command c = Inr (name, args)"
  shows "touches_only (command_key name args) s (snd (handle_command now c s))"
  using assms
proof (cases rule: command_cases)
  case EXPIRE
  with assms show ?thesis
    by (auto simp: handle_dispatch(4) command_key_def touches_kv
        split: sum.split dest: parse_expire_key)
next
  case EXPIRE_OPT
  with assms show ?thesis
    by (auto simp: handle_dispatch(4) command_key_def touches_kv
        split: sum.split dest: parse_expire_key)
next
  case RESERVE
  with assms show ?thesis
    by (auto simp: handle_dispatch(6) command_key_def touches_seat
        split: sum.split dest!: parse_reserve_key)
qed (use assms in \<open>simp_all add: handle_dispatch command_key_def touches_kv touches_seat touches_queue\<close>)

subsection \<open>Exceptions leave the live part as it was\<close>

definition same_live :: "rat \<Rightarrow> StorageEngine \<Rightarrow> StorageEngine \<Rightarrow> bool" where
  "same_live now s s1 \<longleftrightarrow> (\<forall>t. now \<le> t \<longrightarrow> live t s1 = live t s)"

lemma same_live_refl [simp]: "same_live now s s"
  by (simp add: same_live_def)

lemma same_live_now: "same_live now s s1 \<longleftrightarrow> live now s1 = live now s"
proof
  assume "live now s1 = live now s"
  then have "live t s1 k = live t s k" if "now \<le> t" for t k
    by (simp add: live_later [OF that])
  then show "same_live now s s1" by (auto simp: same_live_def)
qed (simp add: same_live_def)

lemma same_live_purge: "purge_if_expired k now s = (b, s1) \<Longrightarrow> same_live now s s1"
  by (simp add: same_live_def purge_live)

lemma same_live_status: "seat_status_by_key now k s = (r, s1) \<Longrightarrow> same_live now s s1"
  by (simp add: same_live_def seat_status_by_live(4))

lemma error_same_live:
  "fst (eng_expire now k seconds opt s) = Inl e \<Longrightarrow> same_live now s (snd (eng_expire now k seconds opt s))"
  "fst (reserve_seat now ev st u h s) = Inl e \<Longrightarrow> same_live now s (snd (reserve_seat now ev st u h s))"
  "fst (confirm_seat now ev st u s) = Inl e \<Longrightarrow> same_live now s (snd (confirm_seat now ev st u s))"
  "fst (release_seat now ev st u s) = Inl e \<Longrightarrow> same_live now s (snd (release_seat now ev st u s))"
  "same_live now s (snd (seat_status now ev st s))"
  "fst (join_queue ev u s) = Inl e \<Longrightarrow> snd (join_queue ev u s) = s"
  "fst (pop_queue ev s) = Inl e \<Longrightarrow> snd (pop_queue ev s) = s"
  "fst (leave_queue ev u s) = Inl e \<Longrightarrow> snd (leave_queue ev u s) = s"
  "snd (queue_position ev u s) = s" "snd (peek_queue ev s) = s"
  by (auto simp: eng_expire_def reserve_seat_def confirm_seat_def release_seat_def seat_status_def
      queue_ops Let_def
      split: option.splits sum.splits bool.splits prod.splits if_splits list.splits
      intro: same_live_purge same_live_status same_live_status [OF prod.collapse [symmetric]])

lemma handle_error_same_live:
  assumes "fst (handle_command now c s) = Inl e"
  shows "same_live now s (snd (handle_command now c s))"
proof (cases "validate_command c")
  case (Inl err)
  then show ?thesis by (simp add: handle_rejected)
next
  case (Inr x)
  obtain name args where "x = (name, args)" by (cases x)
  with Inr have v: "validate_command c = Inr (name, args)" by simp
  then show ?thesis
  proof (cases rule: command_cases)
    case EXPIRE
    with v assms show ?thesis
      by (auto simp: handle_dispatch(4) intro: error_same_live split: sum.splits)
  next
    case EXPIRE_OPT
    with v assms show ?thesis
      by (auto simp: handle_dispatch(4) intro: error_same_live split: sum.splits)
  next
    case RESERVE
    with v assms show ?thesis
      by (auto simp: handle_dispatch(6) intro: error_same_live split: sum.splits)
  next
    case FORCE
    with v assms show ?thesis by (simp add: handle_dispatch force_confirm_seat_def)
  qed (use v assms in \<open>auto simp: handle_dispatch error_same_live intro: error_same_live\<close>)
qed

subsection \<open>The store is a dictionary\<close>

lemma ok_status: "seat_status_by_key now k s = (r, s1) \<Longrightarrow> engine_ok s \<Longrightarrow> engine_ok s1"
  by (rule seat_status_by_live(5))

lemma ok_purge: "purge_if_expired k now s = (b, s1) \<Longrightarrow> engine_ok s \<Longrightarrow> engine_ok s1"
  using purge_ok [of s k now] by simp

lemma ops_ok:
  assumes "engine_ok s"
  shows "engine_ok (eng_set k v s)"
    and "engine_ok (snd (eng_get now k s))"
    and "engine_ok (snd (eng_delete now k s))"
    and "engine_ok (snd (eng_expire now k seconds opt s))"
    and "engine_ok (snd (eng_ttl now k s))"
    and "engine_ok (snd (reserve_seat now ev st u h s))"
    and "engine_ok (snd (confirm_seat now ev st u s))"
    and "engine_ok (snd (force_confirm_seat ev st u s))"
    and "engine_ok (snd (release_seat now ev st u s))"
    and "engine_ok (snd (seat_status now ev st s))"
    and "engine_ok (snd (join_queue ev u s))"
    and "engine_ok (snd (pop_queue ev s))"
    and "engine_ok (snd (leave_queue ev u s))"
  using assms
  by (auto simp: eng_set_def eng_get_def eng_delete_def eng_expire_def eng_ttl_def
      reserve_seat_def confirm_seat_def force_confirm_seat_def release_seat_def seat_status_def
      queue_ops Let_def
      split: option.split sum.split bool.split prod.split list.split
      intro: ok_purge ok_status purge_ok ok_status [OF prod.collapse [symmetric]])

lemma handle_ok: "engine_ok s \<Longrightarrow> engine_ok (snd (handle_command now c s))"
proof (cases "validate_command c")
  case (Inl err)
  then show "engine_ok s \<Longrightarrow> ?thesis" by (simp add: handle_rejected)
next
  case (Inr x)
  obtain name args where "x = (name, args)" by (cases x)
  with Inr have v: "validate_command c = Inr (name, args)" by simp
  assume ok: "engine_ok s"
  from v show ?thesis
    by (cases rule: command_cases)
      (use v ok in \<open>auto simp: handle_dispatch ops_ok error_same_live split: sum.split\<close>)
qed

interpretation command_run: preserved "\<lambda>(now, c) s. snd (handle_command now c s)" engine_ok
  by unfold_locales (auto intro: handle_ok)

subsection \<open>Key and seat commands see only the live part\<close>

definition obs_eq :: "rat \<Rightarrow> ('r \<times> StorageEngine) \<Rightarrow> ('r \<times> StorageEngine) \<Rightarrow> bool" where
  "obs_eq now a b \<longleftrightarrow> fst a = fst b \<and> live now (snd a) = live now (snd b)"

lemma obs_kv:
  assumes "live now s = live now s'"
  shows "live now (eng_set k v s) = live now (eng_set k v s')"
    and "obs_eq now (eng_get now k s) (eng_get now k s')"
    and "obs_eq now (eng_delete now k s) (eng_delete now k s')"
    and "obs_eq now (eng_expire now k seconds opt s) (eng_expire now k seconds opt s')"
    and "obs_eq now (eng_ttl now k s) (eng_ttl now k s')"
proof -
  show "live now (eng_set k v s) = live now (eng_set k v s')"
    by (rule ext) (simp add: eng_set_def live_store assms)
qed (simp_all add: obs_eq_def get_by_live delete_by_live expire_by_live ttl_by_live assms
    split: sum.split)

lemma obs_seat:
  assumes l: "live now s = live now s'"
  shows "obs_eq now (reserve_seat now ev st u h s) (reserve_seat now ev st u h s')"
    and "obs_eq now (confirm_seat now ev st u s) (confirm_seat now ev st u s')"
    and "obs_eq now (force_confirm_seat ev st u s) (force_confirm_seat ev st u s')"
    and "obs_eq now (release_seat now ev st u s) (release_seat now ev st u s')"
    and "obs_eq now (seat_status now ev st s) (seat_status now ev st s')"
proof -
  obtain r s1 where q: "seat_status_by_key now (seat_key ev st) s = (r, s1)"
    by (rule status_expanded)
  obtain r' s1' where q': "seat_status_by_key now (seat_key ev st) s' = (r', s1')"
    by (rule status_expanded)
  have r: "r' = r" using seat_status_by_live(1) [OF q] seat_status_by_live(1) [OF q'] l by simp
  have l1: "live now s1 = live now s1'"
    using seat_status_by_live(4) [OF q, of now] seat_status_by_live(4) [OF q', of now] l by simp
  note d = obs_eq_def q q' r l1 live_store live_delete fun_eq_iff Let_def
  show "obs_eq now (reserve_seat now ev st u h s) (reserve_seat now ev st u h s')"
    by (cases r) (auto simp: reserve_seat_def d l split: sum.split)
  show "obs_eq now (confirm_seat now ev st u s) (confirm_seat now ev st u s')"
    by (cases r) (auto simp: confirm_seat_def d)
  show "obs_eq now (force_confirm_seat ev st u s) (force_confirm_seat ev st u s')"
    by (auto simp: force_confirm_seat_def d l)
  show "obs_eq now (release_seat now ev st u s) (release_seat now ev st u s')"
    by (cases r) (auto simp: release_seat_def d)
  show "obs_eq now (seat_status now ev st s) (seat_status now ev st s')"
    by (auto simp: seat_status_def d)
qed

lemma obs_answer: "obs_eq now a b \<Longrightarrow> obs_eq now (answer f a) (answer f b)"
  by (simp add: obs_eq_def answer_def)

definition queue_commands :: "ustr list" where
  "queue_commands =
     [lit ''JOIN_QUEUE'', lit ''QUEUE_POSITION'', lit ''POP_QUEUE'', lit ''LEAVE_QUEUE'',
      lit ''PEEK_QUEUE'']"

lemma handle_obs:
  assumes "live now s = live now s'"
    and "\<And>name args. validate_command c = Inr (name, args) \<Longrightarrow> name \<notin> set queue_commands"
  shows "obs_eq now (handle_command now c s) (handle_command now c s')"
proof (cases "validate_command c")
  case (Inl err)
  then show ?thesis using assms(1) by (simp add: handle_rejected obs_eq_def)
next
  case (Inr x)
  obtain name args where "x = (name, args)" by (cases x)
  with Inr have v: "validate_command c = Inr (name, args)" by simp
  have nq: "name \<notin> set queue_commands" using assms(2) v by blast
  note kv = obs_kv [OF assms(1)] and seat = obs_seat [OF assms(1)]
  from v show ?thesis
  proof (cases rule: command_cases)
    case SET
    with v kv(1) show ?thesis by (simp add: handle_dispatch obs_eq_def)
  next
    case GET
    with v kv(2) show ?thesis by (simp add: handle_dispatch obs_eq_def)
  next
    case DEL
    with v kv(3) show ?thesis by (simp add: handle_dispatch obs_eq_def)
  next
    case TTL
    with v kv(5) show ?thesis by (simp add: handle_dispatch obs_eq_def)
  next
    case EXPIRE
    with v assms(1) kv(4) show ?thesis
      by (auto simp: handle_dispatch(4) obs_eq_def answer_def split: sum.split)
  next
    case EXPIRE_OPT
    with v assms(1) kv(4) show ?thesis
      by (auto simp: handle_dispatch(4) obs_eq_def answer_def split: sum.split)
  next
    case RESERVE
    with v assms(1) seat(1) show ?thesis
      by (auto simp: handle_dispatch(6) obs_eq_def answer_def split: sum.split)
  qed (use v seat nq in \<open>simp_all add: handle_dispatch obs_answer queue_commands_def\<close>)
qed

subsection \<open>Purging everything that has expired\<close>

lemma fold_delete_lookup:
  "lookup_key (fold delete_key ks s) k = (if k \<in> set ks then None else lookup_key s k)"
  by (induction ks arbitrary: s) (auto simp: dict_simps)

lemma expired_keys:
  assumes "engine_ok s"
  shows "k \<in> set (map fst (filter (\<lambda>(k, e). entry_expired now e) (store s))) \<longleftrightarrow>
    (\<exists>e. lookup_key s k = Some e \<and> entry_expired now e)"
  using assms by (force simp: engine_ok_def lookup_key_def dict_get_mem)

lemma purge_all_lookup:
  "engine_ok s \<Longrightarrow> lookup_key (purge_expired_keys now s) k = live now s k"
  by (auto simp: purge_expired_keys_def fold_delete_lookup expired_keys live_def
      simp del: set_map set_filter split: option.split)

lemma purge_all_live: "engine_ok s \<Longrightarrow> live now (purge_expired_keys now s) = live now s"
  by (rule ext) (simp add: live_def [of now "purge_expired_keys now s"] purge_all_lookup,
      auto simp: live_def split: option.splits)

end
