(* ===== verification/Command_Histories.thy ===== *)
theory Command_Histories
  imports Command_Laws
begin

section \<open>Histories of commands\<close>

text \<open>
  What a seat's holder can count on while arbitrary commands of other clients run: the
  worker executes a list of commands, each at its own time. A command is \<open>seat_safe\<close> for a
  seat when it is rejected, works on another key, only reads, or is a seat command of a user
  that satisfies \<open>P\<close>. The raw commands \<open>SET\<close>, \<open>DEL\<close> and \<open>EXPIRE\<close> on the seat's
  key and \<open>FORCE_CONFIRM_SEAT\<close> are not safe.
\<close>

type_synonym timed_command = "rat \<times> ustr list"

fun run_commands ::
  "timed_command list \<Rightarrow> StorageEngine \<Rightarrow> (py_error + command_result) list \<times> StorageEngine" where
  "run_commands [] s = ([], s)"
| "run_commands ((now, c) # h) s =
     (case handle_command now c s of
        (r, s1) \<Rightarrow> (case run_commands h s1 of (rs, s2) \<Rightarrow> (r # rs, s2)))"

fun in_order :: "rat \<Rightarrow> timed_command list \<Rightarrow> bool" where
  "in_order t [] = True"
| "in_order t ((now, c) # h) = (t \<le> now \<and> in_order now h)"

fun last_time :: "rat \<Rightarrow> timed_command list \<Rightarrow> rat" where
  "last_time t [] = t"
| "last_time t ((now, c) # h) = last_time now h"

definition read_commands :: "ustr list" where
  "read_commands = [lit ''GET'', lit ''TTL'', lit ''SEAT_STATUS'']"

definition claim_commands :: "ustr list" where
  "claim_commands = [lit ''RESERVE_SEAT'', lit ''CONFIRM_SEAT'', lit ''RELEASE_SEAT'']"

definition seat_safe :: "(ustr \<Rightarrow> bool) \<Rightarrow> ustr \<Rightarrow> ustr \<Rightarrow> ustr list \<Rightarrow> bool" where
  "seat_safe P ev st c \<longleftrightarrow>
     list_all (list_all scalar) c \<and>
     (case validate_command c of
        Inl e \<Rightarrow> True
      | Inr (name, args) \<Rightarrow>
          command_key name args \<noteq> seat_key ev st \<or> name \<in> set read_commands \<or>
          (name \<in> set claim_commands \<and> P (args ! 2)))"

lemma seat_rep_key: "seat_key ev st = seat_key ev' st' \<Longrightarrow> seat_rep ev st = seat_rep ev' st'"
  by (intro ext) (simp add: seat_rep_def)

lemma seat_rep_live:
  "live now s1 (seat_key ev st) = live now s (seat_key ev st) \<Longrightarrow>
     seat_rep ev st now s1 a = seat_rep ev st now s a"
  by (simp add: seat_rep_def)

lemma live_touches: "touches_only k s s1 \<Longrightarrow> k' \<noteq> k \<Longrightarrow> live now s1 k' = live now s k'"
  by (simp add: touches_only_def live_def)

text \<open>Seats that a claim by a user in \<open>P\<close> cannot change before the time \<open>t\<close>.\<close>

definition firm :: "(ustr \<Rightarrow> bool) \<Rightarrow> rat \<Rightarrow> seat \<Rightarrow> bool" where
  "firm P now a =
     (case a of
        Available \<Rightarrow> False
      | Held u d \<Rightarrow> now < d \<and> \<not> P u
      | Confirmed u \<Rightarrow> True)"

lemma firm_claim:
  assumes "firm P now a" and "P v" and "oper \<in> {OpReserve v h, OpConfirm v, OpRelease v, OpStatus}"
  shows "snd (abs_seat_op now oper (age now a)) = a"
  using assms by (cases a) (auto simp: firm_def is_expired_def)

lemma claim_step:
  assumes "seat_rep ev st now s a" and "firm P now a" and "user_ok v" and "P v"
    and "oper \<in> {OpReserve v h, OpConfirm v, OpRelease v, OpStatus}"
  shows "seat_rep ev st now (snd (engine_seat_op ev st now oper s)) a"
proof -
  have "op_wf oper" using assms(3,5) by auto
  from seat_op_sim [OF assms(1) this] firm_claim [OF assms(2,4,5)] show ?thesis
    by (simp add: seat_sim_def)
qed

lemma safe_step:
  assumes rep: "seat_rep ev st now s a" and firm: "firm P now a" and safe: "seat_safe P ev st c"
  shows "seat_rep ev st now (snd (handle_command now c s)) a"
proof (cases "validate_command c")
  case (Inl e)
  then show ?thesis using rep by (simp add: handle_rejected)
next
  case (Inr x)
  obtain name args where "x = (name, args)" by (cases x)
  with Inr have v: "validate_command c = Inr (name, args)" by simp
  have args: "list_all (list_all scalar) args"
    using v safe by (cases c) (auto simp: seat_safe_def validate_command_def Let_def
        split: if_splits option.splits)
  show ?thesis
  proof (cases "command_key name args = seat_key ev st")
    case False
    then show ?thesis
      using rep seat_rep_live [OF live_touches [OF handle_touches [OF v]]] by metis
  next
    case key: True
    then have kind: "name \<in> set read_commands \<or> (name \<in> set claim_commands \<and> P (args ! 2))"
      using safe v by (auto simp: seat_safe_def)
    from v show ?thesis
    proof (cases rule: command_cases)
      case GET
      then show ?thesis using v rep get_by_live(2) [of now now]
        by (simp add: handle_dispatch seat_rep_def)
    next
      case TTL
      then show ?thesis using v rep ttl_by_live(2) [of now now]
        by (simp add: handle_dispatch seat_rep_def)
    next
      case (RESERVE ev' st' u h)
      then have "seat_rep ev' st' = seat_rep ev st" "P u" "user_ok u"
        using key kind args seat_rep_key [of ev' st' ev st]
        by (auto simp: command_key_def read_commands_def user_ok_def)
      then show ?thesis
        using claim_step [of ev' st' now s a P u "OpReserve u i" i for i] rep firm v RESERVE
        by (auto simp: handle_dispatch(6) parse_reserve_arguments_def split: sum.split option.split)
    next
      case (CONFIRM ev' st' u)
      then have "seat_rep ev' st' = seat_rep ev st" "P u" "user_ok u"
        using key kind args seat_rep_key [of ev' st' ev st]
        by (auto simp: command_key_def read_commands_def user_ok_def)
      then show ?thesis
        using claim_step [of ev' st' now s a P u "OpConfirm u"] rep firm v CONFIRM
        by (simp add: handle_dispatch)
    next
      case (RELEASE ev' st' u)
      then have "seat_rep ev' st' = seat_rep ev st" "P u" "user_ok u"
        using key kind args seat_rep_key [of ev' st' ev st]
        by (auto simp: command_key_def read_commands_def user_ok_def)
      then show ?thesis
        using claim_step [of ev' st' now s a P u "OpRelease u"] rep firm v RELEASE
        by (simp add: handle_dispatch)
    next
      case (STATUS ev' st')
      then have "seat_key ev' st' = seat_key ev st" using key by (simp add: command_key_def)
      then show ?thesis
        using error_same_live(5) [of now s ev' st'] rep v STATUS
        by (simp add: handle_dispatch seat_rep_def same_live_def)
    qed (use kind in \<open>simp_all add: read_commands_def claim_commands_def\<close>)
  qed
qed

lemma firm_earlier: "firm P now' a \<Longrightarrow> now \<le> now' \<Longrightarrow> firm P now a"
  by (cases a) (auto simp: firm_def)

lemma in_order_last: "in_order t h \<Longrightarrow> t \<le> last_time t h"
proof (induction h arbitrary: t)
  case (Cons x h)
  then show ?case by (cases x) (auto intro: order_trans)
qed simp

lemma safe_history:
  assumes "seat_rep ev st t s a" and "in_order t h" and "firm P (last_time t h) a"
    and "\<forall>x\<in>set h. seat_safe P ev st (snd x)"
  shows "seat_rep ev st (last_time t h) (snd (run_commands h s)) a"
  using assms
proof (induction h arbitrary: t s)
  case (Cons x h)
  obtain now c where x: "x = (now, c)" by (cases x)
  have "now \<le> last_time now h" using Cons.prems x by (simp add: in_order_last)
  then have "firm P now a" using Cons.prems x firm_earlier by simp
  moreover have "seat_rep ev st now s a" using Cons.prems(1,2) x seat_rep_later by simp
  ultimately have "seat_rep ev st now (snd (handle_command now c s)) a"
    using Cons.prems x safe_step by simp
  then show ?case
    using Cons.IH [of now "snd (handle_command now c s)"] Cons.prems x
    by (simp split: prod.split) (metis snd_conv)
qed simp

end
