(* ===== verification/Storage_Properties.thy ===== *)
theory Storage_Properties
  imports Command_Histories
begin

section \<open>Properties of the seat and queue commands\<close>

text \<open>
  The guarantees that the ticketing side of Mini Redis gives, stated on whole commands and
  whole histories of commands.
\<close>

subsection \<open>Commands with literal names\<close>

lemma supported_upper: "name \<in> set SUPPORTED_COMMANDS \<Longrightarrow> py_upper name = name"
  by (auto simp: SUPPORTED_COMMANDS_def lit_def intro!: py_upper_id)

lemma validate_supported:
  assumes "name \<in> set SUPPORTED_COMMANDS" and "command_arity name = Some (lo, hi)"
    and "lo \<le> Suc (length args)" and "Suc (length args) \<le> hi"
  shows "validate_command (name # args) = Inr (name, args)"
proof -
  have "name \<noteq> []" using assms(1) by (auto simp: SUPPORTED_COMMANDS_def)
  then show ?thesis using assms by (simp add: validate_command_def supported_upper)
qed

lemma validate_seat:
  "validate_command [lit ''RESERVE_SEAT'', ev, st, u, h] = Inr (lit ''RESERVE_SEAT'', [ev, st, u, h])"
  "validate_command [lit ''CONFIRM_SEAT'', ev, st, u] = Inr (lit ''CONFIRM_SEAT'', [ev, st, u])"
  "validate_command [lit ''FORCE_CONFIRM_SEAT'', ev, st, u] = Inr (lit ''FORCE_CONFIRM_SEAT'', [ev, st, u])"
  "validate_command [lit ''RELEASE_SEAT'', ev, st, u] = Inr (lit ''RELEASE_SEAT'', [ev, st, u])"
  "validate_command [lit ''SEAT_STATUS'', ev, st] = Inr (lit ''SEAT_STATUS'', [ev, st])"
  using validate_supported [of "lit ''RESERVE_SEAT''" 5 5 "[ev, st, u, h]"]
    validate_supported [of "lit ''CONFIRM_SEAT''" 4 4 "[ev, st, u]"]
    validate_supported [of "lit ''FORCE_CONFIRM_SEAT''" 4 4 "[ev, st, u]"]
    validate_supported [of "lit ''RELEASE_SEAT''" 4 4 "[ev, st, u]"]
    validate_supported [of "lit ''SEAT_STATUS''" 3 3 "[ev, st]"]
  by (simp_all add: SUPPORTED_COMMANDS_def command_arity_def COMMAND_ARITY_def)

lemma handle_confirm:
  "handle_command now [lit ''CONFIRM_SEAT'', ev, st, u] s =
     answer seat_operation_result (confirm_seat now ev st u s)"
  using handle_dispatch validate_seat(2) by simp

lemma handle_release:
  "handle_command now [lit ''RELEASE_SEAT'', ev, st, u] s =
     answer seat_operation_result (release_seat now ev st u s)"
  using handle_dispatch validate_seat(4) by simp

lemma handle_reserve:
  "printable (nat \<bar>h\<bar>) \<Longrightarrow> 0 < h \<Longrightarrow>
     handle_command now [lit ''RESERVE_SEAT'', ev, st, u, int_str h] s =
     answer seat_operation_result (reserve_seat now ev st u h s)"
  using handle_dispatch(6) [OF validate_seat(1)]
  by (simp add: parse_reserve_arguments_def py_int_int_str)

lemma clock_printable: "clock_ok now h \<Longrightarrow> printable (nat \<bar>h\<bar>)"
proof (rule printable_small)
  assume "clock_ok now h"
  then have "\<bar>h\<bar> < 2 ^ 31" by (simp only: clock_ok_def)
  then show "nat \<bar>h\<bar> < 10 ^ 20" by simp
qed

lemma reserve_success:
  assumes "fst (reserve_seat now ev st u h s) = Inr (True, x)" and "clock_ok now h" and "user_ok u"
  shows "seat_rep ev st now (snd (reserve_seat now ev st u h s)) (Held u (now + of_int h))"
  using assms
  by (auto simp: reserve_seat_def compute_deadline_exact Let_def intro!: seat_rep_store
      split: if_splits prod.splits sum.splits)

lemma confirm_success:
  assumes "seat_rep ev st now s a" and "user_ok u" and "fst (confirm_seat now ev st u s) = Inr (True, x)"
  shows "seat_rep ev st now (snd (confirm_seat now ev st u s)) (Confirmed u)"
  using confirm_sim [OF assms(1,2)] assms(3)
  by (cases "age now a") (auto simp: seat_sim_def split: if_splits)

lemma firm_held: "t < d \<Longrightarrow> firm (\<lambda>v. v \<noteq> u) t (Held u d)"
  by (simp add: firm_def)

subsection \<open>A small scenario\<close>

text \<open>Inputs on which the properties below are exercised.\<close>

lemma rep_new: "seat_rep ev st now new_engine Available"
  by (simp add: seat_rep_def live_def lookup_key_def new_engine_def)

lemma first_reserve:
  assumes "clock_ok now h" and "0 < h" and "list_all scalar u"
  shows "fst (handle_command now [lit ''RESERVE_SEAT'', ev, st, u, int_str h] new_engine) =
    Inr (Items [SInt 1, SStr (lit ''HELD''), SStr u, SInt h])"
  using reserve_sim [where ev = ev and st = st and now = now and u = u and h = h, OF rep_new] assms
  by (simp add: handle_reserve [OF clock_printable [OF assms(1)] assms(2)] seat_sim_def user_ok_def
      hold_or_fail_def compute_deadline_exact answer_def seat_operation_result_def flag_def opt_str_def
      SEAT_HELD_def)

lemma clock_ok_small: "0 \<le> h \<Longrightarrow> h < 1000 \<Longrightarrow> clock_ok 0 h"
  using grid_of_int [of h] by (simp add: clock_ok_def grid_def)

lemma printable_60 [simp]: "printable 60" "printable 30"
  by (rule printable_small, simp)+

definition rival :: "timed_command list" where
  "rival = [(1, [lit ''RESERVE_SEAT'', lit ''e'', lit ''A1'', lit ''u2'', lit ''30'']),
            (2, [lit ''SEAT_STATUS'', lit ''e'', lit ''A1''])]"

lemma rival_safe: "\<forall>x\<in>set rival. seat_safe P (lit ''e'') (lit ''A1'') (snd x)" if "P (lit ''u2'')"
  using that by (simp add: rival_def seat_safe_def validate_seat read_commands_def claim_commands_def)

subsection \<open>Seats\<close>

text \<open>
  Claim C1: a reserved seat can be confirmed. When \<open>RESERVE_SEAT\<close> answers success at the time
  \<open>now\<close>, and then any commands of other clients run that neither write the seat's key
  directly nor force a confirmation, \<open>CONFIRM_SEAT\<close> of the same user before
  \<open>now + hold\<close> succeeds and reports the seat as confirmed for that user. This holds for
  every store, whatever it contains.
\<close>

theorem reserved_seat_can_be_confirmed:
  assumes "clock_ok now hold" and "0 < hold" and "list_all scalar u"
    and "fst (handle_command now [lit ''RESERVE_SEAT'', ev, st, u, int_str hold] s) =
      Inr (Items (SInt 1 # rest))"
    and "in_order now h" and "last_time now h \<le> t" and "t < now + of_int hold"
    and "\<forall>x\<in>set h. seat_safe (\<lambda>v. v \<noteq> u) ev st (snd x)"
  shows "fst (handle_command t [lit ''CONFIRM_SEAT'', ev, st, u]
      (snd (run_commands h (snd (handle_command now [lit ''RESERVE_SEAT'', ev, st, u, int_str hold] s))))) =
    Inr (Items [SInt 1, SStr (lit ''CONFIRMED''), SStr u, SInt (- 1)])"
proof -
  note r = handle_reserve [OF clock_printable [OF assms(1)] assms(2)]
  obtain x where "fst (reserve_seat now ev st u hold s) = Inr (True, x)"
    using assms(4) by (auto simp: r answer_Inr seat_operation_result_def flag_def split: if_splits)
  from reserve_success [OF this assms(1)] assms(3)
  have "seat_rep ev st now (snd (reserve_seat now ev st u hold s)) (Held u (now + of_int hold))"
    by (simp add: user_ok_def)
  from safe_history [OF this assms(5) firm_held assms(8)] assms(6,7)
  have "seat_rep ev st (last_time now h) (snd (run_commands h (snd (reserve_seat now ev st u hold s))))
      (Held u (now + of_int hold))" by simp
  from confirm_sim [OF seat_rep_later [OF this assms(6)], of u] assms(3,7) show ?thesis
    by (simp add: r handle_confirm seat_sim_def answer_def is_expired_def user_ok_def
        seat_operation_result_def flag_def opt_str_def SEAT_CONFIRMED_def)
qed

theorem reserved_seat_can_be_confirmed_witness:
  "fst (handle_command 3 [lit ''CONFIRM_SEAT'', lit ''e'', lit ''A1'', lit ''u1'']
      (snd (run_commands rival (snd (handle_command 0
        [lit ''RESERVE_SEAT'', lit ''e'', lit ''A1'', lit ''u1'', int_str 60] new_engine))))) =
    Inr (Items [SInt 1, SStr (lit ''CONFIRMED''), SStr (lit ''u1''), SInt (- 1)])"
  by (rule reserved_seat_can_be_confirmed [OF _ _ _ first_reserve _ _ _ rival_safe])
    (simp_all add: clock_ok_small rival_def)

text \<open>
  Claim C8: a held seat is exclusive. When \<open>RESERVE_SEAT\<close> answers success at the time \<open>now\<close>, and
  then any commands run that do not write the seat's key directly, do not force a confirmation of
  the seat and are no claims of the holder for it (\<open>seat_safe\<close>), then before the hold ends
  \<open>RESERVE_SEAT\<close>, \<open>CONFIRM_SEAT\<close> and \<open>RELEASE_SEAT\<close> of any other user fail, and each answer names
  the holder and the time that is left.
\<close>

theorem held_seat_is_exclusive:
  assumes "clock_ok now hold" and "0 < hold" and "list_all scalar u"
    and "fst (handle_command now [lit ''RESERVE_SEAT'', ev, st, u, int_str hold] s) =
      Inr (Items (SInt 1 # rest))"
    and "in_order now h" and "last_time now h \<le> t" and "t < now + of_int hold"
    and "\<forall>x\<in>set h. seat_safe (\<lambda>v. v \<noteq> u) ev st (snd x)"
    and "v \<noteq> u" and "list_all scalar v" and "printable (nat \<bar>hold'\<bar>)" and "0 < hold'"
  shows "let s1 = snd (run_commands h (snd (handle_command now [lit ''RESERVE_SEAT'', ev, st, u, int_str hold] s)));
      refused = Inr (Items [SInt 0, SStr (lit ''HELD''), SStr u, SInt (remaining_ttl (now + of_int hold) t)])
    in fst (handle_command t [lit ''RESERVE_SEAT'', ev, st, v, int_str hold'] s1) = refused \<and>
       fst (handle_command t [lit ''CONFIRM_SEAT'', ev, st, v] s1) = refused \<and>
       fst (handle_command t [lit ''RELEASE_SEAT'', ev, st, v] s1) = refused"
proof -
  note r = handle_reserve [OF clock_printable [OF assms(1)] assms(2)]
  let ?s1 = "snd (run_commands h (snd (reserve_seat now ev st u hold s)))"
  obtain x where "fst (reserve_seat now ev st u hold s) = Inr (True, x)"
    using assms(4) by (auto simp: r answer_Inr seat_operation_result_def flag_def split: if_splits)
  from reserve_success [OF this assms(1)] assms(3)
  have "seat_rep ev st now (snd (reserve_seat now ev st u hold s)) (Held u (now + of_int hold))"
    by (simp add: user_ok_def)
  from safe_history [OF this assms(5) firm_held assms(8)] assms(6,7)
  have "seat_rep ev st (last_time now h) ?s1 (Held u (now + of_int hold))" by simp
  then have rep: "seat_rep ev st t ?s1 (Held u (now + of_int hold))" using assms(6) by (rule seat_rep_later)
  show ?thesis
    using reserve_sim [OF rep, of v hold'] confirm_sim [OF rep, of v] release_sim [OF rep, of v] assms(7,9,10,12)
    by (simp add: Let_def r handle_reserve [OF assms(11,12)] handle_confirm handle_release seat_sim_def answer_def
        is_expired_def user_ok_def seat_operation_result_def flag_def opt_str_def SEAT_HELD_def)
qed

theorem held_seat_is_exclusive_witness:
  "let s1 = snd (run_commands rival (snd (handle_command 0
        [lit ''RESERVE_SEAT'', lit ''e'', lit ''A1'', lit ''u1'', int_str 60] new_engine)));
      refused = Inr (Items [SInt 0, SStr (lit ''HELD''), SStr (lit ''u1''), SInt (remaining_ttl (0 + of_int 60) 3)])
   in fst (handle_command 3 [lit ''RESERVE_SEAT'', lit ''e'', lit ''A1'', lit ''u2'', int_str 30] s1) = refused \<and>
      fst (handle_command 3 [lit ''CONFIRM_SEAT'', lit ''e'', lit ''A1'', lit ''u2''] s1) = refused \<and>
      fst (handle_command 3 [lit ''RELEASE_SEAT'', lit ''e'', lit ''A1'', lit ''u2''] s1) = refused"
  by (rule held_seat_is_exclusive [OF _ _ _ first_reserve _ _ _ rival_safe])
    (simp_all add: clock_ok_small rival_def)

text \<open>
  Claim C9: a confirmed seat stays confirmed. When \<open>CONFIRM_SEAT\<close> answers success on a
  seat that the seat commands have built, and then any commands run, at any later times,
  that neither write the seat's key directly nor force a confirmation, the status of the
  seat is confirmed for that user, and nobody can reserve it.
\<close>

theorem confirmed_seat_stays_confirmed:
  assumes "seat_rep ev st now s a" and "list_all scalar u"
    and "fst (handle_command now [lit ''CONFIRM_SEAT'', ev, st, u] s) = Inr (Items (SInt 1 # rest))"
    and "in_order now h" and "last_time now h \<le> t"
    and "\<forall>x\<in>set h. seat_safe (\<lambda>_. True) ev st (snd x)"
    and "list_all scalar v" and "printable (nat \<bar>hold\<bar>)" and "0 < hold"
  shows "fst (handle_command t [lit ''SEAT_STATUS'', ev, st]
      (snd (run_commands h (snd (handle_command now [lit ''CONFIRM_SEAT'', ev, st, u] s))))) =
    Inr (Items [SStr (lit ''CONFIRMED''), SStr u, SInt (- 1)]) \<and>
    fst (handle_command t [lit ''RESERVE_SEAT'', ev, st, v, int_str hold]
      (snd (run_commands h (snd (handle_command now [lit ''CONFIRM_SEAT'', ev, st, u] s))))) =
    Inr (Items [SInt 0, SStr (lit ''CONFIRMED''), SStr u, SInt (- 1)])"
proof -
  let ?s = "snd (run_commands h (snd (handle_command now [lit ''CONFIRM_SEAT'', ev, st, u] s)))"
  obtain x where "fst (confirm_seat now ev st u s) = Inr (True, x)"
    using assms(3) by (auto simp: handle_confirm answer_Inr seat_operation_result_def flag_def split: if_splits)
  from confirm_success [OF assms(1) _ this] assms(2)
  have "seat_rep ev st now (snd (confirm_seat now ev st u s)) (Confirmed u)" by (simp add: user_ok_def)
  from safe_history [OF this assms(4) _ assms(6)]
  have "seat_rep ev st (last_time now h) ?s (Confirmed u)" by (simp add: firm_def handle_confirm)
  then have rep: "seat_rep ev st t ?s (Confirmed u)" using assms(5) by (rule seat_rep_later)
  have "fst (engine_seat_op ev st t OpStatus ?s) = Inr (True, abs_status t (Confirmed u))"
    using seat_op_sim [OF rep, of OpStatus] by (simp add: seat_sim_def)
  then have "fst (seat_status t ev st ?s) = Inr (abs_status t (Confirmed u))"
    by (auto split: prod.splits sum.splits)
  moreover have "fst (reserve_seat t ev st v hold ?s) = Inr (False, abs_status t (Confirmed u))"
    using reserve_sim [OF rep, of v hold] assms(7,9) by (simp add: seat_sim_def user_ok_def)
  ultimately show ?thesis
    by (simp add: handle_dispatch(10) [OF validate_seat(5)] handle_reserve [OF assms(8,9)] answer_def
        seat_status_result_def seat_operation_result_def flag_def opt_str_def SEAT_CONFIRMED_def)
qed

theorem confirmed_seat_stays_confirmed_witness:
  "fst (handle_command 9 [lit ''SEAT_STATUS'', lit ''e'', lit ''A1'']
      (snd (run_commands rival (snd (handle_command 0 [lit ''CONFIRM_SEAT'', lit ''e'', lit ''A1'', lit ''u1'']
        (snd (reserve_seat 0 (lit ''e'') (lit ''A1'') (lit ''u1'') 60 new_engine))))))) =
    Inr (Items [SStr (lit ''CONFIRMED''), SStr (lit ''u1''), SInt (- 1)]) \<and>
    fst (handle_command 9 [lit ''RESERVE_SEAT'', lit ''e'', lit ''A1'', lit ''u2'', int_str 30]
      (snd (run_commands rival (snd (handle_command 0 [lit ''CONFIRM_SEAT'', lit ''e'', lit ''A1'', lit ''u1'']
        (snd (reserve_seat 0 (lit ''e'') (lit ''A1'') (lit ''u1'') 60 new_engine))))))) =
    Inr (Items [SInt 0, SStr (lit ''CONFIRMED''), SStr (lit ''u1''), SInt (- 1)])"
proof -
  let ?s = "snd (reserve_seat 0 (lit ''e'') (lit ''A1'') (lit ''u1'') 60 new_engine)"
  have rep: "seat_rep (lit ''e'') (lit ''A1'') 0 ?s (Held (lit ''u1'') 60)"
    using reserve_sim [where ev = "lit ''e''" and st = "lit ''A1''" and now = 0 and u = "lit ''u1''" and h = 60,
      OF rep_new]
    by (simp add: seat_sim_def user_ok_def hold_or_fail_def compute_deadline_exact clock_ok_small)
  then have "fst (handle_command 0 [lit ''CONFIRM_SEAT'', lit ''e'', lit ''A1'', lit ''u1''] ?s) =
      Inr (Items (SInt 1 # [SStr (lit ''CONFIRMED''), SStr (lit ''u1''), SInt (- 1)]))"
    using confirm_sim [OF rep, of "lit ''u1''"]
    by (simp add: handle_confirm seat_sim_def answer_def is_expired_def user_ok_def
        seat_operation_result_def flag_def opt_str_def SEAT_CONFIRMED_def)
  from confirmed_seat_stays_confirmed [OF rep _ this _ _ rival_safe, of 9 "lit ''u2''" 30]
  show ?thesis by (simp add: rival_def)
qed

text \<open>
  Claim C3: the seat operations of the engine, run one after the other at times that do not
  go back, give exactly the answers of the abstract seat machine (available, held with a
  deadline, confirmed) and end in a store that represents the abstract seat.
\<close>

theorem seat_histories_refine:
  assumes "seat_rep ev st t s a" and "timed t h" and "history_wf h"
  shows "fst (run_history (engine_seat_op ev st) h s) = fst (run_history abs_step h a) \<and>
    seat_rep ev st (end_time t h) (snd (run_history (engine_seat_op ev st) h s))
      (snd (run_history abs_step h a))"
  by (rule engine_seat.history_sim [OF assms])

theorem seat_histories_refine_witness:
  "fst (run_history (engine_seat_op (lit ''e'') (lit ''A1''))
      [(0, OpForce (lit ''u1'')), (1, OpConfirm (lit ''u2'')), (2, OpRelease (lit ''u1'')), (3, OpStatus)]
      new_engine) =
    [Inr (True, mk_status SEAT_CONFIRMED (Some (lit ''u1'')) (- 1)),
     Inr (False, mk_status SEAT_CONFIRMED (Some (lit ''u1'')) (- 1)),
     Inr (False, mk_status SEAT_CONFIRMED (Some (lit ''u1'')) (- 1)),
     Inr (True, mk_status SEAT_CONFIRMED (Some (lit ''u1'')) (- 1))]"
  using seat_histories_refine [OF rep_new, of 0
      "[(0, OpForce (lit ''u1'')), (1, OpConfirm (lit ''u2'')), (2, OpRelease (lit ''u1'')), (3, OpStatus)]"
      "lit ''e''" "lit ''A1''"]
  by (simp add: history_wf_def user_ok_def abs_step_def)

text \<open>
  A hold ends at its deadline. Once the deadline of a held seat has passed, its status
  is available, any user can reserve it, and the former holder can neither confirm nor
  release it.
\<close>

lemma expired_hold_is_free:
  assumes "seat_rep ev st now s (Held u d)" and "now \<le> t" and "d \<le> t"
    and "user_ok v" and "clock_ok t hold" and "0 < hold"
  shows "fst (seat_status t ev st s) = Inr (mk_status SEAT_AVAILABLE None (- 1)) \<and>
    fst (reserve_seat t ev st v hold s) = Inr (True, mk_status SEAT_HELD (Some v) hold) \<and>
    fst (confirm_seat t ev st u s) = Inr (False, mk_status SEAT_AVAILABLE None (- 1)) \<and>
    fst (release_seat t ev st u s) = Inr (False, mk_status SEAT_AVAILABLE None (- 1))"
proof -
  have rep: "seat_rep ev st t s (Held u d)" using assms(1,2) by (rule seat_rep_later)
  have u: "user_ok u" using assms(1) by (simp add: seat_rep_def)
  have aged: "age t (Held u d) = Available" using assms(3) by (simp add: is_expired_def)
  have "fst (engine_seat_op ev st t OpStatus s) = Inr (True, abs_status t Available)"
    using seat_op_sim [OF rep, of OpStatus] aged by (simp add: seat_sim_def)
  then have "fst (seat_status t ev st s) = Inr (mk_status SEAT_AVAILABLE None (- 1))"
    by (auto split: prod.splits sum.splits)
  then show ?thesis
    using reserve_sim [OF rep assms(4), of hold] confirm_sim [OF rep u] release_sim [OF rep, of u]
      aged assms(5,6)
    by (simp add: seat_sim_def hold_or_fail_def compute_deadline_exact del: age.simps)
qed

text \<open>
  With a colon in the event name two seats share a record: reserving seat \<open>c\<close> of
  event \<open>a:b\<close> makes seat \<open>b:c\<close> of event \<open>a\<close> held, although nobody reserved it.
\<close>

lemma seat_keys_collide:
  "fst (seat_status 0 (lit ''a'') (lit ''b:c'')
      (snd (reserve_seat 0 (lit ''a:b'') (lit ''c'') (lit ''u1'') 60 new_engine))) =
    Inr (mk_status SEAT_HELD (Some (lit ''u1'')) 60)"
proof -
  let ?s = "snd (reserve_seat 0 (lit ''a:b'') (lit ''c'') (lit ''u1'') 60 new_engine)"
  have "seat_rep (lit ''a:b'') (lit ''c'') 0 ?s (Held (lit ''u1'') 60)"
    using reserve_sim [where ev = "lit ''a:b''" and st = "lit ''c''" and now = 0 and u = "lit ''u1''" and h = 60,
      OF rep_new]
    by (simp add: seat_sim_def user_ok_def hold_or_fail_def compute_deadline_exact clock_ok_small)
  moreover have "seat_key (lit ''a:b'') (lit ''c'') = seat_key (lit ''a'') (lit ''b:c'')"
    by (simp add: seat_key_def lit_Cons)
  ultimately have rep: "seat_rep (lit ''a'') (lit ''b:c'') 0 ?s (Held (lit ''u1'') 60)"
    using seat_rep_key by metis
  have "remaining_ttl 60 0 = 60" using remaining_ttl_exact [of 0 60] by (simp add: clock_ok_small)
  then have "fst (engine_seat_op (lit ''a'') (lit ''b:c'') 0 OpStatus ?s) =
      Inr (True, mk_status SEAT_HELD (Some (lit ''u1'')) 60)"
    using seat_op_sim [OF rep, of OpStatus] by (simp add: seat_sim_def is_expired_def)
  then show ?thesis by (auto split: prod.splits sum.splits)
qed

subsection \<open>Waiting queues\<close>

text \<open>
  Claim C17: the queue operations of the engine give exactly the answers of the abstract waiting
  line, a list of distinct users, for every sequence of operations, and leave a store that
  represents the resulting line.
\<close>

theorem queue_histories_refine:
  assumes "queue_rep ev s q" and "\<forall>oper\<in>set ops. queue_op_ok oper"
  shows "fst (run_queue (engine_queue_op ev) ops s) = map Inr (fst (run_queue abs_queue_op ops q)) \<and>
    queue_rep ev (snd (run_queue (engine_queue_op ev) ops s)) (snd (run_queue abs_queue_op ops q))"
  by (rule engine_queue.line_sim [OF assms])

lemma queue_rep_new: "queue_rep ev new_engine []"
  by (simp add: queue_rep_def load_queue_def lookup_key_def new_engine_def queue_ok_def)

theorem queue_histories_refine_witness:
  "fst (run_queue (engine_queue_op (lit ''e''))
      [QJoin (lit ''u1''), QJoin (lit ''u2''), QJoin (lit ''u1''), QLeave (lit ''u1''), QPeek] new_engine) =
    [Inr (RFlag True 1 1), Inr (RFlag True 2 2), Inr (RFlag False 1 2), Inr (RFlag True 1 1),
     Inr (RFront (Some (lit ''u2'')) 1)]"
  using queue_histories_refine [OF queue_rep_new,
      of "[QJoin (lit ''u1''), QJoin (lit ''u2''), QJoin (lit ''u1''), QLeave (lit ''u1''), QPeek]" "lit ''e''"]
  by (simp add: index_of_def)

text \<open>
  The queue is first in, first out. Distinct users who join an empty queue are
  admitted in the order in which they joined, each with the right position and length, and
  the queue is empty afterwards.
\<close>

lemma queue_is_fifo:
  assumes "queue_rep ev s []" and "distinct us" and "\<forall>u\<in>set us. list_all scalar u"
  shows "fst (run_queue (engine_queue_op ev) (map QJoin us @ replicate (length us) QPop) s) =
      map (\<lambda>i. Inr (RFlag True (int i + 1) (int i + 1))) [0..<length us] @
      map (\<lambda>i. Inr (RFront (Some (us ! i)) (int (length us - 1 - i)))) [0..<length us] \<and>
    queue_rep ev (snd (run_queue (engine_queue_op ev) (map QJoin us @ replicate (length us) QPop) s)) []"
  using engine_queue.fifo [OF assms] by simp

end
