(* ===== verification/Command_Properties.thy ===== *)
theory Command_Properties
  imports Storage_Properties
begin

section \<open>Properties of the key commands and of all commands\<close>

text \<open>
  Expiry of keys, and what every command promises about the store: it works on one key, an
  exception changes nothing a client can see, and purging expired keys is invisible.
\<close>

subsection \<open>Expiry\<close>

lemma set_expire:
  assumes "clock_ok now seconds" and "0 < seconds"
  shows "fst (eng_expire now k seconds None (eng_set k v s)) = Inr True"
    and "now \<le> t \<Longrightarrow> live t (snd (eng_expire now k seconds None (eng_set k v s))) k =
      (if t < now + of_int seconds then Some (mk_entry v (Some (now + of_int seconds))) else None)"
proof -
  have l: "live now (eng_set k v s) k = Some (mk_entry v None)"
    by (simp add: eng_set_def live_store)
  have e: "expire_effect now seconds None (live now (eng_set k v s) k) =
      Inr (True, Some (mk_entry v (Some (now + of_int seconds))))"
    using assms by (simp add: l expire_effect_def normalize_expire_option_def compute_deadline_exact
        should_apply_expiry_def)
  show "fst (eng_expire now k seconds None (eng_set k v s)) = Inr True"
    using expire_by_live(1) e by simp
  show "now \<le> t \<Longrightarrow> live t (snd (eng_expire now k seconds None (eng_set k v s))) k =
      (if t < now + of_int seconds then Some (mk_entry v (Some (now + of_int seconds))) else None)"
    by (simp add: expire_by_live(2) e entry_expired_def is_expired_def)
qed

text \<open>
  Claim C18: \<open>SET\<close>, \<open>EXPIRE\<close>, \<open>TTL\<close> and \<open>GET\<close> agree about time. A key that is set and given
  a timeout of \<open>seconds\<close> at the time \<open>now\<close> has exactly that time to live, is read
  with its value at every time before \<open>now + seconds\<close>, and is gone from that instant on.
\<close>

theorem expire_is_exact:
  assumes "clock_ok now seconds" and "0 < seconds" and "now \<le> t"
  shows "fst (eng_expire now k seconds None (eng_set k v s)) = Inr True \<and>
    fst (eng_ttl now k (snd (eng_expire now k seconds None (eng_set k v s)))) = seconds \<and>
    fst (eng_get t k (snd (eng_expire now k seconds None (eng_set k v s)))) =
      (if t < now + of_int seconds then Some v else None)"
  using assms set_expire [OF assms(1,2), where k = k and v = v and s = s] remaining_ttl_exact [OF assms(1)]
  by (simp add: ttl_by_live get_by_live)

theorem expire_is_exact_witness:
  "fst (eng_get 9 (lit ''k'') (snd (eng_expire 0 (lit ''k'') 10 None (eng_set (lit ''k'') (lit ''v'') new_engine)))) =
     Some (lit ''v'') \<and>
   fst (eng_get 10 (lit ''k'') (snd (eng_expire 0 (lit ''k'') 10 None (eng_set (lit ''k'') (lit ''v'') new_engine)))) =
     None"
  using expire_is_exact [of 0 10 9 "lit ''k''" "lit ''v''" new_engine]
    expire_is_exact [of 0 10 10 "lit ''k''" "lit ''v''" new_engine]
  by (simp add: clock_ok_small)

text \<open>
  The options of \<open>EXPIRE\<close>. On a live key, \<open>NX\<close> succeeds iff the key has no deadline,
  \<open>XX\<close> iff it has one, \<open>GT\<close> iff the new deadline is later than the current one and
  \<open>LT\<close> iff it is earlier, a key without deadline counting as never expiring.
\<close>

lemma expire_options:
  assumes "live now s k = Some e" and "clock_ok now seconds"
  shows "fst (eng_expire now k seconds (Some (lit ''NX'')) s) = Inr (expires_at e = None) \<and>
    fst (eng_expire now k seconds (Some (lit ''XX'')) s) = Inr (expires_at e \<noteq> None) \<and>
    fst (eng_expire now k seconds (Some (lit ''GT'')) s) =
      Inr (case expires_at e of None \<Rightarrow> False | Some d \<Rightarrow> d < now + of_int seconds) \<and>
    fst (eng_expire now k seconds (Some (lit ''LT'')) s) =
      Inr (case expires_at e of None \<Rightarrow> True | Some d \<Rightarrow> now + of_int seconds < d)"
proof -
  have n: "normalize_expire_option (Some t) = Inr (Some t)" if "t \<in> set valid_expire_options" for t
    using that by (simp add: normalize_expire_option_def py_upper_options)
  have m: "lit ''NX'' \<in> set valid_expire_options" "lit ''XX'' \<in> set valid_expire_options"
    "lit ''GT'' \<in> set valid_expire_options" "lit ''LT'' \<in> set valid_expire_options"
    by (simp_all add: valid_expire_options_def)
  show ?thesis
    by (cases "expires_at e")
      (simp_all add: expire_by_live(1) expire_effect_def assms(1) compute_deadline_exact [OF assms(2)]
        n m should_apply_expiry_def)
qed

text \<open>
  Claim C19: an exception has no effect. A command that raises leaves every key as a client sees it,
  now and at every later time.
\<close>

theorem failed_command_changes_nothing:
  assumes "fst (handle_command now c s) = Inl e" and "now \<le> t"
  shows "live t (snd (handle_command now c s)) = live t s"
  using handle_error_same_live [OF assms(1)] assms(2) by (simp add: same_live_def)

theorem failed_command_changes_nothing_witness:
  "live 1 (snd (handle_command 0 [lit ''GET''] (eng_set (lit ''k'') (lit ''v'') new_engine))) (lit ''k'') =
     Some (mk_entry (lit ''v'') None)"
proof -
  let ?s = "eng_set (lit ''k'') (lit ''v'') new_engine"
  have "validate_command [lit ''GET''] = Inl (WrongNumberOfArgumentsError
      (lit ''wrong number of arguments for '' @ quoted (lit ''GET'') @ lit '' command''))"
    by code_simp
  then have "fst (handle_command 0 [lit ''GET''] ?s) = Inl (WrongNumberOfArgumentsError
      (lit ''wrong number of arguments for '' @ quoted (lit ''GET'') @ lit '' command''))"
    by (simp add: handle_rejected)
  from failed_command_changes_nothing [OF this, of 1] show ?thesis
    by (simp add: eng_set_def live_store)
qed

text \<open>
  Claim C20: a command works on one key. Whatever a valid command does, every key but the one it names
  (the key itself, the seat's key or the event's queue key) is left as it was.
\<close>

theorem command_works_on_one_key:
  assumes "validate_command c = Inr (name, args)" and "k \<noteq> command_key name args"
  shows "lookup_key (snd (handle_command now c s)) k = lookup_key s k"
  using handle_touches [OF assms(1)] assms(2) by (simp add: touches_only_def)

theorem command_works_on_one_key_witness:
  "lookup_key (snd (handle_command 0 [lit ''FORCE_CONFIRM_SEAT'', lit ''e'', lit ''A1'', lit ''u1'']
      (eng_set (lit ''k'') (lit ''v'') new_engine))) (lit ''k'') = Some (mk_entry (lit ''v'') None)"
  using command_works_on_one_key [OF validate_seat(3), of "lit ''k''" "lit ''e''" "lit ''A1''" "lit ''u1''" 0
      "eng_set (lit ''k'') (lit ''v'') new_engine"]
  by (simp add: command_key_def seat_key_def lit_Cons eng_set_def dict_simps)

text \<open>
  Lazy expiration cannot be observed by key and seat commands. Whether the expired keys are
  still in the store or were all purged at once, a key or seat command gives the same answer
  and leaves the same live keys.
\<close>

lemma lazy_expiration_is_invisible:
  assumes "engine_ok s"
    and "\<And>name args. validate_command c = Inr (name, args) \<Longrightarrow> name \<notin> set queue_commands"
  shows "fst (handle_command now c (purge_expired_keys now s)) = fst (handle_command now c s) \<and>
    live now (snd (handle_command now c (purge_expired_keys now s))) = live now (snd (handle_command now c s))"
  using handle_obs [where now = now, OF purge_all_live [OF assms(1)] assms(2)] by (simp add: obs_eq_def)

text \<open>
  The queue commands do not look at deadlines. A queue that was given a timeout with
  \<open>EXPIRE\<close> is still served after the timeout, when \<open>GET\<close> already reports the key as
  gone.
\<close>

lemma expired_queue_is_still_served:
  "fst (eng_get 20 (queue_key (lit ''e''))
      (snd (eng_expire 0 (queue_key (lit ''e'')) 10 None
        (snd (join_queue (lit ''e'') (lit ''u1'') new_engine))))) = None \<and>
   fst (queue_position (lit ''e'') (lit ''u1'')
      (snd (eng_expire 0 (queue_key (lit ''e'')) 10 None
        (snd (join_queue (lit ''e'') (lit ''u1'') new_engine))))) = Inr (1, 1)"
proof -
  let ?k = "queue_key (lit ''e'')" and ?v = "serialize_queue [lit ''u1'']"
  let ?s = "snd (eng_expire 0 ?k 10 None (eng_set ?k ?v new_engine))"
  have join: "snd (join_queue (lit ''e'') (lit ''u1'') new_engine) = eng_set ?k ?v new_engine"
    by (simp add: join_queue_def load_queue_def lookup_key_def new_engine_def store_queue_def eng_set_def Let_def)
  have live: "live t ?s ?k = (if t < 10 then Some (mk_entry ?v (Some 10)) else None)" if "0 \<le> t" for t
    using set_expire(2) [of 0 10 t ?k ?v new_engine] that by (simp add: clock_ok_small)
  then have "live 0 ?s ?k = Some (mk_entry ?v (Some 10))" by simp
  then have "lookup_key ?s ?k = Some (mk_entry ?v (Some 10))" by (blast dest: live_SomeD)
  then have "load_queue ?k ?s = Inr [lit ''u1'']"
    by (simp add: load_queue_def deserialize_serialize_queue queue_ok_def)
  then show ?thesis
    using live [of 20] by (simp add: join get_by_live queue_position_def index_of_def)
qed

end
