(* ===== verification/Resp_Parser.thy ===== *)
theory Resp_Parser
  imports Py_Utf8
begin

section \<open>RESP requests (\<open>protocol/resp_parser.py\<close>)\<close>

text \<open>
  A request is an array of bulk strings. The parser reads one frame from the start of a
  buffer and says how many bytes it used; it distinguishes a frame that needs more bytes
  from one that is malformed. Bytes are Isabelle characters, positions are natural numbers.
  The second half shows that the verdict on a buffer is final as soon as it is not
  \<open>IncompleteRESPError\<close>: bytes that arrive later never change it. So the way the
  network cuts a stream into chunks does not matter to the incremental parser.
\<close>

datatype resp_error =
    ProtocolError ustr
  | IncompleteRESPError ustr

abbreviation CR :: char where "CR \<equiv> CHR 0x0D"
abbreviation LF :: char where "LF \<equiv> CHR 0x0A"

definition RESP_LINE_ENDING :: bytes where
  "RESP_LINE_ENDING = [CR, LF]"

subsection \<open>Lines and slices\<close>

text \<open>\<open>m[a:b]\<close> and \<open>m.find(b"\r\n", start)\<close>.\<close>

definition slice :: "'a list \<Rightarrow> nat \<Rightarrow> nat \<Rightarrow> 'a list" where
  "slice m a b = take (b - a) (drop a m)"

fun crlf_at :: "bytes \<Rightarrow> nat option" where
  "crlf_at (a # b # r) = (if a = CR \<and> b = LF then Some 0 else map_option Suc (crlf_at (b # r)))"
| "crlf_at _ = None"

definition find_crlf :: "bytes \<Rightarrow> nat \<Rightarrow> nat option" where
  "find_crlf m start = map_option (\<lambda>i. start + i) (crlf_at (drop start m))"

definition read_line :: "bytes \<Rightarrow> nat \<Rightarrow> resp_error + bytes \<times> nat" where
  "read_line m start =
     (case find_crlf m start of
        None \<Rightarrow> Inl (IncompleteRESPError (lit ''incomplete RESP line''))
      | Some e \<Rightarrow> Inr (slice m start e, e + length RESP_LINE_ENDING))"

subsection \<open>Frames\<close>

definition parse_array_header :: "bytes \<Rightarrow> nat \<Rightarrow> resp_error + nat \<times> nat" where
  "parse_array_header m start =
     (if length m \<le> start then Inl (IncompleteRESPError (lit ''missing RESP array header''))
      else if slice m start (start + 1) \<noteq> ''*'' then Inl (ProtocolError (lit ''expected RESP array''))
      else
        (case read_line m (start + 1) of
           Inl e \<Rightarrow> Inl e
         | Inr (raw_count, next_index) \<Rightarrow>
             (case py_int_bytes raw_count of
                None \<Rightarrow> Inl (ProtocolError (lit ''invalid RESP array length''))
              | Some count \<Rightarrow>
                  if count < 0
                  then Inl (ProtocolError (lit ''negative RESP array length is not supported''))
                  else Inr (nat count, next_index))))"

definition parse_bulk_string :: "bytes \<Rightarrow> nat \<Rightarrow> resp_error + ustr \<times> nat" where
  "parse_bulk_string m start =
     (if length m \<le> start then Inl (IncompleteRESPError (lit ''missing RESP bulk string header''))
      else if slice m start (start + 1) \<noteq> ''$'' then Inl (ProtocolError (lit ''expected RESP bulk string''))
      else
        (case read_line m (start + 1) of
           Inl e \<Rightarrow> Inl e
         | Inr (raw_length, next_index) \<Rightarrow>
             (case py_int_bytes raw_length of
                None \<Rightarrow> Inl (ProtocolError (lit ''invalid RESP bulk string length''))
              | Some len \<Rightarrow>
                  if len < 0
                  then Inl (ProtocolError (lit ''null bulk strings are not supported in requests''))
                  else
                    (let data_end = next_index + nat len;
                         trailer_end = data_end + length RESP_LINE_ENDING
                     in if length m < trailer_end
                        then Inl (IncompleteRESPError (lit ''incomplete RESP bulk string payload''))
                        else if slice m data_end trailer_end \<noteq> RESP_LINE_ENDING
                        then Inl (ProtocolError (lit ''RESP bulk string payload must end with CRLF''))
                        else
                          (case utf8_decode (slice m next_index data_end) of
                             None \<Rightarrow>
                               Inl (ProtocolError (lit ''RESP bulk string must be valid UTF-8''))
                           | Some token \<Rightarrow> Inr (token, trailer_end))))))"

fun parse_items :: "nat \<Rightarrow> bytes \<Rightarrow> nat \<Rightarrow> resp_error + ustr list \<times> nat" where
  "parse_items 0 m i = Inr ([], i)"
| "parse_items (Suc n) m i =
     (case parse_bulk_string m i of
        Inl e \<Rightarrow> Inl e
      | Inr (token, j) \<Rightarrow>
          (case parse_items n m j of
             Inl e \<Rightarrow> Inl e
           | Inr (tokens, k) \<Rightarrow> Inr (token # tokens, k)))"

definition parse_resp_frame :: "bytes \<Rightarrow> resp_error + ustr list \<times> nat" where
  "parse_resp_frame m =
     (case parse_array_header m 0 of
        Inl e \<Rightarrow> Inl e
      | Inr (item_count, next_index) \<Rightarrow> parse_items item_count m next_index)"

definition parse_resp :: "bytes \<Rightarrow> resp_error + ustr list" where
  "parse_resp m =
     (case parse_resp_frame m of
        Inl e \<Rightarrow> Inl e
      | Inr (command, consumed) \<Rightarrow>
          if consumed \<noteq> length m
          then Inl (ProtocolError (lit ''unexpected trailing data after RESP request''))
          else Inr command)"

subsection \<open>Bounds\<close>

lemma length_line_ending [simp]: "length RESP_LINE_ENDING = 2"
  by (simp add: RESP_LINE_ENDING_def)

lemma crlf_at_bound: "crlf_at m = Some i \<Longrightarrow> i + 2 \<le> length m"
  by (induction m arbitrary: i rule: crlf_at.induct) (auto split: if_splits)

lemma read_line_bounds:
  assumes "read_line m start = Inr (l, j)"
  shows "start + 2 \<le> j \<and> j \<le> length m \<and> start \<le> length m"
proof -
  from assms obtain i where i: "crlf_at (drop start m) = Some i" and j: "j = start + i + 2"
    by (auto simp: read_line_def find_crlf_def split: option.splits)
  have "drop start m \<noteq> []" using i by (cases "drop start m") auto
  then show ?thesis
    using crlf_at_bound [OF i] j by auto
qed

lemma parse_bulk_bounds:
  "parse_bulk_string m i = Inr (t, j) \<Longrightarrow> i < j \<and> j \<le> length m"
  by (auto simp: parse_bulk_string_def Let_def
      split: if_splits sum.splits option.splits dest!: read_line_bounds)

lemma parse_items_bounds:
  "parse_items n m i = Inr (ts, j) \<Longrightarrow> i \<le> length m \<Longrightarrow> i \<le> j \<and> j \<le> length m \<and> length ts = n"
proof (induction n arbitrary: i ts)
  case (Suc n)
  then show ?case
    by (fastforce split: sum.splits dest: parse_bulk_bounds)
qed auto

lemma parse_header_bounds:
  "parse_array_header m i = Inr (n, j) \<Longrightarrow> i < j \<and> j \<le> length m"
  by (auto simp: parse_array_header_def
      split: if_splits sum.splits option.splits dest!: read_line_bounds)

lemma parse_frame_bounds:
  assumes "parse_resp_frame m = Inr (c, n)"
  shows "0 < n" and "n \<le> length m"
proof -
  from assms obtain k j where "parse_array_header m 0 = Inr (k, j)" "parse_items k m j = Inr (c, n)"
    by (auto simp: parse_resp_frame_def split: sum.splits)
  then show "0 < n" "n \<le> length m"
    using parse_header_bounds [of m 0 k j] parse_items_bounds [of k m j c n] by auto
qed

subsection \<open>Incremental parsing\<close>

text \<open>
  The loop of \<open>feed_data\<close>: frames are taken off the buffer until it is empty or needs
  more bytes; a malformed frame raises and stays in the buffer.
\<close>

function drain_frames :: "bytes \<Rightarrow> (resp_error + ustr list list) \<times> bytes" where
  "drain_frames m =
     (if m = [] then (Inr [], [])
      else
        (case parse_resp_frame m of
           Inl (IncompleteRESPError e) \<Rightarrow> (Inr [], m)
         | Inl (ProtocolError e) \<Rightarrow> (Inl (ProtocolError e), m)
         | Inr (command, consumed) \<Rightarrow>
             (case drain_frames (drop consumed m) of
                (Inl e, b) \<Rightarrow> (Inl e, b)
              | (Inr commands, b) \<Rightarrow> (Inr (command # commands), b))))"
  by pat_completeness auto
termination
  by (relation "measure length") (auto dest: parse_frame_bounds)

declare drain_frames.simps [simp del]

definition feed_data :: "bytes \<Rightarrow> bytes \<Rightarrow> (resp_error + ustr list list) \<times> bytes" where
  "feed_data chunk buffer = drain_frames (buffer @ chunk)"

definition reset_parser :: "bytes \<Rightarrow> bytes" where
  "reset_parser buffer = []"

subsection \<open>The verdict on a buffer is final\<close>

text \<open>
  \<open>settled r r'\<close>: if the first answer is not a request for more bytes, the second one
  is the same.
\<close>

definition settled :: "resp_error + 'a \<Rightarrow> resp_error + 'a \<Rightarrow> bool" where
  "settled r r' \<longleftrightarrow> (\<exists>e. r = Inl (IncompleteRESPError e)) \<or> r' = r"

lemma settled_refl [simp, intro]: "settled r r"
  by (simp add: settled_def)

lemma settled_incomplete [simp]: "settled (Inl (IncompleteRESPError e)) r"
  by (simp add: settled_def)

lemma settled_bind:
  assumes "settled r r'" and "\<And>v. r = Inr v \<Longrightarrow> settled (f v) (f' v)"
  shows "settled (case r of Inl e \<Rightarrow> Inl e | Inr v \<Rightarrow> f v) (case r' of Inl e \<Rightarrow> Inl e | Inr v \<Rightarrow> f' v)"
  using assms by (auto simp: settled_def split: sum.splits)

lemma crlf_at_append: "crlf_at m = Some i \<Longrightarrow> crlf_at (m @ x) = Some i"
proof (induction m arbitrary: i rule: crlf_at.induct)
  case (1 a b r)
  then show ?case by (auto split: if_splits)
qed auto

lemma slice_append [simp]: "b \<le> length m \<Longrightarrow> slice (m @ x) a b = slice m a b"
  by (simp add: slice_def)

lemma read_line_settled: "settled (read_line m i) (read_line (m @ x) i)"
proof (cases "crlf_at (drop i m)")
  case None
  then show ?thesis by (simp add: read_line_def find_crlf_def)
next
  case (Some k)
  have "crlf_at (drop i (m @ x)) = Some k"
    using crlf_at_append [OF Some] by (cases "i \<le> length m") (use Some in auto)
  moreover have "i + k \<le> length m"
    using crlf_at_bound [OF Some] by auto
  ultimately show ?thesis
    using Some by (simp add: read_line_def find_crlf_def)
qed

lemma parse_header_settled: "settled (parse_array_header m i) (parse_array_header (m @ x) i)"
proof (cases "length m \<le> i")
  case True
  then show ?thesis by (simp add: parse_array_header_def)
next
  case False
  then show ?thesis
    unfolding parse_array_header_def
    by (auto intro!: settled_bind read_line_settled)
qed

lemma parse_bulk_settled: "settled (parse_bulk_string m i) (parse_bulk_string (m @ x) i)"
proof (cases "length m \<le> i")
  case True
  then show ?thesis by (simp add: parse_bulk_string_def)
next
  case False
  then show ?thesis
    unfolding parse_bulk_string_def
    by (auto intro!: settled_bind read_line_settled simp: Let_def split: option.split)
qed

lemma parse_items_settled: "settled (parse_items n m i) (parse_items n (m @ x) i)"
proof (induction n arbitrary: i)
  case (Suc n)
  show ?case
    using Suc parse_bulk_settled
    by (auto intro!: settled_bind)
qed simp

lemma parse_frame_settled: "settled (parse_resp_frame m) (parse_resp_frame (m @ x))"
  unfolding parse_resp_frame_def
  using parse_header_settled parse_items_settled by (auto intro!: settled_bind)

text \<open>So parsing a stream in pieces gives the commands of the whole stream.\<close>

lemma drain_frames_append:
  assumes "drain_frames m = (Inr cs, b)"
  shows "drain_frames (m @ x) =
    (case drain_frames (b @ x) of (Inl e, b') \<Rightarrow> (Inl e, b') | (Inr ds, b') \<Rightarrow> (Inr (cs @ ds), b'))"
  using assms
proof (induction m arbitrary: cs b rule: drain_frames.induct)
  case (1 m)
  show ?case
  proof (cases "parse_resp_frame m")
    case (Inl e)
    then have "cs = []" "b = m"
      using 1(2) by (auto simp: drain_frames.simps [of m] split: if_splits resp_error.splits)
    then show ?thesis by (auto split: prod.split sum.split)
  next
    case (Inr v)
    obtain c n where v: "v = (c, n)" by (cases v)
    show ?thesis
    proof (cases "m = []")
      case True
      then show ?thesis using 1(2) by (auto simp: drain_frames.simps [of "[]"] split: prod.split sum.split)
    next
      case False
      then obtain ds where ds: "drain_frames (drop n m) = (Inr ds, b)" "cs = c # ds"
        using 1(2) Inr v by (auto simp: drain_frames.simps [of m] split: prod.splits sum.splits)
      have n: "n \<le> length m" using parse_frame_bounds Inr v by simp
      have "parse_resp_frame (m @ x) = Inr (c, n)"
        using parse_frame_settled [of m x] Inr v by (auto simp: settled_def)
      then have "drain_frames (m @ x) =
          (case drain_frames (drop n m @ x) of
             (Inl e, b) \<Rightarrow> (Inl e, b) | (Inr es, b) \<Rightarrow> (Inr (c # es), b))"
        using False n by (subst drain_frames.simps) simp
      then show ?thesis
        using 1(1) [OF False Inr v [symmetric] ds(1)] ds(2) by (auto split: prod.split sum.split)
    qed
  qed
qed

lemma drain_frames_error_append:
  assumes "drain_frames m = (Inl e, b)"
  shows "drain_frames (m @ x) = (Inl e, b @ x)"
  using assms
proof (induction m arbitrary: b rule: drain_frames.induct)
  case (1 m)
  have ne: "m \<noteq> []" using 1(2) by (auto simp: drain_frames.simps [of m])
  show ?case
  proof (cases "parse_resp_frame m")
    case (Inl e')
    then have "e' = e" "b = m" "\<forall>t. e \<noteq> IncompleteRESPError t"
      using 1(2) ne by (auto simp: drain_frames.simps [of m] split: resp_error.splits)
    moreover then have "parse_resp_frame (m @ x) = Inl e"
      using parse_frame_settled [of m x] Inl by (auto simp: settled_def)
    ultimately show ?thesis
      using ne by (cases e) (simp_all add: drain_frames.simps [of "m @ x"])
  next
    case (Inr v)
    obtain c n where v: "v = (c, n)" by (cases v)
    have n: "n \<le> length m" using parse_frame_bounds Inr v by simp
    have "drain_frames (drop n m) = (Inl e, b)"
      using 1(2) ne Inr v by (auto simp: drain_frames.simps [of m] split: prod.splits sum.splits)
    moreover have "parse_resp_frame (m @ x) = Inr (c, n)"
      using parse_frame_settled [of m x] Inr v by (auto simp: settled_def)
    ultimately show ?thesis
      using 1(1) [OF ne Inr v [symmetric]] ne n by (simp add: drain_frames.simps [of "m @ x"])
  qed
qed

end
