(* ===== verification/Resp_Encoder.thy ===== *)
theory Resp_Encoder
  imports Commands Resp_Parser
begin

section \<open>RESP replies (\<open>protocol/resp_encoder.py\<close>)\<close>

text \<open>
  A reply is text: a simple string, an error line, an integer, a bulk string or an array of
  scalars. Line values with a carriage return or a line feed are refused; the length of a
  bulk string is the length of its UTF-8 form, so a text with a lone surrogate cannot be
  sent; an integer of more than 4300 digits cannot be printed.
\<close>

definition ENCODER_LINE_ENDING :: ustr where
  "ENCODER_LINE_ENDING = [13, 10]"

definition validate_single_line :: "ustr \<Rightarrow> py_error + unit" where
  "validate_single_line message =
     (if 13 \<in> set message \<or> 10 \<in> set message
      then Inl (ValueError (lit ''RESP line values must not contain CR or LF characters.''))
      else Inr ())"

definition encode_simple_string :: "ustr \<Rightarrow> py_error + ustr" where
  "encode_simple_string message =
     (case validate_single_line message of
        Inl e \<Rightarrow> Inl e
      | Inr _ \<Rightarrow> Inr (lit ''+'' @ message @ ENCODER_LINE_ENDING))"

definition encode_bulk_string :: "ustr option \<Rightarrow> py_error + ustr" where
  "encode_bulk_string message =
     (case message of
        None \<Rightarrow> Inr (lit ''$-1'' @ ENCODER_LINE_ENDING)
      | Some m \<Rightarrow>
          (case utf8_encode m of
             None \<Rightarrow> Inl UnicodeEncodeError
           | Some b \<Rightarrow>
               Inr (lit ''$'' @ nat_str (length b) @ ENCODER_LINE_ENDING @ m @ ENCODER_LINE_ENDING)))"

text \<open>Formatting an integer raises when it has more digits than the interpreter allows.\<close>

definition too_many_digits :: py_error where
  "too_many_digits = ValueError (lit ''Exceeds the limit (4300 digits) for integer string conversion; use sys.set_int_max_str_digits() to increase the limit'')"

definition encode_integer :: "int \<Rightarrow> py_error + ustr" where
  "encode_integer n =
     (if int_max_str_digits < length (nat_str (nat \<bar>n\<bar>)) then Inl too_many_digits
      else Inr (lit '':'' @ int_str n @ ENCODER_LINE_ENDING))"

definition encode_array_item :: "resp_scalar \<Rightarrow> py_error + ustr" where
  "encode_array_item item =
     (case item of
        SInt n \<Rightarrow> encode_integer n
      | SStr s \<Rightarrow> encode_bulk_string (Some s)
      | SNone \<Rightarrow> encode_bulk_string None)"

fun encode_items :: "resp_scalar list \<Rightarrow> py_error + ustr" where
  "encode_items [] = Inr []"
| "encode_items (item # items) =
     (case encode_array_item item of
        Inl e \<Rightarrow> Inl e
      | Inr t \<Rightarrow> (case encode_items items of Inl e \<Rightarrow> Inl e | Inr ts \<Rightarrow> Inr (t @ ts)))"

definition encode_array :: "resp_scalar list \<Rightarrow> py_error + ustr" where
  "encode_array items =
     (case encode_items items of
        Inl e \<Rightarrow> Inl e
      | Inr body \<Rightarrow> Inr (lit ''*'' @ nat_str (length items) @ ENCODER_LINE_ENDING @ body))"

definition encode_error :: "ustr \<Rightarrow> py_error + ustr" where
  "encode_error message =
     (case validate_single_line message of
        Inl e \<Rightarrow> Inl e
      | Inr _ \<Rightarrow> Inr (lit ''-ERR '' @ message @ ENCODER_LINE_ENDING))"

subsection \<open>When encoding succeeds\<close>

definition single_line :: "ustr \<Rightarrow> bool" where
  "single_line s \<longleftrightarrow> 13 \<notin> set s \<and> 10 \<notin> set s"

lemma validate_single_line_ok [simp]:
  "validate_single_line s = (if single_line s then Inr () else
     Inl (ValueError (lit ''RESP line values must not contain CR or LF characters.'')))"
  by (auto simp: validate_single_line_def single_line_def)

lemma encode_error_ok: "single_line s \<Longrightarrow> encode_error s = Inr (lit ''-ERR '' @ s @ ENCODER_LINE_ENDING)"
  by (simp add: encode_error_def)

definition scalar_ok :: "resp_scalar \<Rightarrow> bool" where
  "scalar_ok v =
     (case v of
        SInt n \<Rightarrow> length (nat_str (nat \<bar>n\<bar>)) \<le> int_max_str_digits
      | SStr s \<Rightarrow> list_all scalar s
      | SNone \<Rightarrow> True)"

lemma utf8_encode_None: "utf8_encode s = None \<longleftrightarrow> \<not> list_all scalar s"
  by (simp add: utf8_encode_def)

lemma encode_item_ok: "(\<exists>t. encode_array_item v = Inr t) \<longleftrightarrow> scalar_ok v"
  by (cases v) (auto simp: encode_array_item_def encode_integer_def encode_bulk_string_def scalar_ok_def
      utf8_encode_None not_less split: option.split, metis option.distinct(1) utf8_encode_None)

lemma encode_items_ok: "(\<exists>t. encode_items vs = Inr t) \<longleftrightarrow> list_all scalar_ok vs"
proof (induction vs)
  case (Cons v vs)
  then show ?case
    using encode_item_ok [of v] by (auto split: sum.splits)
qed simp

end
