(* ===== verification/Server.thy ===== *)
theory Server
  imports Command_Laws Resp_Encoder
begin

section \<open>The TCP server (\<open>server/server.py\<close>)\<close>

text \<open>
  One connection: bytes are appended to a buffer, every complete request in the buffer is
  executed and answered in order, a malformed one is answered with an error and empties the
  buffer. How a command is executed is an argument (\<open>exec\<close>, on a world \<open>'w\<close> that
  holds the store and the clock); the message texts of exceptions raised inside the Python
  library are an argument as well (\<open>lib_text\<close>), since they are not in the sources.
\<close>

subsection \<open>Replies\<close>

definition class_name :: "py_error \<Rightarrow> ustr" where
  "class_name e =
     (case e of
        ValueError _ \<Rightarrow> lit ''ValueError''
      | TypeError _ \<Rightarrow> lit ''TypeError''
      | AttributeError _ \<Rightarrow> lit ''AttributeError''
      | OverflowError \<Rightarrow> lit ''OverflowError''
      | UnicodeEncodeError \<Rightarrow> lit ''UnicodeEncodeError''
      | JSONDecodeError \<Rightarrow> lit ''JSONDecodeError''
      | CommandError _ \<Rightarrow> lit ''CommandError''
      | UnknownCommandError _ \<Rightarrow> lit ''UnknownCommandError''
      | WrongNumberOfArgumentsError _ \<Rightarrow> lit ''WrongNumberOfArgumentsError'')"

definition error_str :: "(py_error \<Rightarrow> ustr) \<Rightarrow> py_error \<Rightarrow> ustr" where
  "error_str lib_text e =
     (case e of
        ValueError m \<Rightarrow> m
      | TypeError m \<Rightarrow> m
      | AttributeError m \<Rightarrow> m
      | CommandError m \<Rightarrow> m
      | UnknownCommandError m \<Rightarrow> m
      | WrongNumberOfArgumentsError m \<Rightarrow> m
      | _ \<Rightarrow> lib_text e)"

definition format_error_message :: "ustr \<Rightarrow> ustr \<Rightarrow> ustr" where
  "format_error_message cls str =
     (let message = (if py_strip str = [] then cls else py_strip str)
      in py_replace1 10 32 (py_replace1 13 32 message))"

definition encode_result_value :: "command_result \<Rightarrow> py_error + ustr" where
  "encode_result_value result =
     (case result of
        Items items \<Rightarrow> encode_array items
      | Scalar (SInt n) \<Rightarrow> encode_integer n
      | Scalar (SStr s) \<Rightarrow> encode_bulk_string (Some s)
      | Scalar SNone \<Rightarrow> encode_bulk_string None)"

definition SIMPLE_STRING_COMMANDS :: "ustr list" where
  "SIMPLE_STRING_COMMANDS = [lit ''SET'']"

definition encode_command_result :: "ustr list \<Rightarrow> command_result \<Rightarrow> py_error + ustr" where
  "encode_command_result command result =
     (if command = [] \<or> hd command = [] then Inl (ValueError (lit ''empty command''))
      else
        (let command_name = py_upper (hd command)
         in if command_name \<in> set SIMPLE_STRING_COMMANDS
            then (case result of
                    Scalar (SStr s) \<Rightarrow> encode_simple_string s
                  | _ \<Rightarrow> Inl (TypeError (command_name @ lit '' must return a string result'')))
            else encode_result_value result))"

definition error_response :: "(py_error \<Rightarrow> ustr) \<Rightarrow> py_error \<Rightarrow> py_error + ustr" where
  "error_response lib_text e =
     encode_error (format_error_message (class_name e) (error_str lib_text e))"

definition command_response ::
  "(py_error \<Rightarrow> ustr) \<Rightarrow> ustr list \<Rightarrow> py_error + command_result \<Rightarrow> py_error + ustr" where
  "command_response lib_text command outcome =
     (case outcome of
        Inl e \<Rightarrow> error_response lib_text e
      | Inr result \<Rightarrow>
          (case encode_command_result command result of
             Inl e \<Rightarrow> error_response lib_text e
           | Inr response \<Rightarrow> Inr response))"

text \<open>
  The bytes that are written; \<open>None\<close> when no response could be built or it has no UTF-8
  form, in which case the exception ends the connection.
\<close>

definition send_response :: "py_error + ustr \<Rightarrow> bytes option" where
  "send_response response = (case response of Inl e \<Rightarrow> None | Inr text \<Rightarrow> utf8_encode text)"

subsection \<open>The inner loop\<close>

record 'w served =
  sent :: "bytes list"
  buffered :: bytes
  world :: 'w
  alive :: bool

function serve_buffer ::
  "(ustr list \<Rightarrow> 'w \<Rightarrow> (py_error + command_result) \<times> 'w) \<Rightarrow>
   ('w \<Rightarrow> ustr list \<Rightarrow> py_error \<Rightarrow> ustr) \<Rightarrow> bytes \<Rightarrow> 'w \<Rightarrow> 'w served" where
  "serve_buffer exec lib_text buffer w =
     (if buffer = [] then \<lparr>sent = [], buffered = [], world = w, alive = True\<rparr>
      else
        (case parse_resp_frame buffer of
           Inl (IncompleteRESPError t) \<Rightarrow> \<lparr>sent = [], buffered = buffer, world = w, alive = True\<rparr>
         | Inl (ProtocolError t) \<Rightarrow>
             (case send_response (encode_error (format_error_message (lit ''ProtocolError'') t)) of
                None \<Rightarrow> \<lparr>sent = [], buffered = buffer, world = w, alive = False\<rparr>
              | Some b \<Rightarrow> \<lparr>sent = [b], buffered = [], world = w, alive = True\<rparr>)
         | Inr (command, consumed) \<Rightarrow>
             (case exec command w of
                (outcome, w1) \<Rightarrow>
                  (case send_response (command_response (lib_text w command) command outcome) of
                     None \<Rightarrow> \<lparr>sent = [], buffered = buffer, world = w1, alive = False\<rparr>
                   | Some b \<Rightarrow>
                       (let r = serve_buffer exec lib_text (drop consumed buffer) w1
                        in r\<lparr>sent := b # sent r\<rparr>)))))"
  by pat_completeness auto
termination
  by (relation "measure (\<lambda>(_, _, buffer, _). length buffer)") (auto dest: parse_frame_bounds)

declare serve_buffer.simps [simp del]

text \<open>
  \<open>handle_client\<close>: what each turn of the outer loop meets. Everything but a non-empty
  chunk of data ends the connection.
\<close>

datatype turn = Stopped | Reset | SocketError | Received bytes

fun handle_client ::
  "(ustr list \<Rightarrow> 'w \<Rightarrow> (py_error + command_result) \<times> 'w) \<Rightarrow>
   ('w \<Rightarrow> ustr list \<Rightarrow> py_error \<Rightarrow> ustr) \<Rightarrow> turn list \<Rightarrow> bytes \<Rightarrow> 'w \<Rightarrow> 'w served" where
  "handle_client exec lib_text [] buffer w = \<lparr>sent = [], buffered = buffer, world = w, alive = True\<rparr>"
| "handle_client exec lib_text (Stopped # ts) buffer w =
     \<lparr>sent = [], buffered = buffer, world = w, alive = False\<rparr>"
| "handle_client exec lib_text (Reset # ts) buffer w =
     \<lparr>sent = [], buffered = buffer, world = w, alive = False\<rparr>"
| "handle_client exec lib_text (SocketError # ts) buffer w =
     \<lparr>sent = [], buffered = buffer, world = w, alive = False\<rparr>"
| "handle_client exec lib_text (Received data # ts) buffer w =
     (if data = [] then \<lparr>sent = [], buffered = buffer, world = w, alive = False\<rparr>
      else
        (let r = serve_buffer exec lib_text (buffer @ data) w
         in if \<not> alive r then r
            else
              (let r' = handle_client exec lib_text ts (buffered r) (world r)
               in r'\<lparr>sent := sent r @ sent r'\<rparr>)))"

text \<open>
  The world of the running server: the store, and the number of commands executed so far,
  which tells the time at which the next one runs.
\<close>

definition engine_exec ::
  "(nat \<Rightarrow> rat) \<Rightarrow> ustr list \<Rightarrow> nat \<times> StorageEngine \<Rightarrow>
     (py_error + command_result) \<times> nat \<times> StorageEngine" where
  "engine_exec clock command w =
     (case handle_command (clock (fst w)) command (snd w) of (r, s) \<Rightarrow> (r, (Suc (fst w), s)))"

subsection \<open>Every command gets a reply\<close>

lemma strip_sub: "set (py_strip s) \<subseteq> set s"
  by (auto simp: py_strip_def dest!: set_dropWhileD)

lemma class_name_lit: "\<exists>t. class_name e = lit t"
  by (cases e) (auto simp: class_name_def)

lemma format_single_line: "single_line (format_error_message cls str)"
  by (auto simp: single_line_def format_error_message_def Let_def py_replace1_def)

lemma format_scalar:
  assumes "list_all scalar cls" and "list_all scalar str"
  shows "list_all scalar (format_error_message cls str)"
proof -
  have "scalar 32" by (simp add: scalar_def)
  then show ?thesis
    using assms strip_sub [of str]
    by (auto simp: format_error_message_def Let_def py_replace1_def list_all_iff)
qed

definition error_ok :: "(py_error \<Rightarrow> ustr) \<Rightarrow> py_error \<Rightarrow> bool" where
  "error_ok lib_text e \<longleftrightarrow> list_all scalar (error_str lib_text e)"

lemma error_response_sent:
  assumes "error_ok lib_text e"
  shows "\<exists>b. send_response (error_response lib_text e) = Some b"
proof -
  let ?m = "format_error_message (class_name e) (error_str lib_text e)"
  have "list_all scalar (class_name e)" using class_name_lit [of e] by auto
  then have "list_all scalar (lit ''-ERR '' @ ?m @ ENCODER_LINE_ENDING)"
    using format_scalar [OF _ assms [unfolded error_ok_def]]
    by (simp add: ENCODER_LINE_ENDING_def scalar_def [of 13] scalar_def [of 10])
  then show ?thesis
    using utf8_encode_total
    by (simp add: send_response_def error_response_def encode_error_ok format_single_line)
qed

end
