(* ===== verification/Resp_Wire.thy ===== *)
theory Resp_Wire
  imports Resp_Encoder
begin

section \<open>Reading back what was written\<close>

text \<open>
  Facts about the two line-based formats that the request parser of the server and the reply
  parser of the client share: what \<open>read_line\<close> finds at the start of a line, the decimal
  text of a length, and slices of a buffer that was put together from pieces.
\<close>

definition digits_bytes :: "nat \<Rightarrow> bytes" where
  "digits_bytes n = map char_of (nat_str n)"

definition int_bytes :: "int \<Rightarrow> bytes" where
  "int_bytes i = map char_of (int_str i)"

definition bulk :: "bytes \<Rightarrow> bytes" where
  "bulk b = ''$'' @ digits_bytes (length b) @ RESP_LINE_ENDING @ b @ RESP_LINE_ENDING"

lemma crlf_at_line: "CR \<notin> set l \<Longrightarrow> crlf_at (l @ CR # LF # r) = Some (length l)"
proof (induction l)
  case (Cons a l)
  then show ?case by (cases l) auto
qed simp

lemma find_crlf_line [wire_simps]:
  "CR \<notin> set l \<Longrightarrow> find_crlf (p @ l @ RESP_LINE_ENDING @ r) (length p) = Some (length p + length l)"
  by (simp add: find_crlf_def RESP_LINE_ENDING_def crlf_at_line)

lemma slice_middle [wire_simps]:
  "slice (p @ l @ r) (length p) (length p + length l) = l"
  by (simp add: slice_def)

lemma slice_at: "m = p @ l @ r \<Longrightarrow> i = length p \<Longrightarrow> j = length p + length l \<Longrightarrow> slice m i j = l"
  by (simp add: slice_middle)

lemma slice_skip: "slice (p @ m) (length p + a) (length p + b) = slice m a b"
  by (simp add: slice_def)

lemma slice_start: "slice (l @ r) 0 (length l) = l"
  by (simp add: slice_def)

lemma read_line_line [wire_simps]:
  assumes "CR \<notin> set l"
  shows "read_line (p @ l @ RESP_LINE_ENDING @ r) (length p) = Inr (l, length p + length l + 2)"
  unfolding read_line_def find_crlf_line [OF assms] by (simp add: slice_def)

lemma read_line_at:
  "m = p @ l @ RESP_LINE_ENDING @ r \<Longrightarrow> CR \<notin> set l \<Longrightarrow> i = length p \<Longrightarrow> j = i + length l + 2 \<Longrightarrow>
     read_line m i = Inr (l, j)"
  by (simp add: read_line_line)

lemma byte_digits_of:
  assumes "\<forall>c\<in>set s. c < 128"
  shows "map of_char (map char_of s :: bytes) = (s :: nat list)"
  using assms by (induction s) auto

lemma nat_str_ascii: "\<forall>c\<in>set (nat_str n). 48 \<le> c \<and> c \<le> 57"
  using nat_str_digits [of n] by (auto simp: list_all_iff is_digit_def)

lemma char_of_eq_iff: "a < 256 \<Longrightarrow> b < 256 \<Longrightarrow> (char_of a :: char) = char_of b \<longleftrightarrow> a = (b :: nat)"
  by (metis of_char_of mod_less)

lemma CR_not_digits [simp]: "CR \<notin> set (digits_bytes n)"
proof
  assume "CR \<in> set (digits_bytes n)"
  then obtain c where c: "c \<in> set (nat_str n)" "CR = char_of c" by (auto simp: digits_bytes_def)
  have "of_char CR = (13 :: nat)" by simp
  moreover have "of_char (char_of c :: char) = c" using c nat_str_ascii [of n] by auto
  ultimately have "c = 13" using c(2) by simp
  then show False using c(1) nat_str_ascii [of n] by auto
qed

lemma int_str_bounds: "c \<in> set (int_str i) \<Longrightarrow> 45 \<le> c \<and> c \<le> 57"
  using int_str_ascii [of c i] by (auto simp: is_digit_def)

lemma CR_not_int [simp]: "CR \<notin> set (int_bytes n)"
proof
  assume "CR \<in> set (int_bytes n)"
  then obtain c where c: "c \<in> set (int_str n)" "CR = char_of c" by (auto simp: int_bytes_def)
  have "of_char CR = (13 :: nat)" by simp
  moreover have "of_char (char_of c :: char) = c" using c int_str_bounds [of c n] by auto
  ultimately have "c = 13" using c(2) by simp
  then show False using c(1) int_str_bounds [of c n] by auto
qed

lemma py_int_digits [wire_simps]:
  assumes "printable n"
  shows "py_int_bytes (digits_bytes n) = Some (int n)"
proof -
  have "map of_char (digits_bytes n) = nat_str n"
    unfolding digits_bytes_def by (rule byte_digits_of) (use nat_str_ascii [of n] in auto)
  then show ?thesis using assms by (simp add: py_int_bytes_def int_of_ascii_nat_str)
qed

lemma py_int_int [wire_simps]:
  assumes "length (nat_str (nat \<bar>i\<bar>)) \<le> int_max_str_digits"
  shows "py_int_bytes (int_bytes i) = Some i"
proof -
  have "map of_char (int_bytes i) = int_str i"
    unfolding int_bytes_def by (rule byte_digits_of) (fastforce dest: int_str_bounds)
  then show ?thesis
    using assms by (simp add: py_int_bytes_def printable_iff int_of_ascii_int_str)
qed

subsection \<open>Bulk strings and the text of numbers\<close>

lemma utf8_digits [wire_simps]: "utf8_encode (nat_str n) = Some (digits_bytes n)"
  unfolding digits_bytes_def
  by (rule utf8_encode_ascii) (use nat_str_ascii [of n] in \<open>force simp: list_all_iff\<close>)

lemma utf8_int [wire_simps]: "utf8_encode (int_str i) = Some (int_bytes i)"
  unfolding int_bytes_def
  by (rule utf8_encode_ascii) (fastforce simp: list_all_iff dest: int_str_bounds)

lemma utf8_line_ending [wire_simps]: "utf8_encode ENCODER_LINE_ENDING = Some RESP_LINE_ENDING"
  using utf8_encode_lit [of RESP_LINE_ENDING]
  by (simp add: ENCODER_LINE_ENDING_def RESP_LINE_ENDING_def ascii_def lit_def)

lemma encode_bulk_wire:
  assumes "utf8_encode s = Some b"
  shows "encode_bulk_string (Some s) =
      Inr (lit ''$'' @ nat_str (length b) @ ENCODER_LINE_ENDING @ s @ ENCODER_LINE_ENDING)"
    and "utf8_encode (lit ''$'' @ nat_str (length b) @ ENCODER_LINE_ENDING @ s @ ENCODER_LINE_ENDING) =
      Some (bulk b)"
proof -
  have d: "utf8_encode (lit ''$'') = Some ''$''" by (rule utf8_encode_lit) (simp add: ascii_def)
  show "utf8_encode (lit ''$'' @ nat_str (length b) @ ENCODER_LINE_ENDING @ s @ ENCODER_LINE_ENDING) =
      Some (bulk b)"
    unfolding bulk_def
    by (intro utf8_encode_append d utf8_digits utf8_line_ending assms)
qed (simp add: encode_bulk_string_def assms)

lemma parse_bulk_bulk:
  assumes "utf8_decode b = Some t" and "printable (length b)"
  shows "parse_bulk_string (p @ bulk b @ r) (length p) = Inr (t, length p + length (bulk b))"
proof -
  let ?d = "digits_bytes (length b)"
  let ?m = "p @ bulk b @ r"
  have line: "read_line ?m (length p + 1) = Inr (?d, length p + length ?d + 3)"
    by (rule read_line_at [where p = "p @ ''$''" and r = "b @ RESP_LINE_ENDING @ r"])
      (simp_all add: bulk_def)
  have head: "slice ?m (length p) (length p + 1) = ''$''"
    by (rule slice_at [where p = p]) (simp_all add: bulk_def)
  have payload: "slice ?m (length p + length ?d + 3) (length p + length ?d + 3 + length b) = b"
    by (rule slice_at [where p = "p @ ''$'' @ ?d @ RESP_LINE_ENDING"]) (simp_all add: bulk_def)
  have trailer: "slice ?m (length p + length ?d + 3 + length b)
      (5 + (length p + (length ?d + length b))) = RESP_LINE_ENDING"
    by (rule slice_at [where p = "p @ ''$'' @ ?d @ RESP_LINE_ENDING @ b"]) (simp_all add: bulk_def)
  have len: "length (bulk b) = length ?d + 5 + length b" by (simp add: bulk_def)
  show ?thesis
    unfolding parse_bulk_string_def line head
    using assms by (simp add: py_int_digits payload trailer len Let_def)
qed

lemma length_bulk_pos [simp]: "bulk b \<noteq> []"
  by (simp add: bulk_def)

end
