(* ===== verification/Redis_Client.thy ===== *)
theory Redis_Client
  imports Resp_Wire
begin

section \<open>The RESP client of the orchestration API (\<open>app_server/redis_client.py\<close>)\<close>

text \<open>
  The client writes a command as an array of bulk strings, reads one reply from the socket
  in chunks and decodes it. A reply may be an array of replies; the recursion of
  \<open>parse_resp_reply\<close> is bounded by the interpreter, so the depth that is left is an
  argument and running out of it is \<open>RecursionError\<close>. What the socket does (connecting,
  sending, the chunks received and the error that ends them) is an argument of
  \<open>execute\<close>, once for the first attempt and once for the retry.
\<close>

subsection \<open>Exceptions and replies (\<open>app_server/exceptions.py\<close>)\<close>

datatype app_error =
    NotFoundError ustr
  | ConflictError ustr
  | UpstreamError ustr

datatype client_exn =
    AppServerError app_error
  | RESPReplyError ustr
  | IncompleteRESPReplyError ustr
  | UnicodeDecodeError
  | OSError ustr
  | RecursionError
  | RequestEncodeError
  | DateOverflowError

datatype resp_reply = RStr ustr | RInt int | RNone | RList "resp_reply list"

subsection \<open>Requests\<close>

fun encode_tokens :: "ustr list \<Rightarrow> bytes option" where
  "encode_tokens [] = Some []"
| "encode_tokens (token # tokens) =
     (case utf8_encode token of
        None \<Rightarrow> None
      | Some encoded \<Rightarrow>
          (case encode_tokens tokens of
             None \<Rightarrow> None
           | Some rest \<Rightarrow>
               Some (''$'' @ digits_bytes (length encoded) @ RESP_LINE_ENDING @
                 encoded @ RESP_LINE_ENDING @ rest)))"

definition encode_command :: "ustr list \<Rightarrow> bytes option" where
  "encode_command tokens =
     (case encode_tokens tokens of
        None \<Rightarrow> None
      | Some body \<Rightarrow> Some (''*'' @ digits_bytes (length tokens) @ RESP_LINE_ENDING @ body))"

subsection \<open>Replies\<close>

definition reply_line :: "bytes \<Rightarrow> nat \<Rightarrow> client_exn + bytes \<times> nat" where
  "reply_line m start =
     (case find_crlf m start of
        None \<Rightarrow> Inl (IncompleteRESPReplyError (lit ''incomplete RESP reply line''))
      | Some e \<Rightarrow> Inr (slice m start e, e + length RESP_LINE_ENDING))"

definition decode_utf8 :: "bytes \<Rightarrow> client_exn + ustr" where
  "decode_utf8 b = (case utf8_decode b of None \<Rightarrow> Inl UnicodeDecodeError | Some s \<Rightarrow> Inr s)"

fun parse_values ::
  "(bytes \<Rightarrow> nat \<Rightarrow> client_exn + resp_reply \<times> nat) \<Rightarrow> nat \<Rightarrow> bytes \<Rightarrow> nat \<Rightarrow>
     client_exn + resp_reply list \<times> nat" where
  "parse_values parse 0 m i = Inr ([], i)"
| "parse_values parse (Suc n) m i =
     (case parse m i of
        Inl e \<Rightarrow> Inl e
      | Inr (v, j) \<Rightarrow>
          (case parse_values parse n m j of
             Inl e \<Rightarrow> Inl e
           | Inr (vs, k) \<Rightarrow> Inr (v # vs, k)))"

definition parse_simple_reply :: "bytes \<Rightarrow> nat \<Rightarrow> client_exn + resp_reply \<times> nat" where
  "parse_simple_reply m start =
     (case reply_line m (start + 1) of
        Inl e \<Rightarrow> Inl e
      | Inr (payload, next_index) \<Rightarrow>
          (case decode_utf8 payload of Inl e \<Rightarrow> Inl e | Inr s \<Rightarrow> Inr (RStr s, next_index)))"

definition parse_error_reply :: "bytes \<Rightarrow> nat \<Rightarrow> client_exn + resp_reply \<times> nat" where
  "parse_error_reply m start =
     (case reply_line m (start + 1) of
        Inl e \<Rightarrow> Inl e
      | Inr (payload, _) \<Rightarrow>
          (case decode_utf8 payload of
             Inl e \<Rightarrow> Inl e
           | Inr s \<Rightarrow> Inl (AppServerError (ConflictError s))))"

definition parse_integer_reply :: "bytes \<Rightarrow> nat \<Rightarrow> client_exn + resp_reply \<times> nat" where
  "parse_integer_reply m start =
     (case reply_line m (start + 1) of
        Inl e \<Rightarrow> Inl e
      | Inr (payload, next_index) \<Rightarrow>
          (case py_int_bytes payload of
             None \<Rightarrow> Inl (RESPReplyError (lit ''invalid RESP integer reply''))
           | Some n \<Rightarrow> Inr (RInt n, next_index)))"

definition parse_bulk_reply :: "bytes \<Rightarrow> nat \<Rightarrow> client_exn + resp_reply \<times> nat" where
  "parse_bulk_reply m start =
     (case reply_line m (start + 1) of
        Inl e \<Rightarrow> Inl e
      | Inr (raw_length, next_index) \<Rightarrow>
          (case py_int_bytes raw_length of
             None \<Rightarrow> Inl (RESPReplyError (lit ''invalid RESP bulk string length''))
           | Some len \<Rightarrow>
               if len = -1 then Inr (RNone, next_index)
               else if len < -1 then Inl (RESPReplyError (lit ''invalid RESP bulk string length''))
               else
                 (let data_end = next_index + nat len;
                      trailer_end = data_end + length RESP_LINE_ENDING
                  in if length m < trailer_end
                     then Inl (IncompleteRESPReplyError (lit ''incomplete RESP bulk string reply''))
                     else if slice m data_end trailer_end \<noteq> RESP_LINE_ENDING
                     then Inl (RESPReplyError (lit ''RESP bulk string reply must end with CRLF''))
                     else
                       (case decode_utf8 (slice m next_index data_end) of
                          Inl e \<Rightarrow> Inl e
                        | Inr s \<Rightarrow> Inr (RStr s, trailer_end)))))"

definition parse_array_reply ::
  "(bytes \<Rightarrow> nat \<Rightarrow> client_exn + resp_reply \<times> nat) \<Rightarrow> bytes \<Rightarrow> nat \<Rightarrow>
     client_exn + resp_reply \<times> nat" where
  "parse_array_reply parse m start =
     (case reply_line m (start + 1) of
        Inl e \<Rightarrow> Inl e
      | Inr (raw_count, next_index) \<Rightarrow>
          (case py_int_bytes raw_count of
             None \<Rightarrow> Inl (RESPReplyError (lit ''invalid RESP array length''))
           | Some count \<Rightarrow>
               if count < 0 then Inl (RESPReplyError (lit ''negative RESP arrays are not supported''))
               else
                 (case parse_values parse (nat count) m next_index of
                    Inl e \<Rightarrow> Inl e
                  | Inr (vs, j) \<Rightarrow> Inr (RList vs, j))))"

primrec parse_resp_reply :: "nat \<Rightarrow> bytes \<Rightarrow> nat \<Rightarrow> client_exn + resp_reply \<times> nat" where
  "parse_resp_reply 0 m start = Inl RecursionError"
| "parse_resp_reply (Suc depth) m start =
     (if length m \<le> start then Inl (IncompleteRESPReplyError (lit ''missing RESP reply type''))
      else
        (let prefix = slice m start (start + 1)
         in if prefix = ''+'' then parse_simple_reply m start
            else if prefix = ''-'' then parse_error_reply m start
            else if prefix = '':'' then parse_integer_reply m start
            else if prefix = ''$'' then parse_bulk_reply m start
            else if prefix = ''*'' then parse_array_reply (parse_resp_reply depth) m start
            else Inl (RESPReplyError (lit ''unsupported RESP reply type''))))"

subsection \<open>One exchange over the socket\<close>

text \<open>
  \<open>received\<close> are the chunks that \<open>recv\<close> returns, an empty one being the end of the
  stream; when they run out, \<open>recv\<close> raises the error \<open>recv_error\<close> (a timeout is one).
\<close>

record attempt =
  connect_error :: "ustr option"
  send_error :: "ustr option"
  received :: "bytes list"
  recv_error :: ustr

fun read_reply :: "nat \<Rightarrow> ustr \<Rightarrow> bytes list \<Rightarrow> bytes \<Rightarrow> (client_exn + resp_reply) \<times> bool" where
  "read_reply depth err [] buffer = (Inl (OSError err), True)"
| "read_reply depth err (chunk # chunks) buffer =
     (if chunk = []
      then (Inl (AppServerError (UpstreamError (lit ''Redis closed the connection before replying''))),
            False)
      else
        (let buffer1 = buffer @ chunk
         in case parse_resp_reply depth buffer1 0 of
              Inl (IncompleteRESPReplyError t) \<Rightarrow> read_reply depth err chunks buffer1
            | Inl e \<Rightarrow> (Inl e, True)
            | Inr (v, consumed) \<Rightarrow>
                if consumed \<noteq> length buffer1
                then (Inl (AppServerError (UpstreamError
                       (lit ''Redis reply contained unexpected trailing data''))), True)
                else (Inr v, True)))"

definition send_and_read :: "nat \<Rightarrow> attempt \<Rightarrow> (client_exn + resp_reply) \<times> bool" where
  "send_and_read depth a =
     (case send_error a of
        Some t \<Rightarrow> (Inl (OSError t), True)
      | None \<Rightarrow> read_reply depth (recv_error a) (received a) [])"

definition ensure_connection :: "attempt \<Rightarrow> bool \<Rightarrow> (client_exn + unit) \<times> bool" where
  "ensure_connection a conn =
     (if conn then (Inr (), True)
      else
        (case connect_error a of
           Some t \<Rightarrow> (Inl (OSError t), False)
         | None \<Rightarrow> (Inr (), True)))"

text \<open>\<open>_close_connection\<close>, which \<open>close\<close> calls too; an error of the socket's own
  \<open>close\<close> is dropped.\<close>

definition close_connection :: "bool \<Rightarrow> bool" where
  "close_connection conn = (if \<not> conn then conn else False)"

lemma close_connection_closes [simp]: "close_connection conn = False"
  by (simp add: close_connection_def)

definition client_attempts ::
  "nat \<Rightarrow> attempt \<Rightarrow> attempt \<Rightarrow> bool \<Rightarrow> (client_exn + resp_reply) \<times> bool" where
  "client_attempts depth first retry conn =
     (case ensure_connection first conn of
        (Inl e, c) \<Rightarrow> (Inl e, c)
      | (Inr _, _) \<Rightarrow>
          (case send_and_read depth first of
             (Inl (OSError t), _) \<Rightarrow>
               (case ensure_connection retry (close_connection True) of
                  (Inl e, c) \<Rightarrow> (Inl e, c)
                | (Inr _, _) \<Rightarrow> send_and_read depth retry)
           | r \<Rightarrow> r))"

definition execute_error :: "client_exn \<Rightarrow> client_exn" where
  "execute_error e =
     (case e of
        OSError t \<Rightarrow> AppServerError (UpstreamError (lit ''Redis connection failed: '' @ t))
      | UnicodeDecodeError \<Rightarrow> AppServerError (UpstreamError (lit ''Redis returned non-UTF8 data''))
      | RESPReplyError t \<Rightarrow> AppServerError (UpstreamError (lit ''Invalid Redis reply: '' @ t))
      | IncompleteRESPReplyError t \<Rightarrow> AppServerError (UpstreamError (lit ''Invalid Redis reply: '' @ t))
      | _ \<Rightarrow> e)"

text \<open>What the socket does depends on the request that is written to it.\<close>

definition client_execute ::
  "nat \<Rightarrow> (bytes \<Rightarrow> attempt) \<Rightarrow> (bytes \<Rightarrow> attempt) \<Rightarrow> ustr list \<Rightarrow> bool \<Rightarrow>
     (client_exn + resp_reply) \<times> bool" where
  "client_execute depth first retry tokens conn =
     (case encode_command tokens of
        None \<Rightarrow> (Inl RequestEncodeError, conn)
      | Some request \<Rightarrow>
          (case client_attempts depth (first request) (retry request) conn of
             (Inl e, c) \<Rightarrow> (Inl (execute_error e), c)
           | (Inr v, c) \<Rightarrow> (Inr v, c)))"

subsection \<open>Typed replies\<close>

record SeatCommandResult =
  cmd_success :: bool
  cmd_state :: ustr
  cmd_user_id :: "ustr option"
  cmd_ttl :: int

record QueueJoinResult =
  joined :: bool
  join_position :: int
  join_queue_length :: int

record QueuePositionResult =
  pos_position :: int
  pos_queue_length :: int

record QueueFrontResult =
  front_user_id :: "ustr option"
  front_queue_length :: int

record QueueLeaveResult =
  removed :: bool
  previous_position :: int
  leave_queue_length :: int

definition upstream :: "ustr \<Rightarrow> client_exn" where
  "upstream t = AppServerError (UpstreamError t)"

definition expect_array :: "resp_reply \<Rightarrow> nat \<Rightarrow> client_exn + resp_reply list" where
  "expect_array v n =
     (case v of
        RList vs \<Rightarrow>
          if length vs \<noteq> n
          then Inl (upstream (lit ''Redis array reply must contain '' @ nat_str n @ lit '' items''))
          else Inr vs
      | _ \<Rightarrow> Inl (upstream (lit ''Redis reply must be an array'')))"

definition expect_string :: "resp_reply \<Rightarrow> ustr \<Rightarrow> client_exn + ustr" where
  "expect_string v label =
     (case v of
        RStr s \<Rightarrow> Inr s
      | _ \<Rightarrow> Inl (upstream (lit ''Redis '' @ label @ lit '' must be a string'')))"

definition expect_optional_string :: "resp_reply \<Rightarrow> ustr \<Rightarrow> client_exn + ustr option" where
  "expect_optional_string v label =
     (case v of
        RNone \<Rightarrow> Inr None
      | RStr s \<Rightarrow> Inr (Some s)
      | _ \<Rightarrow> Inl (upstream (lit ''Redis '' @ label @ lit '' must be a string or null'')))"

definition expect_int :: "resp_reply \<Rightarrow> ustr \<Rightarrow> client_exn + int" where
  "expect_int v label =
     (case v of
        RInt n \<Rightarrow> Inr n
      | _ \<Rightarrow> Inl (upstream (lit ''Redis '' @ label @ lit '' must be an integer'')))"

text \<open>The steps of a method that may raise, one after the other.\<close>

definition and_then :: "'e + 'a \<Rightarrow> ('a \<Rightarrow> 'e + 'b) \<Rightarrow> 'e + 'b" where
  "and_then r f = (case r of Inl e \<Rightarrow> Inl e | Inr v \<Rightarrow> f v)"

definition decode_seat_command :: "resp_reply list \<Rightarrow> client_exn + SeatCommandResult" where
  "decode_seat_command vs =
     and_then (expect_int (vs ! 0) (lit ''seat success flag'')) (\<lambda>success.
     and_then (expect_string (vs ! 1) (lit ''seat state'')) (\<lambda>state.
     and_then (expect_optional_string (vs ! 2) (lit ''seat user_id'')) (\<lambda>user.
     and_then (expect_int (vs ! 3) (lit ''seat ttl'')) (\<lambda>ttl.
       Inr \<lparr>cmd_success = (success \<noteq> 0), cmd_state = state, cmd_user_id = user, cmd_ttl = ttl\<rparr>))))"

definition decode_seat_status :: "resp_reply list \<Rightarrow> client_exn + SeatStatus" where
  "decode_seat_status vs =
     and_then (expect_string (vs ! 0) (lit ''seat state'')) (\<lambda>state.
     and_then (expect_optional_string (vs ! 1) (lit ''seat user_id'')) (\<lambda>user.
     and_then (expect_int (vs ! 2) (lit ''seat ttl'')) (\<lambda>ttl.
       Inr (mk_status state user ttl))))"

definition decode_queue_join :: "resp_reply list \<Rightarrow> client_exn + QueueJoinResult" where
  "decode_queue_join vs =
     and_then (expect_int (vs ! 0) (lit ''joined flag'')) (\<lambda>j.
     and_then (expect_int (vs ! 1) (lit ''queue position'')) (\<lambda>p.
     and_then (expect_int (vs ! 2) (lit ''queue length'')) (\<lambda>n.
       Inr \<lparr>joined = (j \<noteq> 0), join_position = p, join_queue_length = n\<rparr>)))"

definition decode_queue_position :: "resp_reply list \<Rightarrow> client_exn + QueuePositionResult" where
  "decode_queue_position vs =
     and_then (expect_int (vs ! 0) (lit ''queue position'')) (\<lambda>p.
     and_then (expect_int (vs ! 1) (lit ''queue length'')) (\<lambda>n.
       Inr \<lparr>pos_position = p, pos_queue_length = n\<rparr>))"

definition decode_queue_leave :: "resp_reply list \<Rightarrow> client_exn + QueueLeaveResult" where
  "decode_queue_leave vs =
     and_then (expect_int (vs ! 0) (lit ''removed flag'')) (\<lambda>r.
     and_then (expect_int (vs ! 1) (lit ''previous position'')) (\<lambda>p.
     and_then (expect_int (vs ! 2) (lit ''queue length'')) (\<lambda>n.
       Inr \<lparr>removed = (r \<noteq> 0), previous_position = p, leave_queue_length = n\<rparr>)))"

definition decode_queue_front :: "resp_reply list \<Rightarrow> client_exn + QueueFrontResult" where
  "decode_queue_front vs =
     and_then (expect_optional_string (vs ! 0) (lit ''queue user_id'')) (\<lambda>u.
     and_then (expect_int (vs ! 1) (lit ''queue length'')) (\<lambda>n.
       Inr \<lparr>front_user_id = u, front_queue_length = n\<rparr>))"

subsection \<open>The methods of the client\<close>

text \<open>
  Each method sends its tokens through \<open>execute\<close> and decodes an array of fixed length.
  \<open>exec\<close> stands for \<open>self.execute\<close> on whatever state the connection and the server have.
\<close>

type_synonym 'w executor = "ustr list \<Rightarrow> 'w \<Rightarrow> (client_exn + resp_reply) \<times> 'w"

definition call_for_array ::
  "'w executor \<Rightarrow> ustr list \<Rightarrow> nat \<Rightarrow> (resp_reply list \<Rightarrow> client_exn + 'a) \<Rightarrow> 'w \<Rightarrow>
     (client_exn + 'a) \<times> 'w" where
  "call_for_array exec tokens n decode w =
     (case exec tokens w of
        (r, w1) \<Rightarrow> (and_then r (\<lambda>v. and_then (expect_array v n) decode), w1))"

definition client_seat_status where
  "client_seat_status exec event_id seat_id =
     call_for_array exec [lit ''SEAT_STATUS'', event_id, seat_id] 3 decode_seat_status"

definition client_reserve_seat where
  "client_reserve_seat exec event_id seat_id user hold_seconds =
     call_for_array exec [lit ''RESERVE_SEAT'', event_id, seat_id, user, int_str hold_seconds] 4
       decode_seat_command"

definition client_confirm_seat where
  "client_confirm_seat exec event_id seat_id user =
     call_for_array exec [lit ''CONFIRM_SEAT'', event_id, seat_id, user] 4 decode_seat_command"

definition client_force_confirm_seat where
  "client_force_confirm_seat exec event_id seat_id user =
     call_for_array exec [lit ''FORCE_CONFIRM_SEAT'', event_id, seat_id, user] 4 decode_seat_command"

definition client_release_seat where
  "client_release_seat exec event_id seat_id user =
     call_for_array exec [lit ''RELEASE_SEAT'', event_id, seat_id, user] 4 decode_seat_command"

definition client_join_queue where
  "client_join_queue exec event_id user =
     call_for_array exec [lit ''JOIN_QUEUE'', event_id, user] 3 decode_queue_join"

definition client_queue_position where
  "client_queue_position exec event_id user =
     call_for_array exec [lit ''QUEUE_POSITION'', event_id, user] 2 decode_queue_position"

definition client_leave_queue where
  "client_leave_queue exec event_id user =
     call_for_array exec [lit ''LEAVE_QUEUE'', event_id, user] 3 decode_queue_leave"

definition client_peek_queue where
  "client_peek_queue exec event_id =
     call_for_array exec [lit ''PEEK_QUEUE'', event_id] 2 decode_queue_front"

end
