(* ===== verification/Wire_Roundtrip.thy ===== *)
theory Wire_Roundtrip
  imports Server Redis_Client
begin

section \<open>Client and server understand each other\<close>

text \<open>
  The requests the client writes are the commands the server reads, and the replies the
  server writes are the values the client reads, whatever follows them in the buffer.
\<close>

subsection \<open>Requests\<close>

definition token_ok :: "ustr \<Rightarrow> bool" where
  "token_ok t = (case utf8_encode t of None \<Rightarrow> False | Some b \<Rightarrow> printable (length b))"

definition request_ok :: "ustr list \<Rightarrow> bool" where
  "request_ok c \<longleftrightarrow> list_all token_ok c \<and> printable (length c)"

lemma token_okD: "token_ok t \<Longrightarrow> \<exists>b. utf8_encode t = Some b \<and> printable (length b) \<and> utf8_decode b = Some t"
  by (auto simp: token_ok_def intro: utf8_decode_encode split: option.splits)

lemma encode_tokens_bulk:
  "encode_tokens (t # ts) = Some m \<longleftrightarrow>
     (\<exists>b m'. utf8_encode t = Some b \<and> encode_tokens ts = Some m' \<and> m = bulk b @ m')"
  by (auto simp: bulk_def split: option.splits)

lemma parse_items_encoded:
  "list_all token_ok ts \<Longrightarrow> encode_tokens ts = Some m \<Longrightarrow>
     parse_items (length ts) (p @ m @ r) (length p) = Inr (ts, length p + length m)"
proof (induction ts arbitrary: p m)
  case (Cons t ts)
  from Cons.prems obtain b m' where b: "utf8_encode t = Some b" "encode_tokens ts = Some m'"
    and m: "m = bulk b @ m'" by (auto simp only: encode_tokens_bulk)
  have "printable (length b)" "utf8_decode b = Some t"
    using token_okD [of t] Cons.prems(1) b(1) by auto
  then have "parse_bulk_string (p @ m @ r) (length p) = Inr (t, length p + length (bulk b))"
    using parse_bulk_bulk [of b t p "m' @ r"] m by simp
  moreover have "parse_items (length ts) (p @ m @ r) (length p + length (bulk b)) =
      Inr (ts, length p + length m)"
    using Cons.IH [of m' "p @ bulk b"] Cons.prems(1) b(2) m by simp
  ultimately show ?case by simp
qed simp

lemma encode_command_total:
  assumes "request_ok c"
  shows "\<exists>m. encode_command c = Some m"
proof -
  have "list_all token_ok ts \<Longrightarrow> \<exists>m. encode_tokens ts = Some m" for ts
    by (induction ts) (auto simp: token_ok_def split: option.splits)
  then show ?thesis using assms by (fastforce simp: request_ok_def encode_command_def)
qed

lemma parse_frame_encoded:
  assumes "request_ok c" and "encode_command c = Some m"
  shows "parse_resp_frame (m @ r) = Inr (c, length m)"
proof -
  let ?d = "digits_bytes (length c)"
  from assms obtain body where body: "encode_tokens c = Some body"
    and m: "m = ''*'' @ ?d @ RESP_LINE_ENDING @ body"
    by (auto simp: encode_command_def split: option.splits)
  have ok: "printable (length c)" "list_all token_ok c" using assms by (auto simp: request_ok_def)
  have "read_line (m @ r) (0 + 1) = Inr (?d, length ?d + 3)"
    by (rule read_line_at [where p = "''*''" and r = "body @ r"]) (simp_all add: m)
  moreover have "slice (m @ r) 0 (0 + 1) = ''*''"
    by (rule slice_at [where p = "[]"]) (simp_all add: m)
  ultimately have "parse_array_header (m @ r) 0 = Inr (length c, length ?d + 3)"
    unfolding parse_array_header_def using ok by (simp add: m py_int_digits)
  moreover have "parse_items (length c) (m @ r) (length ?d + 3) = Inr (c, length m)"
    using parse_items_encoded [OF ok(2) body, of "''*'' @ ?d @ RESP_LINE_ENDING" r]
    by (simp add: m numeral_3_eq_3)
  ultimately show ?thesis by (simp add: parse_resp_frame_def)
qed

interpretation request: codec "\<lambda>c. the (encode_command c)"
  "\<lambda>b. case parse_resp b of Inl e \<Rightarrow> None | Inr c \<Rightarrow> Some c" request_ok
proof
  fix c assume c: "request_ok c"
  then obtain m where m: "encode_command c = Some m" using encode_command_total by blast
  then have "parse_resp m = Inr c"
    using parse_frame_encoded [OF c m, of "[]"] by (simp add: parse_resp_def)
  with m show "(case parse_resp (the (encode_command c)) of Inl e \<Rightarrow> None | Inr c \<Rightarrow> Some c) = Some c"
    by simp
qed

text \<open>A stream of requests, and the commands it carries.\<close>

fun request_stream :: "ustr list list \<Rightarrow> bytes" where
  "request_stream [] = []"
| "request_stream (c # cs) = the (encode_command c) @ request_stream cs"

lemma encode_command_nonempty: "encode_command c = Some m \<Longrightarrow> m \<noteq> []"
  by (auto simp: encode_command_def split: option.splits)

lemma drain_stream: "list_all request_ok cs \<Longrightarrow> drain_frames (request_stream cs) = (Inr cs, [])"
proof (induction cs)
  case (Cons c cs)
  then obtain m where m: "encode_command c = Some m" using encode_command_total by auto
  have "parse_resp_frame (m @ request_stream cs) = Inr (c, length m)"
    using parse_frame_encoded [OF _ m] Cons.prems by simp
  then show ?case
    using Cons m encode_command_nonempty [OF m] by (subst drain_frames.simps) simp
qed (simp add: drain_frames.simps)

subsection \<open>Replies\<close>

lemma reply_line_at:
  assumes "m = p @ l @ RESP_LINE_ENDING @ r" and "CR \<notin> set l" and "i = length p"
  shows "reply_line m i = Inr (l, i + length l + 2)"
  using assms by (simp add: reply_line_def find_crlf_line slice_def)

definition reply_of_scalar :: "resp_scalar \<Rightarrow> resp_reply" where
  "reply_of_scalar v = (case v of SInt n \<Rightarrow> RInt n | SStr s \<Rightarrow> RStr s | SNone \<Rightarrow> RNone)"

definition reply_of_result :: "command_result \<Rightarrow> resp_reply" where
  "reply_of_result r =
     (case r of Scalar v \<Rightarrow> reply_of_scalar v | Items vs \<Rightarrow> RList (map reply_of_scalar vs))"

text \<open>A scalar that can be written and whose written length can be read back.\<close>

definition scalar_wire :: "resp_scalar \<Rightarrow> bool" where
  "scalar_wire v =
     (case v of
        SInt n \<Rightarrow> printable (nat \<bar>n\<bar>)
      | SStr s \<Rightarrow> token_ok s
      | SNone \<Rightarrow> True)"

definition item_bytes :: "resp_scalar \<Rightarrow> bytes" where
  "item_bytes v =
     (case v of
        SInt n \<Rightarrow> '':'' @ int_bytes n @ RESP_LINE_ENDING
      | SStr s \<Rightarrow> bulk (the (utf8_encode s))
      | SNone \<Rightarrow> ''$-1'' @ RESP_LINE_ENDING)"

lemma utf8_char [wire_simps]: "of_char c < (128 :: nat) \<Longrightarrow> utf8_encode (lit [c]) = Some [c]"
  by (rule utf8_encode_lit) (simp add: ascii_def)

lemma encode_item_bytes:
  assumes "scalar_wire v"
  shows "\<exists>t. encode_array_item v = Inr t \<and> utf8_encode t = Some (item_bytes v)"
proof (cases v)
  case (SStr s)
  then obtain b where b: "utf8_encode s = Some b" using assms token_okD by (auto simp: scalar_wire_def)
  then show ?thesis
    using encode_bulk_wire [OF b] SStr by (simp add: encode_array_item_def item_bytes_def)
next
  case (SInt n)
  have "utf8_encode (lit '':'' @ int_str n @ ENCODER_LINE_ENDING) = Some (item_bytes v)"
    unfolding SInt item_bytes_def resp_scalar.case
    by (intro utf8_encode_append utf8_char utf8_int utf8_line_ending) simp
  moreover have "\<not> int_max_str_digits < length (nat_str (nat \<bar>n\<bar>))"
    using assms SInt printable_iff [of "nat \<bar>n\<bar>"] by (simp add: scalar_wire_def not_less)
  ultimately show ?thesis
    using SInt by (simp add: encode_array_item_def encode_integer_def)
next
  case SNone
  have "utf8_encode (lit ''$-1'' @ ENCODER_LINE_ENDING) = Some (item_bytes v)"
    unfolding SNone item_bytes_def resp_scalar.case
    by (intro utf8_encode_append utf8_line_ending utf8_encode_lit) (simp add: ascii_def)
  then show ?thesis
    using SNone by (simp add: encode_array_item_def encode_bulk_string_def)
qed

lemma encode_items_bytes:
  "list_all scalar_wire vs \<Longrightarrow>
     \<exists>t. encode_items vs = Inr t \<and> utf8_encode t = Some (concat (map item_bytes vs))"
proof (induction vs)
  case Nil
  show ?case by (simp add: utf8_encode_def)
next
  case (Cons v vs)
  then show ?case
    using encode_item_bytes [of v] utf8_encode_append by fastforce
qed

lemma parse_bulk_reply_bulk:
  assumes "utf8_decode b = Some t" and "printable (length b)"
  shows "parse_bulk_reply (p @ bulk b @ r) (length p) = Inr (RStr t, length p + length (bulk b))"
proof -
  let ?d = "digits_bytes (length b)"
  let ?m = "p @ bulk b @ r"
  have line: "reply_line ?m (length p + 1) = Inr (?d, length p + 1 + length ?d + 2)"
    by (rule reply_line_at [where p = "p @ ''$''" and r = "b @ RESP_LINE_ENDING @ r"])
      (simp_all add: bulk_def)
  have payload: "slice ?m (length p + 1 + length ?d + 2) (length p + 1 + length ?d + 2 + length b) = b"
    by (rule slice_at [where p = "p @ ''$'' @ ?d @ RESP_LINE_ENDING"]) (simp_all add: bulk_def)
  have trailer: "slice ?m (length p + 1 + length ?d + 2 + length b)
      (length p + 1 + length ?d + 2 + length b + length RESP_LINE_ENDING) = RESP_LINE_ENDING"
    by (rule slice_at [where p = "p @ ''$'' @ ?d @ RESP_LINE_ENDING @ b"]) (simp_all add: bulk_def)
  have len: "length (bulk b) = length ?d + 5 + length b" by (simp add: bulk_def)
  have int: "py_int_bytes ?d = Some (int (length b))" using assms(2) by (rule py_int_digits)
  show ?thesis
    unfolding parse_bulk_reply_def line sum.case prod.case int option.case Let_def nat_int payload trailer
    using assms by (simp add: len decode_utf8_def)
qed

lemma prefix_at: "m = p @ c # r \<Longrightarrow> slice m (length p) (length p + 1) = [c]"
  by (simp add: slice_def)

lemma py_int_minus_one: "py_int_bytes ''-1'' = Some (- 1)"
  by code_simp

lemma parse_reply_item:
  assumes "scalar_wire v"
  shows "parse_resp_reply (Suc d) (p @ item_bytes v @ r) (length p) =
    Inr (reply_of_scalar v, length p + length (item_bytes v))"
proof (cases v)
  case (SStr s)
  then obtain b where b: "utf8_encode s = Some b" "printable (length b)" "utf8_decode b = Some s"
    using assms token_okD by (fastforce simp: scalar_wire_def)
  have "slice (p @ bulk b @ r) (length p) (length p + 1) = ''$''"
    by (rule prefix_at) (simp add: bulk_def)
  then show ?thesis
    using SStr b parse_bulk_reply_bulk [OF b(3,2)]
    by (simp add: item_bytes_def reply_of_scalar_def Let_def)
next
  case (SInt n)
  let ?m = "p @ ('':'' @ int_bytes n @ RESP_LINE_ENDING) @ r"
  have "slice ?m (length p) (length p + 1) = '':''"
    by (rule prefix_at) simp
  moreover have "reply_line ?m (length p + 1) = Inr (int_bytes n, length p + 1 + length (int_bytes n) + 2)"
    by (rule reply_line_at [where p = "p @ '':''" and r = r]) simp_all
  moreover have "py_int_bytes (int_bytes n) = Some n"
    using assms SInt by (intro py_int_int) (simp add: scalar_wire_def printable_iff)
  ultimately show ?thesis
    using SInt by (simp add: item_bytes_def reply_of_scalar_def Let_def parse_integer_reply_def)
next
  case SNone
  let ?m = "p @ (''$-1'' @ RESP_LINE_ENDING) @ r"
  have "slice ?m (length p) (length p + 1) = ''$''"
    by (rule prefix_at) simp
  moreover have "reply_line ?m (length p + 1) = Inr (''-1'', length p + 1 + 2 + 2)"
    using reply_line_at [where p = "p @ ''$''" and l = "''-1''" and r = r and m = ?m and i = "length p + 1"]
    by simp
  ultimately show ?thesis
    using SNone by (simp add: item_bytes_def reply_of_scalar_def Let_def parse_bulk_reply_def py_int_minus_one)
qed

lemma parse_reply_prefix:
  "parse_resp_reply (Suc d) (c # m) 0 =
     (if c = CHR ''+'' then parse_simple_reply (c # m) 0
      else if c = CHR ''-'' then parse_error_reply (c # m) 0
      else if c = CHR '':'' then parse_integer_reply (c # m) 0
      else if c = CHR ''$'' then parse_bulk_reply (c # m) 0
      else if c = CHR ''*'' then parse_array_reply (parse_resp_reply d) (c # m) 0
      else Inl (RESPReplyError (lit ''unsupported RESP reply type'')))"
  by (simp add: slice_def)

declare parse_resp_reply.simps [simp del]

definition result_wire :: "command_result \<Rightarrow> bool" where
  "result_wire r =
     (case r of
        Scalar v \<Rightarrow> scalar_wire v
      | Items vs \<Rightarrow> list_all scalar_wire vs \<and> printable (length vs))"

definition result_bytes :: "command_result \<Rightarrow> bytes" where
  "result_bytes r =
     (case r of
        Scalar v \<Rightarrow> item_bytes v
      | Items vs \<Rightarrow> ''*'' @ digits_bytes (length vs) @ RESP_LINE_ENDING @ concat (map item_bytes vs))"

lemma encode_result_bytes:
  assumes "result_wire r"
  shows "\<exists>t. encode_result_value r = Inr t \<and> utf8_encode t = Some (result_bytes r)"
proof (cases r)
  case (Scalar v)
  moreover have "encode_result_value (Scalar v) = encode_array_item v"
    by (cases v) (simp_all add: encode_result_value_def encode_array_item_def)
  ultimately show ?thesis
    using assms encode_item_bytes [of v] by (simp add: result_wire_def result_bytes_def)
next
  case (Items vs)
  then obtain t where t: "encode_items vs = Inr t" "utf8_encode t = Some (concat (map item_bytes vs))"
    using assms encode_items_bytes by (auto simp: result_wire_def)
  have "utf8_encode (lit ''*'' @ nat_str (length vs) @ ENCODER_LINE_ENDING @ t) = Some (result_bytes r)"
    unfolding Items result_bytes_def command_result.case
    by (intro utf8_encode_append utf8_char utf8_digits utf8_line_ending t(2)) simp
  then show ?thesis using Items t by (simp add: encode_result_value_def encode_array_def)
qed

lemma parse_values_items:
  "list_all scalar_wire vs \<Longrightarrow>
     parse_values (parse_resp_reply (Suc d)) (length vs) (p @ concat (map item_bytes vs) @ r) (length p) =
     Inr (map reply_of_scalar vs, length p + length (concat (map item_bytes vs)))"
proof (induction vs arbitrary: p)
  case (Cons v vs)
  let ?m = "p @ concat (map item_bytes (v # vs)) @ r"
  have "parse_resp_reply (Suc d) ?m (length p) = Inr (reply_of_scalar v, length p + length (item_bytes v))"
    using parse_reply_item [of v d p "concat (map item_bytes vs) @ r"] Cons.prems by simp
  moreover have "parse_values (parse_resp_reply (Suc d)) (length vs) ?m (length p + length (item_bytes v)) =
      Inr (map reply_of_scalar vs, length p + length (concat (map item_bytes (v # vs))))"
    using Cons.IH [of "p @ item_bytes v"] Cons.prems by simp
  ultimately show ?case by simp
qed simp

lemma parse_reply_result:
  assumes "result_wire r"
  shows "parse_resp_reply (Suc (Suc d)) (result_bytes r @ x) 0 =
    Inr (reply_of_result r, length (result_bytes r))"
proof (cases r)
  case (Scalar v)
  then show ?thesis
    using parse_reply_item [of v "Suc d" "[]" x] assms
    by (simp add: result_wire_def result_bytes_def reply_of_result_def)
next
  case (Items vs)
  let ?d = "digits_bytes (length vs)"
  let ?m = "result_bytes r @ x"
  have m: "?m = (''*'' @ ?d @ RESP_LINE_ENDING) @ concat (map item_bytes vs) @ x"
    by (simp add: Items result_bytes_def)
  have ok: "list_all scalar_wire vs" "printable (length vs)"
    using assms Items by (auto simp: result_wire_def)
  have head: "slice ?m 0 (0 + 1) = ''*''"
    using prefix_at [of ?m "[]"] m by simp
  have line: "reply_line ?m (0 + 1) = Inr (?d, 0 + 1 + length ?d + 2)"
    by (rule reply_line_at [where p = "''*''" and r = "concat (map item_bytes vs) @ x"]) (simp_all add: m)
  have vals: "parse_values (parse_resp_reply (Suc d)) (length vs) ?m (0 + 1 + length ?d + 2) =
      Inr (map reply_of_scalar vs, length (result_bytes r))"
    using parse_values_items [OF ok(1), of d "''*'' @ ?d @ RESP_LINE_ENDING" x]
    unfolding m by (simp add: Items result_bytes_def numeral_3_eq_3)
  have arr: "parse_array_reply (parse_resp_reply (Suc d)) ?m 0 = Inr (reply_of_result r, length (result_bytes r))"
    unfolding parse_array_reply_def line sum.case prod.case py_int_digits [OF ok(2)] option.case nat_int vals
    by (simp add: Items reply_of_result_def)
  have "\<not> length ?m \<le> 0" by (simp add: m)
  then show ?thesis
    unfolding parse_resp_reply.simps(2) [of "Suc d"] Let_def head arr by simp
qed

text \<open>Error lines: the client sees the text after the minus sign.\<close>

lemma utf8_cp_line: "scalar c \<Longrightarrow> char_of b = CR \<Longrightarrow> b \<in> set (utf8_cp c) \<Longrightarrow> c = 13"
proof -
  assume c: "scalar c" and b: "char_of b = CR" "b \<in> set (utf8_cp c)"
  have "b < 256" using utf8_cp_bytes [OF c b(2)] .
  then have "b = 13" using b(1) of_char_of [of b] by simp
  then show "c = 13" using b(2) by (auto simp: utf8_cp_def split: if_splits)
qed

lemma utf8_no_CR: "utf8_encode s = Some b \<Longrightarrow> 13 \<notin> set s \<Longrightarrow> CR \<notin> set b"
proof
  assume s: "utf8_encode s = Some b" "13 \<notin> set s" and "CR \<in> set b"
  then obtain c u where "c \<in> set s" "scalar c" "u \<in> set (utf8_cp c)" "char_of u = CR"
    by (force simp: utf8_encode_def list_all_iff split: if_splits)
  then show False using s(2) utf8_cp_line by metis
qed

lemma line_reply:
  assumes "single_line s" and "list_all scalar s" and "of_char c < (128 :: nat)"
  shows "\<exists>b. utf8_encode s = Some b \<and> utf8_encode (lit [c] @ s @ ENCODER_LINE_ENDING) =
      Some ([c] @ b @ RESP_LINE_ENDING) \<and>
    reply_line (([c] @ b @ RESP_LINE_ENDING) @ x) (0 + 1) = Inr (b, 0 + 1 + length b + 2) \<and>
    decode_utf8 b = Inr s"
proof -
  obtain b where b: "utf8_encode s = Some b" using utf8_encode_total [OF assms(2)] by blast
  then have "CR \<notin> set b" using utf8_no_CR assms(1) by (auto simp: single_line_def)
  then have "reply_line (([c] @ b @ RESP_LINE_ENDING) @ x) (0 + 1) = Inr (b, 0 + 1 + length b + 2)"
    by (intro reply_line_at [where p = "[c]" and r = x]) simp_all
  moreover have "utf8_encode (lit [c] @ s @ ENCODER_LINE_ENDING) = Some ([c] @ b @ RESP_LINE_ENDING)"
    by (intro utf8_encode_append utf8_char utf8_line_ending b assms(3))
  ultimately show ?thesis
    using b utf8_decode_encode [OF b] by (auto simp: decode_utf8_def)
qed

lemma parse_simple_string:
  assumes "single_line s" and "list_all scalar s"
  shows "\<exists>t b. encode_simple_string s = Inr t \<and> utf8_encode t = Some b \<and>
    parse_resp_reply (Suc d) (b @ x) 0 = Inr (RStr s, length b)"
proof -
  obtain b where "utf8_encode (lit ''+'' @ s @ ENCODER_LINE_ENDING) = Some (''+'' @ b @ RESP_LINE_ENDING)"
    and line: "reply_line ((''+'' @ b @ RESP_LINE_ENDING) @ x) (0 + 1) = Inr (b, 0 + 1 + length b + 2)"
    and "decode_utf8 b = Inr s"
    using line_reply [OF assms, where c = "CHR ''+''" and x = x] by auto
  moreover then have "parse_simple_reply ((''+'' @ b @ RESP_LINE_ENDING) @ x) 0 =
      Inr (RStr s, length (''+'' @ b @ RESP_LINE_ENDING))"
    unfolding parse_simple_reply_def line by simp
  moreover have "encode_simple_string s = Inr (lit ''+'' @ s @ ENCODER_LINE_ENDING)"
    using assms(1) by (simp add: encode_simple_string_def)
  ultimately show ?thesis
    by (metis append_Cons append_Nil parse_reply_prefix)
qed

lemma parse_error_line:
  assumes "single_line s" and "list_all scalar s"
  shows "\<exists>t b. encode_error s = Inr t \<and> utf8_encode t = Some b \<and>
    parse_resp_reply (Suc d) (b @ x) 0 = Inl (AppServerError (ConflictError (lit ''ERR '' @ s)))"
proof -
  let ?s = "lit ''ERR '' @ s"
  have ok: "single_line ?s" using assms by (auto simp: single_line_def lit_def)
  have sc: "list_all scalar ?s" using assms(2) by (simp only: list_all_append scalar_lit)
  obtain b where "utf8_encode (lit ''-'' @ ?s @ ENCODER_LINE_ENDING) = Some (''-'' @ b @ RESP_LINE_ENDING)"
    and line: "reply_line ((''-'' @ b @ RESP_LINE_ENDING) @ x) (0 + 1) = Inr (b, 0 + 1 + length b + 2)"
    and dec: "decode_utf8 b = Inr ?s"
    using line_reply [OF ok sc, where c = "CHR ''-''" and x = x] by auto
  moreover have "parse_error_reply ((''-'' @ b @ RESP_LINE_ENDING) @ x) 0 =
      Inl (AppServerError (ConflictError ?s))"
    unfolding parse_error_reply_def line using dec by simp
  moreover have "encode_error s = Inr (lit ''-'' @ ?s @ ENCODER_LINE_ENDING)"
    using assms(1) by (simp add: encode_error_def lit_def)
  ultimately show ?thesis
    by (intro exI conjI) (assumption | simp add: parse_reply_prefix)+
qed

end
