(* ===== verification/Server_Laws.thy ===== *)
theory Server_Laws
  imports Wire_Roundtrip
begin

section \<open>What a connection does to the store and what it answers\<close>

text \<open>
  The specification of a connection: the commands are executed one after the other and each
  is answered at once (\<open>answer_all\<close>). The server meets it for every way in which the
  network cuts the stream into chunks, and every command of a client whose text is valid
  Unicode gets a reply that the client's parser accepts.
\<close>

fun answer_all ::
  "(ustr list \<Rightarrow> 'w \<Rightarrow> (py_error + command_result) \<times> 'w) \<Rightarrow>
   ('w \<Rightarrow> ustr list \<Rightarrow> py_error \<Rightarrow> ustr) \<Rightarrow> ustr list list \<Rightarrow> 'w \<Rightarrow> bytes list \<times> 'w \<times> bool" where
  "answer_all exec lib_text [] w = ([], w, True)"
| "answer_all exec lib_text (c # cs) w =
     (case exec c w of
        (outcome, w1) \<Rightarrow>
          (case send_response (command_response (lib_text w c) c outcome) of
             None \<Rightarrow> ([], w1, False)
           | Some b \<Rightarrow> (case answer_all exec lib_text cs w1 of (bs, w2, ok) \<Rightarrow> (b # bs, w2, ok))))"

lemma answer_all_append:
  "answer_all exec lib (cs @ ds) w =
     (case answer_all exec lib cs w of
        (bs, w1, False) \<Rightarrow> (bs, w1, False)
      | (bs, w1, True) \<Rightarrow> (case answer_all exec lib ds w1 of (bs', w2, ok) \<Rightarrow> (bs @ bs', w2, ok)))"
  by (induction cs arbitrary: w) (auto split: prod.split option.split bool.split)

lemma drain_frames_Nil [simp]: "drain_frames [] = (Inr [], [])"
  by (simp add: drain_frames.simps)

lemma serve_buffer_Nil [simp]:
  "serve_buffer exec lib [] w = \<lparr>sent = [], buffered = [], world = w, alive = True\<rparr>"
  by (simp add: serve_buffer.simps)

lemma drain_cases:
  assumes "drain_frames m = (Inr cs, b)"
  obtains "cs = []" "b = m" "m = [] \<or> (\<exists>t. parse_resp_frame m = Inl (IncompleteRESPError t))"
  | c n ds where "m \<noteq> []" "parse_resp_frame m = Inr (c, n)" "drain_frames (drop n m) = (Inr ds, b)"
      "cs = c # ds"
  using assms
  by (auto simp: drain_frames.simps [of m] split: if_splits sum.splits resp_error.splits prod.splits)

lemma serve_buffer_answers:
  assumes "drain_frames m = (Inr cs, rest)" and "answer_all exec lib cs w = (bs, w', ok)"
  shows "sent (serve_buffer exec lib m w) = bs \<and> world (serve_buffer exec lib m w) = w' \<and>
    alive (serve_buffer exec lib m w) = ok \<and> (ok \<longrightarrow> buffered (serve_buffer exec lib m w) = rest)"
  using assms
proof (induction "length m" arbitrary: m cs w bs rule: less_induct)
  case less
  from less.prems(1) show ?case
  proof (cases rule: drain_cases)
    case 1
    then show ?thesis
      using less.prems(2) by (auto simp: serve_buffer.simps [of _ _ m])
  next
    case (2 c n ds)
    obtain r w1 where r: "exec c w = (r, w1)" by (cases "exec c w")
    show ?thesis
    proof (cases "send_response (command_response (lib w c) c r)")
      case None
      then show ?thesis
        using less.prems(2) 2 r by (auto simp: serve_buffer.simps [of _ _ m])
    next
      case (Some b)
      then obtain bs' where bs: "answer_all exec lib ds w1 = (bs', w', ok)" "bs = b # bs'"
        using less.prems(2) 2 r by (auto split: prod.splits)
      have "length (drop n m) < length m" using parse_frame_bounds [OF 2(2)] 2(1) by simp
      from less.hyps [OF this 2(3) bs(1)] show ?thesis
        using Some 2 r bs(2) by (auto simp: serve_buffer.simps [of _ _ m] Let_def)
    qed
  qed
qed

lemma drain_idle: "drain_frames m = (Inr cs, b) \<Longrightarrow> drain_frames b = (Inr [], b)"
proof (induction "length m" arbitrary: m cs rule: less_induct)
  case less
  from less.prems show ?case
  proof (cases rule: drain_cases)
    case (2 c n ds)
    have "length (drop n m) < length m" using parse_frame_bounds [OF 2(2)] 2(1) by simp
    then show ?thesis using less.hyps 2(3) by blast
  qed (use less.prems in simp)
qed

lemma drain_split:
  assumes "drain_frames (m @ x) = (Inr cs, rest)"
  shows "\<exists>ds es b. drain_frames m = (Inr ds, b) \<and> drain_frames (b @ x) = (Inr es, rest) \<and> cs = ds @ es"
proof (cases "drain_frames m")
  case (Pair r b)
  show ?thesis
  proof (cases r)
    case (Inl e)
    then show ?thesis using drain_frames_error_append [of m e b x] assms Pair by simp
  next
    case (Inr ds)
    then show ?thesis
      using drain_frames_append [of m ds b x] assms Pair by (auto split: prod.splits sum.splits)
  qed
qed

lemma handle_client_answers:
  assumes "drain_frames buffer = (Inr [], buffer)"
    and "drain_frames (buffer @ concat chunks) = (Inr cs, rest)" and "[] \<notin> set chunks"
    and "answer_all exec lib cs w = (bs, w', ok)"
  shows "sent (handle_client exec lib (map Received chunks) buffer w) = bs \<and>
    world (handle_client exec lib (map Received chunks) buffer w) = w' \<and>
    alive (handle_client exec lib (map Received chunks) buffer w) = ok \<and>
    (ok \<longrightarrow> buffered (handle_client exec lib (map Received chunks) buffer w) = rest)"
  using assms
proof (induction chunks arbitrary: buffer cs w bs)
  case (Cons chunk chunks)
  obtain ds es b where ds: "drain_frames (buffer @ chunk) = (Inr ds, b)"
    and es: "drain_frames (b @ concat chunks) = (Inr es, rest)" and cs: "cs = ds @ es"
    using drain_split [of "buffer @ chunk" "concat chunks"] Cons.prems(2) by auto
  obtain bs1 w1 ok1 where a: "answer_all exec lib ds w = (bs1, w1, ok1)" by (metis prod_cases3)
  note serve = serve_buffer_answers [OF ds a]
  have ne: "chunk \<noteq> []" "[] \<notin> set chunks" using Cons.prems(3) by auto
  show ?case
  proof (cases ok1)
    case False
    then show ?thesis
      using serve a Cons.prems(4) ne cs by (simp add: answer_all_append Let_def)
  next
    case True
    obtain bs2 where a2: "answer_all exec lib es w1 = (bs2, w', ok)" "bs = bs1 @ bs2"
      using Cons.prems(4) a True cs by (auto simp: answer_all_append split: prod.splits)
    have "drain_frames b = (Inr [], b)" using ds by (rule drain_idle)
    from Cons.IH [OF this es ne(2) a2(1)] show ?thesis
      using serve True ne(1) a2(2) by (simp add: Let_def)
  qed
qed simp

subsection \<open>The texts of errors\<close>

text \<open>
  The message of an exception raised by the sources is valid Unicode when the tokens of the
  command are; the messages of the library are an argument.
\<close>

definition error_text_ok :: "py_error \<Rightarrow> bool" where
  "error_text_ok e \<longleftrightarrow> error_ok (\<lambda>_. []) e"

lemma error_text_ok_simps [simp]:
  "error_text_ok (ValueError m) = list_all scalar m"
  "error_text_ok (TypeError m) = list_all scalar m"
  "error_text_ok (AttributeError m) = list_all scalar m"
  "error_text_ok (CommandError m) = list_all scalar m"
  "error_text_ok (UnknownCommandError m) = list_all scalar m"
  "error_text_ok (WrongNumberOfArgumentsError m) = list_all scalar m"
  "error_text_ok OverflowError" "error_text_ok JSONDecodeError" "error_text_ok UnicodeEncodeError"
  by (simp_all add: error_text_ok_def error_ok_def error_str_def)

lemma error_ok_lib: "error_text_ok e \<Longrightarrow> (\<And>e. list_all scalar (lib e)) \<Longrightarrow> error_ok lib e"
  by (cases e) (simp_all add: error_ok_def error_str_def)

lemma scalar_39 [simp]: "scalar 39"
  by (simp add: scalar_def)

lemma py_upper_scalar: "list_all scalar s \<Longrightarrow> list_all scalar (py_upper s)"
proof -
  have "scalar c \<Longrightarrow> list_all scalar (upper_cp c)" for c
    unfolding upper_cp_def scalar_def list_all_iff lit_def by auto
  then show "list_all scalar s \<Longrightarrow> ?thesis"
    by (auto simp: py_upper_def list_all_iff)
qed

lemma deserialize_error_text:
  "deserialize_seat_record raw = Inl e \<Longrightarrow> error_text_ok e"
  "deserialize_queue raw = Inl e \<Longrightarrow> error_text_ok e"
  by (auto simp: deserialize_seat_record_def deserialize_queue_def
      split: option.splits json.splits if_splits)

lemma status_error_text: "seat_status_by_key now k s = (Inl e, s1) \<Longrightarrow> error_text_ok e"
  by (auto simp: seat_status_by_key_def Let_def dest: deserialize_error_text
      split: prod.splits bool.splits option.splits sum.splits)

lemma status_error_text_fst: "fst (seat_status_by_key now k s) = Inl e \<Longrightarrow> error_text_ok e"
  using status_error_text by (metis prod.collapse)

lemma load_queue_error_text: "load_queue k s = Inl e \<Longrightarrow> error_text_ok e"
  by (auto simp: load_queue_def dest: deserialize_error_text split: option.splits)

lemma deadline_error_text: "compute_deadline now n = Inl e \<Longrightarrow> error_text_ok e"
  by (auto simp: compute_deadline_def split: option.splits)

definition option_text_ok :: "ustr option \<Rightarrow> bool" where
  "option_text_ok opt \<longleftrightarrow> (case opt of None \<Rightarrow> True | Some t \<Rightarrow> list_all scalar t)"

lemma normalize_text:
  assumes "option_text_ok opt"
  shows "normalize_expire_option opt = Inl e \<Longrightarrow> error_text_ok e"
    and "normalize_expire_option opt = Inr opt' \<Longrightarrow> option_text_ok opt'"
  using assms
  by (auto simp: normalize_expire_option_def option_text_ok_def Let_def py_upper_scalar
      split: if_splits option.splits)

lemma apply_expiry_text:
  "option_text_ok opt \<Longrightarrow> should_apply_expiry opt d d' = Inl e \<Longrightarrow> error_text_ok e"
  by (auto simp: should_apply_expiry_def split: sum.splits option.splits if_splits dest: normalize_text)

lemma expire_error_text:
  assumes "option_text_ok opt" and "fst (eng_expire now k n opt s) = Inl e"
  shows "error_text_ok e"
proof (cases "normalize_expire_option opt")
  case (Inl e')
  then show ?thesis using assms normalize_text(1) by (simp add: eng_expire_def)
next
  case (Inr opt')
  then have "option_text_ok opt'" using assms(1) normalize_text(2) by blast
  then show ?thesis
    using assms(2) Inr apply_expiry_text deadline_error_text
    by (fastforce simp: eng_expire_def Let_def
        split: prod.splits bool.splits option.splits sum.splits if_splits)
qed

lemma op_error_text:
  "fst (reserve_seat now ev st u h s) = Inl e \<Longrightarrow> error_text_ok e"
  "fst (confirm_seat now ev st u s) = Inl e \<Longrightarrow> error_text_ok e"
  "fst (release_seat now ev st u s) = Inl e \<Longrightarrow> error_text_ok e"
  "fst (seat_status now ev st s) = Inl e \<Longrightarrow> error_text_ok e"
  "fst (join_queue ev u s) = Inl e \<Longrightarrow> error_text_ok e"
  "fst (queue_position ev u s) = Inl e \<Longrightarrow> error_text_ok e"
  "fst (pop_queue ev s) = Inl e \<Longrightarrow> error_text_ok e"
  "fst (leave_queue ev u s) = Inl e \<Longrightarrow> error_text_ok e"
  "fst (peek_queue ev s) = Inl e \<Longrightarrow> error_text_ok e"
  by (auto simp: reserve_seat_def confirm_seat_def release_seat_def seat_status_def queue_ops Let_def
      split: prod.splits sum.splits if_splits list.splits
      dest: status_error_text load_queue_error_text deadline_error_text status_error_text_fst)

lemma handle_error_text:
  assumes "list_all (list_all scalar) c" and "fst (handle_command now c s) = Inl e"
  shows "error_text_ok e"
proof (cases "validate_command c")
  case (Inl err)
  then have "e = err" using assms(2) by (simp add: handle_rejected)
  then show ?thesis
    using Inl assms(1) py_upper_scalar
    by (cases c) (auto simp: validate_command_def Let_def quoted_def split: if_splits option.splits)
next
  case (Inr x)
  obtain name args where "x = (name, args)" by (cases x)
  with Inr have v: "validate_command c = Inr (name, args)" by simp
  have args: "list_all (list_all scalar) args"
    using v assms(1) by (cases c) (auto simp: validate_command_def Let_def split: if_splits option.splits)
  from v show ?thesis
  proof (cases rule: command_cases)
    case EXPIRE
    with v assms(2) args show ?thesis
      by (auto simp: handle_dispatch(4) parse_expire_arguments_def option_text_ok_def
          split: sum.splits option.splits dest!: expire_error_text [rotated])
  next
    case (EXPIRE_OPT k secs opt)
    with args have "list_all scalar opt" "option_text_ok (Some (py_upper opt))"
      by (simp_all add: py_upper_scalar option_text_ok_def)
    with v assms(2) EXPIRE_OPT show ?thesis
      by (auto simp: handle_dispatch(4) parse_expire_arguments_def quoted_def
          split: sum.splits option.splits if_splits dest!: expire_error_text [rotated])
  next
    case RESERVE
    with v assms(2) args show ?thesis
      by (auto simp: handle_dispatch(6) parse_reserve_arguments_def
          split: sum.splits option.splits if_splits dest: op_error_text)
  next
    case FORCE
    with v assms(2) show ?thesis by (simp add: handle_dispatch force_confirm_seat_def)
  qed (use v assms(2) in \<open>auto simp: handle_dispatch dest: op_error_text\<close>)
qed

subsection \<open>Every command is answered\<close>

lemma scalar_line_ending [simp]: "list_all scalar ENCODER_LINE_ENDING"
  by (simp add: ENCODER_LINE_ENDING_def scalar_def)

lemma scalar_digits [simp]: "list_all scalar (nat_str n)"
  using utf8_digits [of n] by (simp add: utf8_encode_def split: if_splits)

lemma scalar_int [simp]: "list_all scalar (int_str n)"
  using utf8_int [of n] by (simp add: utf8_encode_def split: if_splits)

lemma encode_item_scalar: "encode_array_item v = Inr t \<Longrightarrow> list_all scalar t"
  by (cases v) (auto simp: encode_array_item_def encode_bulk_string_def encode_integer_def
      utf8_encode_def simp del: lit_Cons split: if_splits)

lemma encode_items_scalar: "encode_items vs = Inr t \<Longrightarrow> list_all scalar t"
  by (induction vs arbitrary: t) (auto split: sum.splits dest: encode_item_scalar)

lemma encode_result_scalar: "encode_result_value r = Inr t \<Longrightarrow> list_all scalar t"
  using encode_item_scalar
  by (fastforce simp: encode_result_value_def encode_array_def encode_array_item_def
      split: command_result.splits resp_scalar.splits sum.splits dest: encode_items_scalar)

lemma encode_item_error: "encode_array_item v = Inl e \<Longrightarrow> error_text_ok e"
  by (cases v) (auto simp: encode_array_item_def encode_bulk_string_def encode_integer_def
      too_many_digits_def split: if_splits option.splits)

lemma encode_items_error: "encode_items vs = Inl e \<Longrightarrow> error_text_ok e"
  by (induction vs) (auto split: sum.splits dest: encode_item_error)

lemma encode_result_error: "encode_result_value r = Inl e \<Longrightarrow> error_text_ok e"
  using encode_item_error
  by (fastforce simp: encode_result_value_def encode_array_def encode_array_item_def
      split: command_result.splits resp_scalar.splits sum.splits dest: encode_items_error)

text \<open>A \<open>SET\<close> that succeeds returns \<open>OK\<close>; that is the only simple string.\<close>

lemma set_result:
  assumes "fst (handle_command now c s) = Inr r" and "py_upper (hd c) = lit ''SET''"
  shows "r = Scalar (SStr (lit ''OK''))"
proof -
  obtain name args where v: "validate_command c = Inr (name, args)"
    using assms(1) handle_rejected [of c _ now s] by (cases "validate_command c") auto
  then have name: "name = lit ''SET''"
    using assms(2) by (auto simp: validate_command_def Let_def split: if_splits option.splits)
  from v show ?thesis
    by (cases rule: command_cases) (use v name assms(1) in \<open>auto simp: handle_dispatch\<close>)
qed

definition client_view :: "(py_error \<Rightarrow> ustr) \<Rightarrow> py_error + command_result \<Rightarrow> client_exn + resp_reply" where
  "client_view lib_text outcome =
     (case outcome of
        Inl e \<Rightarrow> Inl (AppServerError (ConflictError
          (lit ''ERR '' @ format_error_message (class_name e) (error_str lib_text e))))
      | Inr r \<Rightarrow> Inr (reply_of_result r))"

end
