(* ===== verification/Session_Laws.thy ===== *)
theory Session_Laws
  imports Server_Laws
begin

section \<open>Sessions of the running server\<close>

text \<open>
  The generic facts about a connection, on the world of the real server: the store and its
  clock. Every command of valid Unicode tokens is answered, the answer is read back by the
  client as the outcome of the command, and a connection is never dropped because a reply
  could not be written.
\<close>

definition library_texts_ok :: "('w \<Rightarrow> ustr list \<Rightarrow> py_error \<Rightarrow> ustr) \<Rightarrow> bool" where
  "library_texts_ok lib \<longleftrightarrow> (\<forall>w c e. list_all scalar (lib w c e))"

lemma error_response_read:
  assumes "error_ok lib e"
  shows "\<exists>b. send_response (error_response lib e) = Some b \<and>
    parse_resp_reply (Suc d) (b @ x) 0 =
      Inl (AppServerError (ConflictError
        (lit ''ERR '' @ format_error_message (class_name e) (error_str lib e))))"
proof -
  have "list_all scalar (class_name e)" using class_name_lit [of e] by auto
  then have "list_all scalar (format_error_message (class_name e) (error_str lib e))"
    using assms by (auto simp: error_ok_def intro: format_scalar)
  from parse_error_line [OF format_single_line this, of d x] show ?thesis
    by (auto simp: error_response_def send_response_def)
qed

lemma response_sent:
  assumes tokens: "list_all (list_all scalar) c" and lib: "\<And>e. list_all scalar (lib e)"
  shows "\<exists>b. send_response (command_response lib c (fst (handle_command now c s))) = Some b"
proof (cases "fst (handle_command now c s)")
  case (Inl e)
  have "error_ok lib e" using handle_error_text [OF tokens Inl] lib by (rule error_ok_lib)
  then show ?thesis using error_response_sent Inl by (simp add: command_response_def)
next
  case (Inr r)
  show ?thesis
  proof (cases "encode_command_result c r")
    case (Inl e)
    have "py_upper (hd c) = lit ''SET'' \<Longrightarrow> r = Scalar (SStr (lit ''OK''))"
      using set_result [OF Inr] .
    then have "error_text_ok e"
      using Inl encode_result_error
      by (auto simp: encode_command_result_def SIMPLE_STRING_COMMANDS_def Let_def
          encode_simple_string_def split: if_splits)
    then have "error_ok lib e" using lib by (rule error_ok_lib)
    then show ?thesis using error_response_sent Inl Inr by (simp add: command_response_def)
  next
    case (Inr t)
    have "list_all scalar t"
      using Inr set_result [OF \<open>fst (handle_command now c s) = Inr r\<close>] encode_result_scalar
      by (auto simp: encode_command_result_def SIMPLE_STRING_COMMANDS_def Let_def
          encode_simple_string_def simp del: lit_Cons split: if_splits)
    then show ?thesis
      using Inr \<open>fst (handle_command now c s) = Inr r\<close> utf8_encode_total
      by (simp add: command_response_def send_response_def)
  qed
qed

lemma lit_OK: "single_line (lit ''OK'')" "token_ok (lit ''OK'')"
  by (simp_all add: single_line_def lit_def token_ok_def utf8_encode_def scalar_def utf8_cp_def
      printable_small)

lemma response_read:
  assumes tokens: "list_all (list_all scalar) c" and lib: "\<And>e. list_all scalar (lib e)"
    and wire: "\<And>r. fst (handle_command now c s) = Inr r \<Longrightarrow> result_wire r"
  shows "\<exists>b. send_response (command_response lib c (fst (handle_command now c s))) = Some b \<and>
    parse_resp_reply (Suc (Suc d)) b 0 =
      (case client_view lib (fst (handle_command now c s)) of Inl e \<Rightarrow> Inl e | Inr v \<Rightarrow> Inr (v, length b))"
proof (cases "fst (handle_command now c s)")
  case (Inl e)
  have "error_ok lib e" using handle_error_text [OF tokens Inl] lib by (rule error_ok_lib)
  from error_response_read [OF this, of "Suc d" "[]"] show ?thesis
    using Inl by (auto simp: command_response_def client_view_def)
next
  case (Inr r)
  obtain name args where v: "validate_command c = Inr (name, args)"
    using Inr handle_rejected [of c _ now s] by (cases "validate_command c") auto
  then have c: "c \<noteq> []" "hd c \<noteq> []" by (auto simp: validate_command_def split: if_splits)
  show ?thesis
  proof (cases "py_upper (hd c) = lit ''SET''")
    case True
    then have "r = Scalar (SStr (lit ''OK''))" using set_result [OF Inr] by simp
    moreover obtain t b where "encode_simple_string (lit ''OK'') = Inr t" "utf8_encode t = Some b"
      "parse_resp_reply (Suc (Suc d)) (b @ []) 0 = Inr (RStr (lit ''OK''), length b)"
      using parse_simple_string [OF lit_OK(1), of "Suc d" "[]"] by auto
    ultimately show ?thesis
      using True Inr c by (simp add: command_response_def encode_command_result_def send_response_def
          SIMPLE_STRING_COMMANDS_def client_view_def reply_of_result_def reply_of_scalar_def)
  next
    case False
    obtain t where "encode_result_value r = Inr t" "utf8_encode t = Some (result_bytes r)"
      using encode_result_bytes [OF wire [OF Inr]] by blast
    then show ?thesis
      using False Inr c parse_reply_result [OF wire [OF Inr], of d "[]"]
      by (simp add: command_response_def encode_command_result_def send_response_def
          SIMPLE_STRING_COMMANDS_def client_view_def)
  qed
qed

lemma engine_exec_eq:
  "engine_exec clock c w =
     (fst (handle_command (clock (fst w)) c (snd w)),
      Suc (fst w), snd (handle_command (clock (fst w)) c (snd w)))"
  by (simp add: engine_exec_def split: prod.split)

lemma engine_exec_sends:
  assumes "library_texts_ok lib" and "list_all (list_all (list_all scalar)) cs"
  shows "\<exists>bs w'. answer_all (engine_exec clock) lib cs w = (bs, w', True) \<and> length bs = length cs"
  using assms(2)
proof (induction cs arbitrary: w)
  case (Cons c cs)
  let ?o = "fst (handle_command (clock (fst w)) c (snd w))"
  have "\<And>e. list_all scalar (lib w c e)" using assms(1) unfolding library_texts_ok_def by blast
  then obtain b where b: "send_response (command_response (lib w c) c ?o) = Some b"
    using response_sent [of c "lib w c" "clock (fst w)" "snd w"] Cons.prems by auto
  obtain bs w' where "answer_all (engine_exec clock) lib cs (snd (engine_exec clock c w)) = (bs, w', True)"
    "length bs = length cs" using Cons by fastforce
  then show ?case
    using b by (simp add: engine_exec_eq [of clock c])
qed simp

lemma answer_world:
  "answer_all exec lib cs w = (bs, w', True) \<Longrightarrow> w' = fold (\<lambda>c w. snd (exec c w)) cs w"
  by (induction cs arbitrary: w bs) (auto split: prod.splits option.splits)

lemma request_ok_scalar: "request_ok c \<Longrightarrow> list_all (list_all scalar) c"
  by (auto simp: request_ok_def token_ok_def list_all_iff utf8_encode_def split: option.splits if_splits)

end
