(* ===== verification/Protocol_Properties.thy ===== *)
theory Protocol_Properties
  imports Session_Laws Command_Properties
begin

section \<open>Properties of the wire protocol\<close>

text \<open>
  Requests and replies survive the wire, the cut of the stream into chunks does not matter,
  and every command is answered once, in order.
\<close>

subsection \<open>Parsing\<close>

text \<open>
  Feeding a stream to the incremental parser in two pieces gives the same commands, the
  same error and the same buffered rest as feeding it at once, wherever it is cut; after an
  error the second piece is only appended to the buffer.
\<close>

lemma feeding_in_pieces:
  "feed_data (c1 @ c2) b =
     (case feed_data c1 b of
        (Inl e, b1) \<Rightarrow> (Inl e, b1 @ c2)
      | (Inr commands, b1) \<Rightarrow>
          (case feed_data c2 b1 of
             (Inl e, b2) \<Rightarrow> (Inl e, b2)
           | (Inr rest, b2) \<Rightarrow> (Inr (commands @ rest), b2)))"
proof (cases "drain_frames (b @ c1)")
  case (Pair r b1)
  then show ?thesis
    using drain_frames_error_append [of "b @ c1" _ b1 c2] drain_frames_append [of "b @ c1" _ b1 c2]
    by (cases r) (auto simp: feed_data_def)
qed

text \<open>
  Claim C15: the server reads what the client writes. A request that the client encodes is parsed
  back to the same tokens, whatever bytes follow it, and exactly its bytes are consumed.
\<close>

theorem request_roundtrip:
  assumes "request_ok c"
  shows "\<exists>m. encode_command c = Some m \<and> parse_resp m = Inr c \<and>
    parse_resp_frame (m @ r) = Inr (c, length m)"
proof -
  obtain m where m: "encode_command c = Some m" using encode_command_total [OF assms] by blast
  with parse_frame_encoded [OF assms m] show ?thesis
    using parse_frame_encoded [OF assms m, of "[]"] by (simp add: parse_resp_def)
qed

lemma token_ok_lit: "ascii s \<Longrightarrow> length s < 100 \<Longrightarrow> token_ok (lit s)"
  by (simp add: token_ok_def utf8_encode_lit printable_small)

theorem request_roundtrip_witness:
  "\<exists>m. encode_command [lit ''GET'', lit ''k''] = Some m \<and> parse_resp m = Inr [lit ''GET'', lit ''k''] \<and>
    parse_resp_frame (m @ ''*1'') = Inr ([lit ''GET'', lit ''k''], length m)"
  by (rule request_roundtrip)
    (simp add: request_ok_def token_ok_lit ascii_def printable_small)

subsection \<open>Connections\<close>

text \<open>
  Claim C11: a connection executes the commands of its stream in order and answers each one, for every
  way in which the network cuts the stream into chunks. Requests that were encoded by the
  client are all executed; there is exactly one answer per command; the store that is left is
  the store after the commands have been run one after the other; nothing stays buffered and
  the connection stays open. The texts of library exceptions are assumed to be valid Unicode.
\<close>

theorem connection_serves_pipelined_requests:
  assumes "list_all request_ok cs" and "concat chunks = request_stream cs" and "[] \<notin> set chunks"
    and "library_texts_ok lib"
  shows "\<exists>bs. answer_all (engine_exec clock) lib cs w = (bs, fold (\<lambda>c w. snd (engine_exec clock c w)) cs w, True) \<and>
    length bs = length cs \<and>
    handle_client (engine_exec clock) lib (map Received chunks) [] w =
      \<lparr>sent = bs, buffered = [], world = fold (\<lambda>c w. snd (engine_exec clock c w)) cs w, alive = True\<rparr>"
proof -
  have "list_all (list_all (list_all scalar)) cs"
    using assms(1) request_ok_scalar by (auto simp: list_all_iff)
  then obtain bs w' where bs: "answer_all (engine_exec clock) lib cs w = (bs, w', True)" "length bs = length cs"
    using engine_exec_sends [OF assms(4)] by blast
  have "drain_frames ([] @ concat chunks) = (Inr cs, [])"
    using drain_stream [OF assms(1)] assms(2) by simp
  from handle_client_answers [OF _ this assms(3) bs(1)] show ?thesis
    using bs answer_world [OF bs(1)] by (intro exI [of _ bs]) simp
qed

theorem connection_serves_pipelined_requests_witness:
  "\<exists>bs. length bs = 2 \<and>
    handle_client (engine_exec (\<lambda>k. of_nat k)) (\<lambda>_ _ _. [])
      [Received (take 5 (request_stream [[lit ''GET'', lit ''k''], [lit ''GET'', lit ''j'']])),
       Received (drop 5 (request_stream [[lit ''GET'', lit ''k''], [lit ''GET'', lit ''j'']]))]
      [] (0, new_engine) =
      \<lparr>sent = bs, buffered = [],
       world = fold (\<lambda>c w. snd (engine_exec (\<lambda>k. of_nat k) c w)) [[lit ''GET'', lit ''k''], [lit ''GET'', lit ''j'']]
         (0, new_engine), alive = True\<rparr>"
proof -
  let ?cs = "[[lit ''GET'', lit ''k''], [lit ''GET'', lit ''j'']]"
  let ?m = "request_stream ?cs"
  have ok: "list_all request_ok ?cs"
    by (simp add: request_ok_def token_ok_lit ascii_def printable_small)
  have ne: "[] \<notin> set [take 5 ?m, drop 5 ?m]"
    by (simp add: encode_command_def utf8_encode_lit ascii_def digits_bytes_def RESP_LINE_ENDING_def, arith)
  have cut: "concat [take 5 ?m, drop 5 ?m] = ?m"
    by (simp only: concat.simps append_Nil2 append_take_drop_id)
  have lib: "library_texts_ok (\<lambda>(_ :: nat \<times> StorageEngine) _ _. [])" by (simp add: library_texts_ok_def)
  have two: "length ?cs = 2" by simp
  from connection_serves_pipelined_requests [OF ok cut ne lib, of "\<lambda>k. of_nat k" "(0, new_engine)"]
  show ?thesis unfolding two list.map by blast
qed

text \<open>
  Claim C25: a malformed request is answered with one error, empties the buffer and executes nothing;
  the commands before it in the same chunk have been executed and answered.
\<close>

theorem malformed_request_is_reported:
  assumes "buffer \<noteq> []" and "parse_resp_frame buffer = Inl (ProtocolError t)" and "list_all scalar t"
  shows "\<exists>b. serve_buffer exec lib buffer w = \<lparr>sent = [b], buffered = [], world = w, alive = True\<rparr> \<and>
    parse_resp_reply (Suc d) b 0 =
      Inl (AppServerError (ConflictError (lit ''ERR '' @ format_error_message (lit ''ProtocolError'') t)))"
proof -
  have "list_all scalar (format_error_message (lit ''ProtocolError'') t)"
    using assms(3) by (intro format_scalar) simp_all
  from parse_error_line [OF format_single_line this, of d "[]"] obtain r b where
    "encode_error (format_error_message (lit ''ProtocolError'') t) = Inr r" "utf8_encode r = Some b"
    "parse_resp_reply (Suc d) b 0 =
      Inl (AppServerError (ConflictError (lit ''ERR '' @ format_error_message (lit ''ProtocolError'') t)))"
    by auto
  then show ?thesis
    using assms(1,2) by (auto simp: serve_buffer.simps [of _ _ buffer] send_response_def)
qed

theorem malformed_request_is_reported_witness:
  "\<exists>b. serve_buffer (engine_exec (\<lambda>k. 0)) (\<lambda>_ _ _. []) ''PING'' (0, new_engine) =
    \<lparr>sent = [b], buffered = [], world = (0, new_engine), alive = True\<rparr>"
proof -
  have "parse_resp_frame ''PING'' = Inl (ProtocolError (lit ''expected RESP array''))"
    by (simp add: parse_resp_frame_def parse_array_header_def slice_def)
  from malformed_request_is_reported [where exec = "engine_exec (\<lambda>k. 0)" and lib = "\<lambda>_ _ _. []" and
      w = "(0, new_engine)" and d = 0, OF _ this] show ?thesis by auto
qed

text \<open>
  Claim C16: the client reads what the server computed. The answer to any command of valid Unicode
  tokens is decoded by the client to the result of the command, and an exception to a
  \<open>ConflictError\<close> with the one-line message, provided that the result can be written.
\<close>

theorem reply_roundtrip:
  assumes "list_all (list_all scalar) c" and "library_texts_ok lib"
    and "\<And>r. fst (handle_command now c s) = Inr r \<Longrightarrow> result_wire r"
  shows "\<exists>b. send_response (command_response (lib w c) c (fst (handle_command now c s))) = Some b \<and>
    parse_resp_reply (Suc (Suc d)) b 0 =
      (case client_view (lib w c) (fst (handle_command now c s)) of
         Inl e \<Rightarrow> Inl e
       | Inr v \<Rightarrow> Inr (v, length b))"
  by (rule response_read [OF assms(1)]) (use assms(2,3) in \<open>auto simp: library_texts_ok_def\<close>)

theorem reply_roundtrip_witness:
  "\<exists>b. send_response (command_response (\<lambda>_. []) [lit ''FORCE_CONFIRM_SEAT'', lit ''e'', lit ''A1'', lit ''u1'']
      (fst (handle_command 0 [lit ''FORCE_CONFIRM_SEAT'', lit ''e'', lit ''A1'', lit ''u1''] new_engine))) = Some b \<and>
    parse_resp_reply 2 b 0 =
      Inr (RList [RInt 1, RStr (lit ''CONFIRMED''), RStr (lit ''u1''), RInt (- 1)], length b)"
proof -
  let ?c = "[lit ''FORCE_CONFIRM_SEAT'', lit ''e'', lit ''A1'', lit ''u1'']"
  have h: "fst (handle_command 0 ?c new_engine) =
      Inr (Items [SInt 1, SStr (lit ''CONFIRMED''), SStr (lit ''u1''), SInt (- 1)])"
    by (simp add: handle_dispatch(8) [OF validate_seat(3)] force_confirm_seat_def answer_def
        seat_operation_result_def flag_def opt_str_def SEAT_CONFIRMED_def)
  have "list_all (list_all scalar) ?c" by simp
  moreover have "library_texts_ok (\<lambda>(_ :: unit) _ _. [])" by (simp add: library_texts_ok_def)
  moreover have "result_wire r" if "fst (handle_command 0 ?c new_engine) = Inr r" for r
    using that by (auto simp: h result_wire_def scalar_wire_def token_ok_lit ascii_def printable_small)
  ultimately show ?thesis
    using reply_roundtrip [of ?c "\<lambda>_ _ _. []" 0 new_engine "()" 0]
    by (simp add: h client_view_def reply_of_result_def reply_of_scalar_def numeral_2_eq_2)
qed

end
