(* ===== verification/Persistence.thy ===== *)
theory Persistence
  imports Command_Laws "HOL-Library.Multiset"
begin

section \<open>Snapshots on disk (\<open>storage/sqlite_store.py\<close> and the snapshot part of \<open>server/server.py\<close>)\<close>

text \<open>
  The table \<open>entries\<close> has one row per key. Saving replaces all rows in one transaction: a
  row that breaks the primary key, or a text that SQLite cannot store because it has no
  UTF-8 form, makes the statement fail and nothing is committed. The order in which
  \<open>SELECT\<close> returns the rows is the database's choice (\<open>select_order\<close>).
\<close>

type_synonym table = "SnapshotEntry list"

datatype sqlite_error = IntegrityError | BindError

definition bindable :: "SnapshotEntry \<Rightarrow> bool" where
  "bindable row = (case row of (key, val, deadline) \<Rightarrow> list_all scalar key \<and> list_all scalar val)"

fun insert_rows :: "SnapshotEntry list \<Rightarrow> table \<Rightarrow> sqlite_error + table" where
  "insert_rows [] t = Inr t"
| "insert_rows (row # rows) t =
     (if \<not> bindable row then Inl BindError
      else if fst row \<in> set (map fst t) then Inl IntegrityError
      else insert_rows rows (t @ [row]))"

definition save_entries :: "SnapshotEntry list \<Rightarrow> table \<Rightarrow> (sqlite_error + unit) \<times> table" where
  "save_entries entries t =
     (case insert_rows entries [] of
        Inl e \<Rightarrow> (Inl e, t)
      | Inr t' \<Rightarrow> (Inr (), t'))"

definition load_entries :: "(table \<Rightarrow> table) \<Rightarrow> table \<Rightarrow> SnapshotEntry list" where
  "load_entries select_order t = map (\<lambda>(key, val, deadline). (key, val, deadline)) (select_order t)"

text \<open>
  \<open>_flush_snapshot\<close>: the store is purged and copied; an error while saving is printed
  and otherwise ignored. Without a database (\<open>None\<close>) nothing happens.
\<close>

definition flush_snapshot ::
  "rat \<Rightarrow> table option \<Rightarrow> StorageEngine \<Rightarrow> table option \<times> StorageEngine" where
  "flush_snapshot now db s =
     (case db of
        None \<Rightarrow> (None, s)
      | Some t \<Rightarrow> (case snapshot now s of (entries, s1) \<Rightarrow> (Some (snd (save_entries entries t)), s1)))"

text \<open>The start of \<open>serve_forever\<close>: the table is created if it is missing and loaded.\<close>

definition restore_snapshot :: "(table \<Rightarrow> table) \<Rightarrow> rat \<Rightarrow> table option \<Rightarrow> StorageEngine \<Rightarrow> StorageEngine" where
  "restore_snapshot select_order now db s =
     (case db of None \<Rightarrow> s | Some t \<Rightarrow> load_snapshot now (load_entries select_order t) s)"

subsection \<open>Saving and loading\<close>

lemma insert_rows_ok:
  "list_all bindable rows \<Longrightarrow> distinct (map fst (t @ rows)) \<Longrightarrow> insert_rows rows t = Inr (t @ rows)"
  by (induction rows arbitrary: t) auto

lemma load_entries_id [simp]: "load_entries f t = f t"
  by (simp add: load_entries_def)

text \<open>Loading distinct rows: a key is there if its row is and the row has not expired.\<close>

lemma load_into_lookup:
  "distinct (map fst rows) \<Longrightarrow>
     lookup_key (load_entries_into now rows s) k =
       (case map_of rows k of
          Some (v, d) \<Rightarrow> if entry_expired now (mk_entry v d) then lookup_key s k else Some (mk_entry v d)
        | None \<Rightarrow> lookup_key s k)"
proof (induction rows arbitrary: s)
  case (Cons row rows)
  obtain k' v d where row: "row = (k', v, d)" by (cases row)
  have "map_of rows k' = None"
    using Cons.prems row by (simp add: map_of_eq_None_iff)
  then show ?case
    using Cons row by (auto simp: dict_simps split: option.splits)
qed simp

lemma snapshot_rows:
  "snapshot now s = (map (\<lambda>(k, e). (k, entry_value e, expires_at e)) (store (purge_expired_keys now s)),
     purge_expired_keys now s)"
  by (simp add: snapshot_def Let_def)


lemma purge_all_ok: "engine_ok s \<Longrightarrow> engine_ok (purge_expired_keys now s)"
proof -
  have "engine_ok s \<Longrightarrow> engine_ok (fold delete_key ks s)" for ks
    by (induction ks arbitrary: s) auto
  then show "engine_ok s \<Longrightarrow> ?thesis" by (simp add: purge_expired_keys_def)
qed

lemma snapshot_distinct: "engine_ok s \<Longrightarrow> distinct (map fst (fst (snapshot now s)))"
  using purge_all_ok [of s now]
  by (simp add: snapshot_rows engine_ok_def dict_ok_def o_def split_beta)

lemma snapshot_map_of:
  "engine_ok s \<Longrightarrow>
     map_of (fst (snapshot now s)) k = map_option (\<lambda>e. (entry_value e, expires_at e)) (live now s k)"
  using purge_all_lookup [of s now k]
  by (simp add: snapshot_rows map_of_map lookup_key_def dict_get_def)

lemma mk_entry_eta [simp]: "mk_entry (entry_value e) (expires_at e) = e"
  by (cases e) (simp add: mk_entry_def)

lemma restore_lookup:
  assumes "engine_ok s" and "mset rows = mset (fst (snapshot now s))"
  shows "lookup_key (load_snapshot now' rows s0) k =
    (case live now s k of None \<Rightarrow> None | Some e \<Rightarrow> if entry_expired now' e then None else Some e)"
proof -
  have "mset (map fst rows) = mset (map fst (fst (snapshot now s)))"
    using assms(2) by (simp only: mset_map)
  then have d: "distinct (map fst rows)"
    using snapshot_distinct [OF assms(1)] mset_eq_imp_distinct_iff by blast
  have "set rows = set (fst (snapshot now s))" using assms(2) by (rule mset_eq_setD)
  then have "map_of rows = map_of (fst (snapshot now s))"
    using map_of_inject_set [OF d snapshot_distinct [OF assms(1)]] by blast
  then show ?thesis
    using snapshot_map_of [OF assms(1)] load_into_lookup [OF d]
    by (auto simp: load_snapshot_def lookup_key_def split: option.splits)
qed

lemma restore_live:
  assumes "engine_ok s" and "mset rows = mset (fst (snapshot now s))" and "now \<le> now'"
  shows "live now' (load_snapshot now' rows s0) = live now' s"
  using assms(3) entry_expired_mono
  by (intro ext) (auto simp: live_def [of now' "load_snapshot now' rows s0"] restore_lookup [OF assms(1,2)],
      auto simp: live_def split: option.splits)


subsection \<open>Every store that clients can build can be saved\<close>

definition texts_ok :: "StorageEngine \<Rightarrow> bool" where
  "texts_ok s \<longleftrightarrow> (\<forall>(k, e) \<in> set (store s). list_all scalar k \<and> list_all scalar (entry_value e))"

lemma dict_set_subset: "set (dict_set k v d) \<subseteq> insert (k, v) (set d)"
  by (induction d) (auto simp: dict_set_def)

lemma dict_pop_subset: "set (dict_pop k d) \<subseteq> set d"
  by (induction d) (auto simp: dict_pop_def)

lemma texts_store [intro]:
  "texts_ok s \<Longrightarrow> list_all scalar k \<Longrightarrow> list_all scalar (entry_value e) \<Longrightarrow> texts_ok (store_key k e s)"
  using dict_set_subset [of k e "store s"] by (auto simp: texts_ok_def store_key_def)

lemma texts_delete [intro]: "texts_ok s \<Longrightarrow> texts_ok (delete_key k s)"
  using dict_pop_subset [of k "store s"] by (auto simp: texts_ok_def delete_key_def)

lemma texts_purge: "purge_if_expired k now s = (b, s1) \<Longrightarrow> texts_ok s \<Longrightarrow> texts_ok s1"
  by (auto simp: purge_if_expired_def split: option.splits if_splits)

lemma texts_status: "seat_status_by_key now k s = (r, s1) \<Longrightarrow> texts_ok s \<Longrightarrow> texts_ok s1"
  by (auto simp: seat_status_by_key_def Let_def dest!: texts_purge
      split: prod.splits bool.splits option.splits sum.splits)

lemma texts_status_snd: "texts_ok s \<Longrightarrow> texts_ok (snd (seat_status_by_key now k s))"
  using texts_status by (metis prod.collapse)

lemma small_scalar: "c < 128 \<Longrightarrow> scalar c"
  by (simp add: scalar_def)

lemma hex_digit_scalar [simp]: "n < 16 \<Longrightarrow> scalar (hex_digit n)"
  by (simp add: hex_digit_def small_scalar)

lemma u_escape_small: "list_all scalar (u_escape c)"
  by (simp add: u_escape_def small_scalar)

lemma escape_scalar: "list_all scalar (escape_cp c)"
  by (simp add: escape_cp_def u_escape_small small_scalar)

lemma dumps_str_scalar [simp]: "list_all scalar (dumps_str s)"
  using escape_scalar by (auto simp: dumps_str_def list_all_iff small_scalar)

lemma seat_record_scalar [simp]: "list_all scalar (serialize_seat_record st u)"
  by (simp add: serialize_seat_record_def small_scalar split: option.split)

lemma join_comma_scalar: "list_all (list_all scalar) ts \<Longrightarrow> list_all scalar (join_comma ts)"
  by (induction ts rule: join_comma.induct) (auto simp: small_scalar)

lemma queue_scalar [simp]: "list_all scalar (serialize_queue q)"
  by (simp add: serialize_queue_def small_scalar join_comma_scalar list_all_iff [of "list_all scalar"])

lemma keys_scalar:
  "list_all scalar ev \<Longrightarrow> list_all scalar st \<Longrightarrow> list_all scalar (seat_key ev st)"
  "list_all scalar ev \<Longrightarrow> list_all scalar (queue_key ev)"
  by (simp_all add: seat_key_def queue_key_def)

lemma texts_store_queue [intro]:
  "texts_ok s \<Longrightarrow> list_all scalar k \<Longrightarrow> texts_ok (store_queue k q s)"
  by (auto simp: store_queue_def)

lemma texts_purge_snd: "texts_ok s \<Longrightarrow> texts_ok (snd (purge_if_expired k now s))"
  using texts_purge by (metis prod.collapse)

lemma texts_lookup: "texts_ok s \<Longrightarrow> lookup_key s k = Some e \<Longrightarrow> list_all scalar (entry_value e)"
  by (auto simp: texts_ok_def lookup_key_def dict_get_def dest!: map_of_SomeD)

lemma texts_kv:
  assumes "texts_ok s" and "list_all scalar k"
  shows "list_all scalar v \<Longrightarrow> texts_ok (eng_set k v s)"
    and "texts_ok (snd (eng_get now k s))"
    and "texts_ok (snd (eng_delete now k s))"
    and "texts_ok (snd (eng_ttl now k s))"
  using assms texts_purge_snd [OF assms(1), of k now]
  by (auto simp: eng_set_def eng_get_def eng_delete_def eng_ttl_def Let_def
      split: option.split prod.split bool.split)

lemma texts_expire:
  assumes "texts_ok s" and "list_all scalar k"
  shows "texts_ok (snd (eng_expire now k n opt s))"
proof -
  obtain b s1 where p: "purge_if_expired k now s = (b, s1)" by fastforce
  then have ok: "texts_ok s1" using assms(1) texts_purge by blast
  moreover have "lookup_key s1 k = Some e \<Longrightarrow> texts_ok (store_key k (e\<lparr>expires_at := d\<rparr>) s1)" for e d
    using ok texts_lookup assms(2) by auto
  ultimately show ?thesis
    using assms(1) p by (auto simp: eng_expire_def split: sum.split bool.split option.split)
qed

lemma texts_seat:
  assumes "texts_ok s" and "list_all scalar ev" and "list_all scalar st"
  shows "texts_ok (snd (reserve_seat now ev st u h s))"
    and "texts_ok (snd (confirm_seat now ev st u s))"
    and "texts_ok (snd (force_confirm_seat ev st u s))"
    and "texts_ok (snd (release_seat now ev st u s))"
    and "texts_ok (snd (seat_status now ev st s))"
  using assms keys_scalar(1) [OF assms(2,3)] texts_status_snd [OF assms(1), of now "seat_key ev st"]
  by (auto simp: reserve_seat_def confirm_seat_def force_confirm_seat_def release_seat_def
      seat_status_def Let_def split: prod.split sum.split)

lemma texts_queue:
  assumes "texts_ok s" and "list_all scalar ev"
  shows "texts_ok (snd (join_queue ev u s))"
    and "texts_ok (snd (pop_queue ev s))"
    and "texts_ok (snd (leave_queue ev u s))"
    and "texts_ok (snd (queue_position ev u s))"
    and "texts_ok (snd (peek_queue ev s))"
  using assms keys_scalar(2) [OF assms(2)]
  by (auto simp: queue_ops Let_def split: sum.split list.split)

lemma handle_texts:
  assumes "texts_ok s" and "list_all (list_all scalar) c"
  shows "texts_ok (snd (handle_command now c s))"
proof (cases "validate_command c")
  case (Inl err)
  then show ?thesis using assms(1) by (simp add: handle_rejected)
next
  case (Inr x)
  obtain name args where "x = (name, args)" by (cases x)
  with Inr have v: "validate_command c = Inr (name, args)" by simp
  have args: "list_all (list_all scalar) args"
    using v assms(2) by (cases c) (auto simp: validate_command_def Let_def split: if_splits option.splits)
  note ops = texts_kv [OF assms(1)] texts_expire [OF assms(1)] texts_seat [OF assms(1)] texts_queue [OF assms(1)]
  from v show ?thesis
  proof (cases rule: command_cases)
    case EXPIRE
    with v args assms(1) show ?thesis
      by (auto simp: handle_dispatch(4) ops dest: parse_expire_key split: sum.split)
  next
    case EXPIRE_OPT
    with v args assms(1) show ?thesis
      by (auto simp: handle_dispatch(4) ops dest: parse_expire_key split: sum.split)
  next
    case RESERVE
    with v args assms(1) show ?thesis
      by (auto simp: handle_dispatch(6) parse_reserve_arguments_def ops split: sum.split option.split)
  qed (use v args in \<open>simp_all add: handle_dispatch ops\<close>)
qed

lemma texts_purge_all: "texts_ok s \<Longrightarrow> texts_ok (purge_expired_keys now s)"
proof -
  have "texts_ok s \<Longrightarrow> texts_ok (fold delete_key ks s)" for ks
    by (induction ks arbitrary: s) auto
  then show "texts_ok s \<Longrightarrow> ?thesis" by (simp add: purge_expired_keys_def)
qed

lemma snapshot_bindable: "texts_ok s \<Longrightarrow> list_all bindable (fst (snapshot now s))"
  using texts_purge_all [of s now]
  by (auto simp: snapshot_rows texts_ok_def bindable_def list_all_iff [of bindable])

lemma flush_table:
  assumes "engine_ok s" and "texts_ok s"
  shows "flush_snapshot now (Some t) s = (Some (fst (snapshot now s)), purge_expired_keys now s)"
  using insert_rows_ok [OF snapshot_bindable [OF assms(2)], of "[]"] snapshot_distinct [OF assms(1)]
  by (simp add: flush_snapshot_def save_entries_def snapshot_rows)

end
