(* ===== verification/Executor.thy ===== *)
theory Executor
  imports Server "HOL-Library.Multiset"
begin

section \<open>The command executor (\<open>server/executor.py\<close>)\<close>

text \<open>
  Client threads put tasks on a queue and wait; a worker thread takes them off and calls the
  handler. The threads interleave, so the executor is a step relation over its shared state.
  A task is named by a number, the identity of its \<open>CommandTask\<close> object. Steps:
  \<^item> \<open>start\<close> and \<open>stop\<close>, called by the server; each start makes a worker thread;
  \<^item> \<open>execute\<close> in two parts, as the code has them: the test of \<open>_running\<close>
    (\<open>Enter\<close>) and, later, \<open>queue.put\<close> (\<open>Put\<close>); the wait for the result is \<open>ex_await\<close>;
  \<^item> a worker takes the head of the queue (\<open>Take\<close>), or leaves when it is the
    \<open>None\<close> that \<open>stop\<close> put there (\<open>Quit\<close>);
  \<^item> a worker calls the handler (\<open>Call\<close>), which works on the store it finds; the call returns
    (\<open>Return\<close>), which leaves the store it has made and the result or the exception of the task;
    and the worker sets the event of the task (\<open>Done\<close>).

  Nothing in a step makes calls of the handler exclude one another: two workers could be inside
  calls at once, and the one that returns last would undo what the other has done. That this
  does not happen is a property of the executor.

  The fields \<open>submitted\<close> and \<open>ran\<close> record the order in which tasks were put on the
  queue and in which their calls returned; the code has no such fields and nothing reads them.
\<close>

record task =
  task_id :: nat
  task_command :: "ustr list"

datatype 'w worker = Idle | Busy task | Calling task 'w | Returned task

record ('w, 'r) executor_state =
  running :: bool
  workers :: "'w worker list"
  queue :: "task option list"
  entered :: "task list"
  results :: "nat \<Rightarrow> 'r option"
  finished :: "nat set"
  submitted :: "task list"
  ran :: "task list"
  ex_world :: 'w

definition new_executor :: "'w \<Rightarrow> ('w, 'r) executor_state" where
  "new_executor w =
     \<lparr>running = False, workers = [], queue = [], entered = [], results = (\<lambda>_. None), finished = {},
      submitted = [], ran = [], ex_world = w\<rparr>"

definition ex_start :: "('w, 'r) executor_state \<Rightarrow> ('w, 'r) executor_state" where
  "ex_start s = (if running s then s else s\<lparr>running := True, workers := workers s @ [Idle]\<rparr>)"

definition ex_stop :: "('w, 'r) executor_state \<Rightarrow> ('w, 'r) executor_state" where
  "ex_stop s = (if running s then s\<lparr>running := False, queue := queue s @ [None]\<rparr> else s)"

text \<open>The part of \<open>execute\<close> before the queue: \<open>Inl\<close> is the \<open>RuntimeError\<close>.\<close>

definition ex_enter :: "task \<Rightarrow> ('w, 'r) executor_state \<Rightarrow> ustr + ('w, 'r) executor_state" where
  "ex_enter t s =
     (if \<not> running s then Inl (lit ''command executor is not running'')
      else Inr (s\<lparr>entered := entered s @ [t]\<rparr>))"

definition ex_put :: "task \<Rightarrow> ('w, 'r) executor_state \<Rightarrow> ('w, 'r) executor_state" where
  "ex_put t s = s\<lparr>entered := remove1 t (entered s), queue := queue s @ [Some t],
     submitted := submitted s @ [t]\<rparr>"

definition ex_call :: "nat \<Rightarrow> task \<Rightarrow> ('w, 'r) executor_state \<Rightarrow> ('w, 'r) executor_state" where
  "ex_call i t s = s\<lparr>workers := (workers s)[i := Calling t (ex_world s)]\<rparr>"

text \<open>The call of worker \<open>i\<close>, begun on the store \<open>w\<close>, returns or raises.\<close>

definition ex_run ::
  "(ustr list \<Rightarrow> 'w \<Rightarrow> 'r \<times> 'w) \<Rightarrow> nat \<Rightarrow> task \<Rightarrow> 'w \<Rightarrow> ('w, 'r) executor_state \<Rightarrow> ('w, 'r) executor_state" where
  "ex_run handler i t w s =
     (case handler (task_command t) w of
        (r, w1) \<Rightarrow>
          s\<lparr>workers := (workers s)[i := Returned t], results := (results s)(task_id t \<mapsto> r),
            ran := ran s @ [t], ex_world := w1\<rparr>)"

definition ex_done :: "nat \<Rightarrow> task \<Rightarrow> ('w, 'r) executor_state \<Rightarrow> ('w, 'r) executor_state" where
  "ex_done i t s = s\<lparr>workers := (workers s)[i := Idle], finished := insert (task_id t) (finished s)\<rparr>"

text \<open>
  The end of \<open>execute\<close>, for a caller that waits for the event: the result, or, when the time is up
  before it, the \<open>TimeoutError\<close>; none while the caller is blocked. A task whose caller has given up
  stays where it is.
\<close>

definition ex_await :: "nat \<Rightarrow> bool \<Rightarrow> ('w, 'r) executor_state \<Rightarrow> (ustr + 'r) option" where
  "ex_await i timed_out s =
     (if i \<in> finished s
      then (case results s i of
              Some r \<Rightarrow> Some (Inr r)
            | None \<Rightarrow> Some (Inl (lit ''command execution did not produce a result'')))
      else if timed_out then Some (Inl (lit ''command execution timed out'')) else None)"

text \<open>The task that a worker has in hand and whose call has not returned.\<close>

fun worker_task :: "'w worker \<Rightarrow> task list" where
  "worker_task Idle = []"
| "worker_task (Busy t) = [t]"
| "worker_task (Calling t w) = [t]"
| "worker_task (Returned t) = []"

definition busy_tasks :: "('w, 'r) executor_state \<Rightarrow> task list" where
  "busy_tasks s = concat (map worker_task (workers s))"

definition queued_tasks :: "('w, 'r) executor_state \<Rightarrow> task list" where
  "queued_tasks s = List.map_filter id (queue s)"

definition all_tasks :: "('w, 'r) executor_state \<Rightarrow> task list" where
  "all_tasks s = ran s @ busy_tasks s @ queued_tasks s @ entered s"

text \<open>Every call of \<open>execute\<close> creates a task of its own (\<open>Enter\<close>).\<close>

inductive ex_step ::
  "(ustr list \<Rightarrow> 'w \<Rightarrow> 'r \<times> 'w) \<Rightarrow> ('w, 'r) executor_state \<Rightarrow> ('w, 'r) executor_state \<Rightarrow> bool"
  for handler where
  Start: "ex_step handler s (ex_start s)"
| Stop: "ex_step handler s (ex_stop s)"
| Enter: "ex_enter t s = Inr s' \<Longrightarrow> task_id t \<notin> set (map task_id (all_tasks s)) \<Longrightarrow> ex_step handler s s'"
| Put: "t \<in> set (entered s) \<Longrightarrow> ex_step handler s (ex_put t s)"
| Take: "i < length (workers s) \<Longrightarrow> workers s ! i = Idle \<Longrightarrow> queue s = Some t # q \<Longrightarrow>
    ex_step handler s (s\<lparr>workers := (workers s)[i := Busy t], queue := q\<rparr>)"
| Quit: "i < length (workers s) \<Longrightarrow> workers s ! i = Idle \<Longrightarrow> queue s = None # q \<Longrightarrow>
    ex_step handler s (s\<lparr>workers := take i (workers s) @ drop (Suc i) (workers s), queue := q\<rparr>)"
| Call: "i < length (workers s) \<Longrightarrow> workers s ! i = Busy t \<Longrightarrow> ex_step handler s (ex_call i t s)"
| Return: "i < length (workers s) \<Longrightarrow> workers s ! i = Calling t w \<Longrightarrow>
    ex_step handler s (ex_run handler i t w s)"
| Done: "i < length (workers s) \<Longrightarrow> workers s ! i = Returned t \<Longrightarrow> ex_step handler s (ex_done i t s)"

inductive_cases ex_stepE: "ex_step handler s s'"

text \<open>
  The life of the server's executor: \<open>serve_forever\<close> starts it once, and it is not
  started again after it was stopped.
\<close>

inductive ex_served ::
  "(ustr list \<Rightarrow> 'w \<Rightarrow> 'r \<times> 'w) \<Rightarrow> 'w \<Rightarrow> ('w, 'r) executor_state \<Rightarrow> bool"
  for handler w0 where
  Begin: "ex_served handler w0 (ex_start (new_executor w0))"
| Continue: "ex_served handler w0 s \<Longrightarrow> ex_step handler s s' \<Longrightarrow> running s \<or> \<not> running s' \<Longrightarrow>
    ex_served handler w0 s'"

text \<open>The specification: the tasks one after the other, each on the world the last one left.\<close>

fun serial ::
  "(ustr list \<Rightarrow> 'w \<Rightarrow> 'r \<times> 'w) \<Rightarrow> task list \<Rightarrow> 'w \<Rightarrow> (nat \<times> 'r) list \<times> 'w" where
  "serial handler [] w = ([], w)"
| "serial handler (t # ts) w =
     (case handler (task_command t) w of
        (r, w1) \<Rightarrow> (case serial handler ts w1 of (rs, w2) \<Rightarrow> ((task_id t, r) # rs, w2)))"

subsection \<open>Every task is somewhere, once\<close>

lemma serial_snoc:
  "serial handler ts w = (rs, w1) \<Longrightarrow> handler (task_command t) w1 = (r, w2) \<Longrightarrow>
     serial handler (ts @ [t]) w = (rs @ [(task_id t, r)], w2)"
  by (induction ts arbitrary: w rs) (auto split: prod.splits)

lemma serial_ids: "map fst (fst (serial handler ts w)) = map task_id ts"
  by (induction ts arbitrary: w) (simp_all add: split_beta)

lemma busy_update:
  assumes "i < length ws"
  shows "mset (concat (map worker_task (ws[i := x]))) + mset (worker_task (ws ! i)) =
    mset (concat (map worker_task ws)) + mset (worker_task x)"
  using assms
proof (induction ws arbitrary: i)
  case (Cons v ws)
  then show ?case by (cases i) (auto simp: ac_simps)
qed simp

lemma busy_remove:
  assumes "i < length ws" and "ws ! i = Idle"
  shows "concat (map worker_task (take i ws @ drop (Suc i) ws)) = concat (map worker_task ws)"
  using assms by (subst (3) id_take_nth_drop [OF assms(1)]) simp

lemma map_filter_snoc [simp]:
  "List.map_filter id (q @ [x]) = List.map_filter id q @ (case x of None \<Rightarrow> [] | Some t \<Rightarrow> [t])"
  by (induction q) (auto simp: List.map_filter_simps split: option.split)

text \<open>No step loses or duplicates a task; \<open>Enter\<close> adds one.\<close>

lemma all_tasks_step:
  assumes "ex_step handler s s'"
  shows "mset (all_tasks s') = mset (all_tasks s) \<or>
    (\<exists>t. mset (all_tasks s') = add_mset t (mset (all_tasks s)) \<and> task_id t \<notin> task_id ` set (all_tasks s))"
  using assms
proof cases
  case (Take i t q)
  then show ?thesis
    using busy_update [OF Take(2), of "Busy t"]
    by (simp add: all_tasks_def busy_tasks_def queued_tasks_def List.map_filter_simps)
next
  case (Call i t)
  then show ?thesis
    using busy_update [OF Call(2), of "Calling t (ex_world s)"]
    by (simp add: all_tasks_def busy_tasks_def queued_tasks_def ex_call_def)
next
  case (Return i t w)
  then show ?thesis
    using busy_update [OF Return(2), of "Returned t"]
    by (auto simp: all_tasks_def busy_tasks_def queued_tasks_def ex_run_def split: prod.split)
next
  case (Done i t)
  then show ?thesis
    using busy_update [OF Done(2), of Idle]
    by (simp add: all_tasks_def busy_tasks_def queued_tasks_def ex_done_def)
next
  case (Enter t)
  then have "all_tasks s' = all_tasks s @ [t]"
    by (auto simp: all_tasks_def busy_tasks_def queued_tasks_def ex_enter_def split: if_splits)
  then show ?thesis using Enter(2) by auto
next
  case (Quit i q)
  have "busy_tasks s' = busy_tasks s"
    using busy_remove [OF Quit(2,3)] Quit(1) by (simp add: busy_tasks_def)
  then show ?thesis
    using Quit by (simp add: all_tasks_def queued_tasks_def)
qed (auto simp: all_tasks_def busy_tasks_def queued_tasks_def ex_start_def ex_stop_def ex_put_def)

lemma distinct_ids_mset:
  assumes "distinct (map f xs)" and "mset ys = mset xs"
  shows "distinct (map f ys)"
proof -
  have "image_mset f (mset ys) = image_mset f (mset xs)" by (simp only: assms(2))
  then have "mset (map f ys) = mset (map f xs)" by simp
  then have "distinct (map f ys) = distinct (map f xs)" by (rule mset_eq_imp_distinct_iff)
  with assms(1) show ?thesis by simp
qed

lemma distinct_step:
  assumes "ex_step handler s s'" and "distinct (map task_id (all_tasks s))"
  shows "distinct (map task_id (all_tasks s'))"
  using all_tasks_step [OF assms(1)]
proof
  assume "\<exists>t. mset (all_tasks s') = add_mset t (mset (all_tasks s)) \<and> task_id t \<notin> task_id ` set (all_tasks s)"
  then obtain t where t: "mset (all_tasks s') = add_mset t (mset (all_tasks s))"
    "task_id t \<notin> task_id ` set (all_tasks s)" by blast
  have "distinct (map task_id (t # all_tasks s))" using t(2) assms(2) by simp
  moreover have "mset (all_tasks s') = mset (t # all_tasks s)" using t(1) by simp
  ultimately show ?thesis by (rule distinct_ids_mset)
qed (rule distinct_ids_mset [OF assms(2)])

subsection \<open>One worker, first in, first out\<close>

text \<open>
  From the one start of the server on there is at most one worker, and the tasks whose calls have
  returned, the one in progress and the queue are, in this order, the tasks in the order of
  submission. While the executor runs, the worker is there; after the stop it has left, or the
  end marker is still in the queue.
\<close>

definition fifo_inv :: "('w, 'r) executor_state \<Rightarrow> bool" where
  "fifo_inv s \<longleftrightarrow>
     length (workers s) \<le> 1 \<and>
     submitted s = ran s @ busy_tasks s @ queued_tasks s \<and>
     (running s \<longrightarrow> length (workers s) = 1 \<and> None \<notin> set (queue s)) \<and>
     (\<not> running s \<longrightarrow> workers s = [] \<or> None \<in> set (queue s))"

lemma one_worker: "length ws \<le> 1 \<Longrightarrow> i < length ws \<Longrightarrow> ws = [ws ! i] \<and> i = 0"
  by (cases ws) auto

lemmas busy_defs = busy_tasks_def queued_tasks_def

lemma fifo_step:
  assumes "fifo_inv s" and "ex_step handler s s'" and "running s \<or> \<not> running s'"
  shows "fifo_inv s'"
  using assms(2)
proof cases
  case (Take i t q)
  then have "workers s = [Idle]" "i = 0" using one_worker [of "workers s" i] assms(1) by (auto simp: fifo_inv_def)
  then show ?thesis using Take assms(1) by (auto simp: fifo_inv_def busy_defs)
next
  case (Quit i q)
  then have "workers s = [Idle]" "i = 0" using one_worker [of "workers s" i] assms(1) by (auto simp: fifo_inv_def)
  then show ?thesis using Quit assms(1) by (auto simp: fifo_inv_def busy_defs)
next
  case (Call i t)
  then have "workers s = [Busy t]" "i = 0" using one_worker [of "workers s" i] assms(1) by (auto simp: fifo_inv_def)
  then show ?thesis using Call assms(1) by (auto simp: fifo_inv_def busy_defs ex_call_def)
next
  case (Return i t w)
  then have "workers s = [Calling t w]" "i = 0" using one_worker [of "workers s" i] assms(1) by (auto simp: fifo_inv_def)
  then show ?thesis using Return assms(1) by (auto simp: fifo_inv_def busy_defs ex_run_def split: prod.split)
next
  case (Done i t)
  then have "workers s = [Returned t]" "i = 0" using one_worker [of "workers s" i] assms(1) by (auto simp: fifo_inv_def)
  then show ?thesis using Done assms(1) by (auto simp: fifo_inv_def busy_defs ex_done_def)
qed (use assms(1,3) in \<open>auto simp: fifo_inv_def busy_defs ex_start_def ex_stop_def ex_enter_def ex_put_def
      split: if_splits\<close>)

subsection \<open>Serialised execution\<close>

text \<open>
  A call in progress works on the current store, the store and the results are those of the
  sequential run of the tasks whose calls have returned, and their events are set, but for the
  one that a worker is about to set.
\<close>

definition call_inv ::
  "(ustr list \<Rightarrow> 'w \<Rightarrow> 'r \<times> 'w) \<Rightarrow> 'w \<Rightarrow> ('w, 'r) executor_state \<Rightarrow> bool" where
  "call_inv handler w0 s \<longleftrightarrow>
     serial handler (ran s) w0 = (fst (serial handler (ran s) w0), ex_world s) \<and>
     results s = map_of (fst (serial handler (ran s) w0)) \<and>
     (\<forall>t w. Calling t w \<in> set (workers s) \<longrightarrow> w = ex_world s) \<and>
     (\<forall>i. i \<in> task_id ` set (ran s) \<longleftrightarrow> i \<in> finished s \<or> (\<exists>t. Returned t \<in> set (workers s) \<and> task_id t = i))"

lemma call_step:
  assumes "call_inv handler w0 s" and "fifo_inv s" and "distinct (map task_id (all_tasks s))"
    and "ex_step handler s s'"
  shows "call_inv handler w0 s'"
  using assms(4)
proof cases
  case (Take i t q)
  then have "workers s = [Idle]" "i = 0" using one_worker [of "workers s" i] assms(2) by (auto simp: fifo_inv_def)
  then show ?thesis using Take assms(1) by (auto simp: call_inv_def)
next
  case (Quit i q)
  then have "workers s = [Idle]" "i = 0" using one_worker [of "workers s" i] assms(2) by (auto simp: fifo_inv_def)
  then show ?thesis using Quit assms(1) by (auto simp: call_inv_def)
next
  case (Call i t)
  then have "workers s = [Busy t]" "i = 0" using one_worker [of "workers s" i] assms(2) by (auto simp: fifo_inv_def)
  then show ?thesis using Call assms(1) by (auto simp: call_inv_def ex_call_def)
next
  case (Return i t w)
  then have one: "workers s = [Calling t w]" "i = 0"
    using one_worker [of "workers s" i] assms(2) by (auto simp: fifo_inv_def)
  then have w: "w = ex_world s" using assms(1) by (simp add: call_inv_def)
  obtain r w1 where h: "handler (task_command t) (ex_world s) = (r, w1)" by fastforce
  let ?rs = "fst (serial handler (ran s) w0)"
  have run: "serial handler (ran s @ [t]) w0 = (?rs @ [(task_id t, r)], w1)"
    using assms(1) h serial_snoc by (metis call_inv_def)
  have "task_id t \<notin> set (map task_id (ran s))"
    using assms(3) one by (auto simp: all_tasks_def busy_tasks_def)
  then have "map_of ?rs (task_id t) = None"
    by (simp add: map_of_eq_None_iff serial_ids [symmetric, where handler = handler and w = w0])
  then have "(results s)(task_id t \<mapsto> r) = map_of (?rs @ [(task_id t, r)])"
    using assms(1) by (auto simp: call_inv_def map_add_def fun_eq_iff split: option.split)
  moreover have "i \<in> task_id ` set (ran s @ [t]) \<longleftrightarrow> i \<in> finished s \<or> task_id t = i" for i
    using assms(1) one by (auto simp: call_inv_def)
  ultimately show ?thesis using one w h run by (simp add: Return(1) call_inv_def ex_run_def)
next
  case (Done i t)
  then have "workers s = [Returned t]" "i = 0" using one_worker [of "workers s" i] assms(2) by (auto simp: fifo_inv_def)
  then show ?thesis using Done assms(1) by (auto simp: call_inv_def ex_done_def)
qed (use assms(1) in \<open>auto simp: call_inv_def ex_start_def ex_stop_def ex_enter_def ex_put_def split: if_splits\<close>)

lemma served_inv:
  assumes "ex_served handler w0 s"
  shows "fifo_inv s \<and> distinct (map task_id (all_tasks s)) \<and> call_inv handler w0 s"
  using assms
proof induction
  case Begin
  show ?case
    by (simp add: fifo_inv_def call_inv_def all_tasks_def busy_defs ex_start_def new_executor_def)
next
  case (Continue s s')
  then show ?case
    using fifo_step [OF _ Continue.hyps(2,3)] call_step [OF _ _ _ Continue.hyps(2)] distinct_step [OF Continue.hyps(2)]
    by simp
qed

text \<open>Only tasks whose calls have returned have an answer, the one of the sequential run.\<close>

lemma answered_tasks:
  assumes "call_inv handler w0 s" and "ex_await i timed_out s = Some (Inr r)"
  shows "(i, r) \<in> set (fst (serial handler (ran s) w0))"
  using assms by (auto simp: call_inv_def ex_await_def map_of_SomeD split: if_splits option.splits)

lemma unfinished_task:
  assumes "call_inv handler w0 s" and "distinct (map task_id (all_tasks s))" and "t \<in> set (queued_tasks s)"
  shows "task_id t \<notin> finished s"
proof -
  have "task_id t \<notin> task_id ` set (ran s)" using assms(2,3) by (auto simp: all_tasks_def)
  then show ?thesis using assms(1) unfolding call_inv_def by blast
qed

subsection \<open>Submitted tasks get done\<close>

fun phase_left :: "'w worker \<Rightarrow> nat" where
  "phase_left Idle = 0"
| "phase_left (Busy t) = 3"
| "phase_left (Calling t w) = 2"
| "phase_left (Returned t) = 1"

definition work_left :: "('w, 'r) executor_state \<Rightarrow> nat" where
  "work_left s = 4 * length (queued_tasks s) + sum_list (map phase_left (workers s))"

lemma worker_makes_progress:
  assumes "fifo_inv s" and "running s" and "0 < work_left s"
  shows "\<exists>s'. ex_step handler s s' \<and> running s' \<and> work_left s' < work_left s \<and> submitted s' = submitted s"
proof -
  note inv = assms(1) [unfolded fifo_inv_def]
  then obtain v where v: "workers s = [v]" using assms(2) by (auto simp: length_Suc_conv)
  show ?thesis
  proof (cases v)
    case Idle
    then obtain t q where q: "queue s = Some t # q"
      using assms(2,3) inv v
      by (cases "queue s") (auto simp: work_left_def queued_tasks_def split: option.splits)
    let ?s = "s\<lparr>workers := (workers s)[0 := Busy t], queue := q\<rparr>"
    have "ex_step handler s ?s" by (rule ex_step.Take) (use v Idle q in auto)
    then show ?thesis
      using assms(2) v Idle q by (intro exI [of _ ?s]) (simp add: work_left_def queued_tasks_def)
  next
    case (Busy t)
    then have "ex_step handler s (ex_call 0 t s)" using v by (auto intro: ex_step.Call)
    then show ?thesis
      using assms(2) v Busy by (intro exI [of _ "ex_call 0 t s"]) (simp add: work_left_def queued_tasks_def ex_call_def)
  next
    case (Calling t w)
    then have "ex_step handler s (ex_run handler 0 t w s)" using v by (auto intro: ex_step.Return)
    then show ?thesis
      using assms(2) v Calling
      by (intro exI [of _ "ex_run handler 0 t w s"]) (simp add: work_left_def queued_tasks_def ex_run_def split: prod.split)
  next
    case (Returned t)
    then have "ex_step handler s (ex_done 0 t s)" using v by (auto intro: ex_step.Done)
    then show ?thesis
      using assms(2) v Returned by (intro exI [of _ "ex_done 0 t s"]) (simp add: work_left_def queued_tasks_def ex_done_def)
  qed
qed

lemma worker_drains:
  assumes "ex_served handler w0 s" and "running s"
  shows "\<exists>s'. (ex_step handler)\<^sup>*\<^sup>* s s' \<and> ex_served handler w0 s' \<and> work_left s' = 0 \<and> submitted s' = submitted s"
  using assms
proof (induction "work_left s" arbitrary: s rule: less_induct)
  case less
  show ?case
  proof (cases "work_left s = 0")
    case False
    then obtain s1 where s1: "ex_step handler s s1" "running s1" "work_left s1 < work_left s"
      "submitted s1 = submitted s"
      using worker_makes_progress [of s handler] served_inv [OF less.prems(1)] less.prems(2) by auto
    moreover have "ex_served handler w0 s1" using less.prems s1 by (auto intro: ex_served.Continue)
    ultimately obtain s' where "(ex_step handler)\<^sup>*\<^sup>* s1 s'" "ex_served handler w0 s'" "work_left s' = 0"
      "submitted s' = submitted s" using less.hyps [of s1] by auto
    then show ?thesis using s1(1) by (meson converse_rtranclp_into_rtranclp)
  qed (use less.prems in blast)
qed

lemma nothing_left:
  assumes "ex_served handler w0 s" and "work_left s = 0"
  shows "ran s = submitted s" and "finished s = task_id ` set (submitted s)"
proof -
  note inv = served_inv [OF assms(1)]
  have idle: "v = Idle" if "v \<in> set (workers s)" for v
    using assms(2) that by (cases v) (auto simp: work_left_def)
  then have "\<forall>v\<in>set (workers s). worker_task v = []" by (metis worker_task.simps(1))
  then have "busy_tasks s = []" by (simp add: busy_tasks_def)
  then show ran: "ran s = submitted s" using inv assms(2) by (simp add: fifo_inv_def work_left_def)
  show "finished s = task_id ` set (submitted s)"
    using inv idle unfolding call_inv_def ran by fastforce
qed

subsection \<open>A task that arrives after the stop\<close>

text \<open>
  \<open>execute\<close> tests \<open>_running\<close> and puts its task later. When \<open>stop\<close> comes in between, the task
  lands behind the end marker, or on the queue of a worker that has left, and nobody runs it
  unless the executor is started again. \<open>ex_onward\<close> are the steps that are not a restart.
\<close>

definition ex_onward ::
  "(ustr list \<Rightarrow> 'w \<Rightarrow> 'r \<times> 'w) \<Rightarrow> ('w, 'r) executor_state \<Rightarrow> ('w, 'r) executor_state \<Rightarrow> bool" where
  "ex_onward handler s s' \<longleftrightarrow> ex_step handler s s' \<and> (running s \<or> \<not> running s')"

definition abandoned :: "task \<Rightarrow> ('w, 'r) executor_state \<Rightarrow> bool" where
  "abandoned t s \<longleftrightarrow> \<not> running s \<and> t \<in> set (queued_tasks s) \<and>
     (workers s = [] \<or> (\<exists>q q'. queue s = q @ None # q' \<and> Some t \<notin> set q))"

lemma queued_iff: "t \<in> set (queued_tasks s) \<longleftrightarrow> Some t \<in> set (queue s)"
  by (force simp: queued_tasks_def List.map_filter_def)

lemma put_abandoned:
  assumes "ex_served handler w0 s" and "t \<in> set (entered s)" and "\<not> running s"
  shows "abandoned t (ex_put t s)"
proof -
  note inv = served_inv [OF assms(1)]
  have new: "Some t \<notin> set (queue s)"
    using inv assms(2) unfolding queued_iff [symmetric] by (auto simp: all_tasks_def)
  have "workers s = [] \<or> None \<in> set (queue s)" using inv assms(3) by (simp add: fifo_inv_def)
  moreover have "\<exists>q q'. queue s @ [Some t] = q @ None # q' \<and> Some t \<notin> set q" if "None \<in> set (queue s)"
  proof -
    from split_list [OF that] obtain q q' where "queue s = q @ None # q'" by blast
    then show ?thesis using new by (intro exI [of _ q] exI [of _ "q' @ [Some t]"]) simp
  qed
  ultimately show ?thesis using assms(3) by (auto simp: abandoned_def queued_iff ex_put_def)
qed

lemma abandoned_step:
  assumes "abandoned t s" and "fifo_inv s" and "ex_onward handler s s'"
  shows "abandoned t s'"
proof -
  have step: "ex_step handler s s'" and stopped: "\<not> running s" "\<not> running s'"
    using assms(1,3) by (auto simp: ex_onward_def abandoned_def)
  have ends: "Some t \<in> set (queue s)" "workers s = [] \<or> (\<exists>q q'. queue s = q @ None # q' \<and> Some t \<notin> set q)"
    using assms(1) by (simp_all add: abandoned_def queued_iff)
  from step show ?thesis
  proof cases
    case (Take i x q)
    then obtain q1 q' where "queue s = q1 @ None # q'" "Some t \<notin> set q1" using ends(2) by auto
    then show ?thesis
      using Take stopped ends(1) by (cases q1) (auto simp: abandoned_def queued_iff)
  next
    case (Quit i q)
    then have "workers s = [Idle]" "i = 0" using one_worker [of "workers s" i] assms(2) by (auto simp: fifo_inv_def)
    then show ?thesis using Quit stopped ends(1) by (auto simp: abandoned_def queued_iff)
  next
    case (Put x)
    then show ?thesis
      using stopped ends by (auto simp: abandoned_def queued_iff ex_put_def) (metis append_Cons append_assoc)
  qed (use stopped ends in \<open>auto simp: abandoned_def queued_iff ex_start_def ex_stop_def ex_enter_def ex_call_def
      ex_run_def ex_done_def split: if_splits prod.splits\<close>)
qed

lemma onward_served: "(ex_onward handler)\<^sup>*\<^sup>* s s' \<Longrightarrow> ex_served handler w0 s \<Longrightarrow> ex_served handler w0 s'"
  by (induction rule: rtranclp_induct) (auto simp: ex_onward_def intro: ex_served.Continue)

lemma abandoned_onward:
  assumes "(ex_onward handler)\<^sup>*\<^sup>* s s'" and "ex_served handler w0 s" and "abandoned t s"
  shows "abandoned t s'"
  using assms
proof (induction rule: rtranclp_induct)
  case (step a b)
  then show ?case using abandoned_step served_inv onward_served by metis
qed

subsection \<open>Some runs\<close>

definition race_task :: "task" where
  "race_task = \<lparr>task_id = 0, task_command = [lit ''GET'', lit ''k'']\<rparr>"

text \<open>A client has passed the test and the executor has been stopped.\<close>

definition raced :: "'w \<Rightarrow> ('w, 'r) executor_state" where
  "raced w =
     \<lparr>running = False, workers = [Idle], queue = [None], entered = [race_task], results = (\<lambda>_. None),
      finished = {}, submitted = [], ran = [], ex_world = w\<rparr>"

text \<open>A task is on the queue of a running executor.\<close>

definition waiting :: "'w \<Rightarrow> ('w, 'r) executor_state" where
  "waiting w =
     \<lparr>running = True, workers = [Idle], queue = [Some race_task], entered = [], results = (\<lambda>_. None),
      finished = {}, submitted = [race_task], ran = [], ex_world = w\<rparr>"

text \<open>The task has been executed.\<close>

definition executed :: "(ustr list \<Rightarrow> 'w \<Rightarrow> 'r \<times> 'w) \<Rightarrow> 'w \<Rightarrow> ('w, 'r) executor_state" where
  "executed handler w =
     (case handler (task_command race_task) w of
        (r, w1) \<Rightarrow>
          \<lparr>running = True, workers = [Idle], queue = [], entered = [], results = [0 \<mapsto> r],
           finished = {0}, submitted = [race_task], ran = [race_task], ex_world = w1\<rparr>)"

lemma entered_served:
  "ex_served handler w ((ex_start (new_executor w))\<lparr>entered := [race_task]\<rparr>)"
  by (rule ex_served.Continue [OF ex_served.Begin], rule ex_step.Enter [of race_task])
    (auto simp: ex_enter_def ex_start_def new_executor_def all_tasks_def busy_defs)

lemma waiting_served:
  fixes handler :: "ustr list \<Rightarrow> 'w \<Rightarrow> 'r \<times> 'w"
  shows "ex_served handler w (waiting w)"
proof -
  let ?s1 = "(ex_start (new_executor w))\<lparr>entered := [race_task]\<rparr> :: ('w, 'r) executor_state"
  have "ex_served handler w (ex_put race_task ?s1)"
    by (rule ex_served.Continue [OF entered_served], rule ex_step.Put)
      (auto simp: ex_start_def new_executor_def ex_put_def)
  moreover have "ex_put race_task ?s1 = waiting w"
    by (simp add: ex_put_def ex_start_def new_executor_def waiting_def)
  ultimately show ?thesis by simp
qed

lemma executed_served:
  fixes handler :: "ustr list \<Rightarrow> 'w \<Rightarrow> 'r \<times> 'w"
  shows "ex_served handler w (executed handler w)"
proof -
  let ?s1 = "(waiting w)\<lparr>workers := [Busy race_task], queue := []\<rparr> :: ('w, 'r) executor_state"
  let ?s2 = "ex_call 0 race_task ?s1"
  let ?s3 = "ex_run handler 0 race_task w ?s2"
  have s1: "ex_served handler w ?s1"
    by (rule ex_served.Continue [OF waiting_served])
      (use ex_step.Take [of 0 "waiting w" race_task "[]" handler] in \<open>simp_all add: waiting_def\<close>)
  have s2: "ex_served handler w ?s2"
    by (rule ex_served.Continue [OF s1], rule ex_step.Call) (auto simp: waiting_def)
  have s3: "ex_served handler w ?s3"
    by (rule ex_served.Continue [OF s2], rule ex_step.Return) (auto simp: waiting_def ex_call_def)
  have "ex_served handler w (ex_done 0 race_task ?s3)"
    by (rule ex_served.Continue [OF s3], rule ex_step.Done)
      (auto simp: waiting_def ex_call_def ex_run_def split: prod.split)
  moreover have "ex_done 0 race_task ?s3 = executed handler w"
    by (simp add: ex_done_def ex_run_def ex_call_def waiting_def executed_def race_task_def split: prod.split)
  ultimately show ?thesis by simp
qed

lemma raced_served:
  fixes handler :: "ustr list \<Rightarrow> 'w \<Rightarrow> 'r \<times> 'w"
  shows "ex_served handler w (raced w)"
proof -
  let ?s1 = "(ex_start (new_executor w))\<lparr>entered := [race_task]\<rparr> :: ('w, 'r) executor_state"
  have "ex_served handler w (ex_stop ?s1)"
    by (rule ex_served.Continue [OF entered_served ex_step.Stop]) (simp add: ex_start_def new_executor_def)
  moreover have "ex_stop ?s1 = raced w"
    by (simp add: ex_start_def ex_stop_def new_executor_def raced_def)
  ultimately show ?thesis by simp
qed

end
