(* ===== verification/Runtime_Properties.thy ===== *)
theory Runtime_Properties
  imports Persistence Executor Command_Histories Storage_Properties
begin

section \<open>Properties of the running server: persistence and execution\<close>

text \<open>
  What a restart keeps, and what the executor promises to the threads that submit commands to
  it, for every interleaving.
\<close>

subsection \<open>Snapshots\<close>

lemma run_commands_texts:
  "engine_ok s \<Longrightarrow> texts_ok s \<Longrightarrow> \<forall>x\<in>set h. list_all (list_all scalar) (snd x) \<Longrightarrow>
     engine_ok (snd (run_commands h s)) \<and> texts_ok (snd (run_commands h s))"
proof (induction h arbitrary: s)
  case (Cons x h)
  obtain now c where x: "x = (now, c)" by (cases x)
  have "engine_ok (snd (handle_command now c s))" "texts_ok (snd (handle_command now c s))"
    using Cons.prems x handle_ok handle_texts by auto
  then show ?case
    using Cons.IH [of "snd (handle_command now c s)"] Cons.prems x
    by (simp add: split_beta)
qed simp

lemma new_engine_texts [simp]: "texts_ok new_engine"
  by (simp add: texts_ok_def new_engine_def)

lemma built_store_ok:
  assumes "\<forall>x\<in>set h. list_all (list_all scalar) (snd x)"
  shows "engine_ok (snd (run_commands h new_engine))" and "texts_ok (snd (run_commands h new_engine))"
  using run_commands_texts [OF engine_ok_new new_engine_texts assms] by blast+

text \<open>
  Claim C13: a restart loses nothing. Take any commands of valid Unicode tokens, flush a snapshot, and
  start a new server from it later: at that time, and from then on, every key is what it would
  have been without the restart. In particular holds keep their deadlines. The order in which
  SQLite returns the rows does not matter.
\<close>

theorem restart_restores_the_store:
  assumes "\<forall>x\<in>set h. list_all (list_all scalar) (snd x)" and "now \<le> now'" and "now' \<le> t"
    and "\<And>rows. mset (select_order rows) = mset rows"
  shows "live t (restore_snapshot select_order now'
      (fst (flush_snapshot now (Some table) (snd (run_commands h new_engine)))) s0) =
    live t (snd (run_commands h new_engine))"
proof -
  let ?s = "snd (run_commands h new_engine)"
  note ok = built_store_ok [OF assms(1)]
  let ?r = "load_snapshot now' (select_order (fst (snapshot now ?s))) s0"
  have "live now' ?r = live now' ?s" by (rule restore_live [OF ok(1) assms(4,2)])
  then have "same_live now' ?s ?r" by (simp add: same_live_now)
  then show ?thesis
    using assms(3) by (simp add: restore_snapshot_def flush_table [OF ok] same_live_def)
qed

theorem restart_restores_the_store_witness:
  "live 5 (restore_snapshot rev 2
      (fst (flush_snapshot 1 (Some []) (snd (run_commands rival new_engine)))) new_engine) =
    live 5 (snd (run_commands rival new_engine))"
  by (rule restart_restores_the_store) (simp_all add: rival_def)

text \<open>
  A snapshot can always be saved: after any commands of valid Unicode tokens the table holds
  exactly one row per live key, with its value and deadline; no statement of the save fails.
\<close>

lemma snapshot_is_always_saved:
  assumes "\<forall>x\<in>set h. list_all (list_all scalar) (snd x)"
  shows "\<exists>rows. fst (flush_snapshot now (Some table) (snd (run_commands h new_engine))) = Some rows \<and>
    distinct (map fst rows) \<and>
    (\<forall>k. map_of rows k =
      map_option (\<lambda>e. (entry_value e, expires_at e)) (live now (snd (run_commands h new_engine)) k))"
proof -
  let ?s = "snd (run_commands h new_engine)"
  note ok = built_store_ok [OF assms]
  show ?thesis
    using flush_table [OF ok] snapshot_distinct [OF ok(1)] snapshot_map_of [OF ok(1)] by auto
qed

subsection \<open>Execution\<close>

text \<open>
  Claim C12: the server's executor serialises the commands. From its one start on, in every
  reachable state and for every interleaving of the client threads, the worker and the stop:
  at most one task is in progress, the tasks whose calls have returned, that one and the queue are
  the tasks in the order in which they were put on the queue, and the store and every answer that
  a caller has got are those of running the returned ones one after the other in that order.
\<close>

theorem executor_is_serial:
  assumes "ex_served handler w0 s"
  shows "submitted s = ran s @ busy_tasks s @ queued_tasks s \<and> length (busy_tasks s) \<le> 1 \<and>
    (\<exists>rs. serial handler (ran s) w0 = (rs, ex_world s) \<and>
       map fst rs = map task_id (ran s) \<and> distinct (map task_id (ran s)) \<and>
       (\<forall>i timed_out r. ex_await i timed_out s = Some (Inr r) \<longrightarrow> (i, r) \<in> set rs))"
proof -
  note inv = served_inv [OF assms]
  have "length (busy_tasks s) \<le> 1"
  proof (cases "workers s")
    case (Cons v vs)
    then show ?thesis using inv by (cases v) (auto simp: fifo_inv_def busy_tasks_def)
  qed (simp add: busy_tasks_def)
  moreover have "distinct (map task_id (ran s))" using inv by (simp add: all_tasks_def)
  moreover have "serial handler (ran s) w0 = (fst (serial handler (ran s) w0), ex_world s)"
    using inv by (simp add: call_inv_def)
  ultimately show ?thesis using inv answered_tasks serial_ids by (metis fifo_inv_def)
qed

theorem executor_is_serial_witness:
  "\<exists>rs. serial (engine_exec (\<lambda>k. 0)) [race_task] (0, new_engine) =
      (rs, ex_world (executed (engine_exec (\<lambda>k. 0)) (0, new_engine))) \<and>
    (0, fst (engine_exec (\<lambda>k. 0) (task_command race_task) (0, new_engine))) \<in> set rs"
proof -
  let ?h = "engine_exec (\<lambda>k. 0)" and ?s = "executed (engine_exec (\<lambda>k. 0)) (0, new_engine)"
  have "ran ?s = [race_task]" "ex_await 0 False ?s = Some (Inr (fst (?h (task_command race_task) (0, new_engine))))"
    by (simp_all add: executed_def ex_await_def split: prod.split)
  then show ?thesis
    using executor_is_serial [OF executed_served [of ?h "(0, new_engine)"]] by metis
qed

text \<open>
  Claim C29: submitted tasks are executed. While the executor runs, its worker can always go on until
  every task that was submitted has a result, the one of the sequential run.
\<close>

theorem executor_completes_submitted_tasks:
  assumes "ex_served handler w0 s" and "running s"
  shows "\<exists>s' rs. (ex_step handler)\<^sup>*\<^sup>* s s' \<and> ran s' = submitted s \<and>
    serial handler (submitted s) w0 = (rs, ex_world s') \<and>
    (\<forall>t\<in>set (submitted s). \<exists>r. \<forall>timed_out. ex_await (task_id t) timed_out s' = Some (Inr r))"
proof -
  obtain s' where s': "(ex_step handler)\<^sup>*\<^sup>* s s'" "ex_served handler w0 s'" "work_left s' = 0" "submitted s' = submitted s"
    using worker_drains [OF assms] by blast
  note left = nothing_left [OF s'(2,3), unfolded s'(4)]
  have inv: "call_inv handler w0 s'" using served_inv [OF s'(2)] by blast
  let ?rs = "fst (serial handler (submitted s) w0)"
  have res: "results s' = map_of ?rs" and run: "serial handler (submitted s) w0 = (?rs, ex_world s')"
    using inv by (simp_all add: call_inv_def left(1))
  have "\<exists>r. \<forall>timed_out. ex_await (task_id t) timed_out s' = Some (Inr r)" if t: "t \<in> set (submitted s)" for t
  proof -
    have "task_id t \<in> fst ` set ?rs"
      using t serial_ids [of handler "submitted s" w0] by (metis list.set_map imageI)
    then obtain r where "results s' (task_id t) = Some r" unfolding res by (metis map_of_eq_None_iff not_None_eq)
    then show ?thesis using t left(2) by (auto simp: ex_await_def)
  qed
  then show ?thesis using s'(1) left(1) run by blast
qed

theorem executor_completes_submitted_tasks_witness:
  "\<exists>s' r. (ex_step (engine_exec (\<lambda>k. 0)))\<^sup>*\<^sup>*
      (waiting (0, new_engine) :: (nat \<times> StorageEngine, py_error + command_result) executor_state) s' \<and>
    ex_await (task_id race_task) False s' = Some (Inr r)"
proof -
  let ?w = "waiting (0, new_engine) :: (nat \<times> StorageEngine, py_error + command_result) executor_state"
  have "running ?w" "race_task \<in> set (submitted ?w)" by (simp_all add: waiting_def)
  with executor_completes_submitted_tasks [OF waiting_served [of "engine_exec (\<lambda>k. 0)" "(0, new_engine)"]]
  show ?thesis by blast
qed

text \<open>
  Claim C30: a task can be lost while the server shuts down. When a client has passed the test of
  \<open>_running\<close>, the executor is stopped, and the client puts its task on the queue only then, the
  task is never executed: in every continuation without a restart, wherever the worker is at that
  moment, its client gets no answer, and one that waits without a timeout waits for ever.
\<close>

theorem task_can_be_abandoned:
  assumes "ex_served handler w s" and "t \<in> set (entered s)" and "\<not> running s"
    and "(ex_onward handler)\<^sup>*\<^sup>* (ex_put t s) s'"
  shows "t \<in> set (submitted s') \<and> t \<notin> set (ran s') \<and> ex_await (task_id t) False s' = None"
proof -
  have put: "ex_served handler w (ex_put t s)"
    by (rule ex_served.Continue [OF assms(1) ex_step.Put [OF assms(2)]]) (simp add: assms(3) ex_put_def)
  have "t \<in> set (queued_tasks s')"
    using abandoned_onward [OF assms(4) put put_abandoned [OF assms(1-3)]] by (simp add: abandoned_def)
  moreover note inv = served_inv [OF onward_served [OF assms(4) put]]
  ultimately have "task_id t \<notin> finished s'" using unfinished_task [of handler w s' t] by simp
  moreover have "t \<in> set (submitted s')" "t \<notin> set (ran s')"
    using \<open>t \<in> set (queued_tasks s')\<close> inv by (auto simp: fifo_inv_def all_tasks_def)
  ultimately show ?thesis by (simp add: ex_await_def)
qed

theorem task_can_be_abandoned_witness:
  "ex_served (engine_exec (\<lambda>k. 0)) (0, new_engine)
      (raced (0, new_engine) :: (nat \<times> StorageEngine, py_error + command_result) executor_state) \<and>
    race_task \<in> set (submitted (ex_put race_task
      (raced (0, new_engine) :: (nat \<times> StorageEngine, py_error + command_result) executor_state))) \<and>
    ex_await (task_id race_task) False (ex_put race_task
      (raced (0, new_engine) :: (nat \<times> StorageEngine, py_error + command_result) executor_state)) = None"
  using task_can_be_abandoned [OF raced_served [of "engine_exec (\<lambda>k. 0)" "(0, new_engine)"], of race_task]
    raced_served [of "engine_exec (\<lambda>k. 0)" "(0, new_engine)"]
  by (simp add: raced_def)

end
