(* ===== verification/Remote_Calls.thy ===== *)
theory Remote_Calls
  imports Session_Laws
begin

section \<open>Remote calls: the client of the orchestration API against the server\<close>

text \<open>
  A call of the client travels as a request to the server, is executed there, and its reply
  comes back in chunks of any size. The first part shows that the client's reader waits for
  exactly the right number of bytes; the second that the whole round trip is the local call.
\<close>

subsection \<open>A reply in pieces\<close>

definition reply_settled :: "client_exn + 'a \<Rightarrow> client_exn + 'a \<Rightarrow> bool" where
  "reply_settled r r' \<longleftrightarrow> (\<exists>t. r = Inl (IncompleteRESPReplyError t)) \<or> r' = r"

lemma reply_settled_refl [simp, intro]: "reply_settled r r"
  by (simp add: reply_settled_def)

lemma reply_settled_incomplete [simp]: "reply_settled (Inl (IncompleteRESPReplyError t)) r"
  by (simp add: reply_settled_def)

lemma reply_settled_bind:
  assumes "reply_settled r r'" and "\<And>v. r = Inr v \<Longrightarrow> reply_settled (f v) (f' v)"
  shows "reply_settled (case r of Inl e \<Rightarrow> Inl e | Inr v \<Rightarrow> f v) (case r' of Inl e \<Rightarrow> Inl e | Inr v \<Rightarrow> f' v)"
  using assms by (auto simp: reply_settled_def split: sum.splits)

lemma reply_line_settled: "reply_settled (reply_line m i) (reply_line (m @ x) i)"
proof (cases "crlf_at (drop i m)")
  case None
  then show ?thesis by (simp add: reply_line_def find_crlf_def)
next
  case (Some k)
  have "crlf_at (drop i (m @ x)) = Some k"
    using crlf_at_append [OF Some] by (cases "i \<le> length m") (use Some in auto)
  moreover have "i + k \<le> length m"
    using crlf_at_bound [OF Some] by auto
  ultimately show ?thesis
    using Some by (simp add: reply_line_def find_crlf_def)
qed

lemma parse_values_settled:
  assumes "\<And>i. reply_settled (parse m i) (parse (m @ x) i)"
  shows "reply_settled (parse_values parse n m i) (parse_values parse n (m @ x) i)"
proof (induction n arbitrary: i)
  case (Suc n)
  then show ?case using assms by (auto intro!: reply_settled_bind)
qed simp

lemma parse_reply_settled: "reply_settled (parse_resp_reply d m i) (parse_resp_reply d (m @ x) i)"
proof (induction d arbitrary: i)
  case 0
  show ?case by (simp add: parse_resp_reply.simps)
next
  case (Suc d)
  have simple: "reply_settled (parse_simple_reply m i) (parse_simple_reply (m @ x) i)"
    "reply_settled (parse_error_reply m i) (parse_error_reply (m @ x) i)"
    "reply_settled (parse_integer_reply m i) (parse_integer_reply (m @ x) i)"
    unfolding parse_simple_reply_def parse_error_reply_def parse_integer_reply_def
    by (auto intro!: reply_settled_bind reply_line_settled)
  have bulk: "reply_settled (parse_bulk_reply m i) (parse_bulk_reply (m @ x) i)"
    unfolding parse_bulk_reply_def
    by (auto intro!: reply_settled_bind reply_line_settled simp: Let_def split: option.split)
  have arr: "reply_settled (parse_array_reply (parse_resp_reply d) m i)
      (parse_array_reply (parse_resp_reply d) (m @ x) i)"
    unfolding parse_array_reply_def
    by (auto intro!: reply_settled_bind reply_line_settled parse_values_settled Suc split: option.split)
  show ?case
    using simple bulk arr by (cases "length m \<le> i") (auto simp: parse_resp_reply.simps Let_def)
qed

lemma reply_line_bound: "reply_line m i = Inr (l, j) \<Longrightarrow> j \<le> length m"
  by (auto simp: reply_line_def find_crlf_def split: option.splits dest!: crlf_at_bound)

lemma parse_values_bound:
  assumes "\<And>i v j. parse m i = Inr (v, j) \<Longrightarrow> j \<le> length m" and "i \<le> length m"
  shows "parse_values parse n m i = Inr (vs, j) \<Longrightarrow> j \<le> length m"
  using assms(2)
proof (induction n arbitrary: i vs)
  case (Suc n)
  then show ?case using assms(1) by (auto split: sum.splits)
qed simp

lemma parse_reply_bound: "parse_resp_reply d m i = Inr (v, j) \<Longrightarrow> j \<le> length m"
proof (induction d arbitrary: i v j)
  case (Suc d)
  have vals: "parse_values (parse_resp_reply d) n m b = Inr (vs, j) \<Longrightarrow> b \<le> length m \<Longrightarrow> j \<le> length m"
    for n b vs j using parse_values_bound [of "parse_resp_reply d" m b] Suc.IH by blast
  have arr: "parse_array_reply (parse_resp_reply d) m i = Inr (v, j) \<Longrightarrow> j \<le> length m"
    unfolding parse_array_reply_def
    by (auto split: sum.splits option.splits if_splits dest!: reply_line_bound dest: vals)
  show ?case
    using Suc.prems arr
    by (auto simp: parse_resp_reply.simps Let_def parse_simple_reply_def parse_error_reply_def
        parse_integer_reply_def parse_bulk_reply_def
        split: if_splits sum.splits option.splits dest: reply_line_bound)
qed (simp add: parse_resp_reply.simps)

lemma read_reply_chunks:
  assumes "parse_resp_reply d (buffer @ concat chunks) 0 =
      (case r of Inl e \<Rightarrow> Inl e | Inr v \<Rightarrow> Inr (v, length (buffer @ concat chunks)))"
    and "[] \<notin> set chunks" and "chunks \<noteq> []" and "\<forall>t. r \<noteq> Inl (IncompleteRESPReplyError t)"
  shows "read_reply d err chunks buffer = (r, True)"
  using assms
proof (induction chunks arbitrary: buffer)
  case (Cons c cs)
  let ?b = "buffer @ c"
  have c: "c \<noteq> []" using Cons.prems(2) by auto
  have full: "parse_resp_reply d (?b @ concat cs) 0 =
      (case r of Inl e \<Rightarrow> Inl e | Inr v \<Rightarrow> Inr (v, length (?b @ concat cs)))"
    using Cons.prems(1) by (simp split: sum.split)
  show ?case
  proof (cases "\<exists>t. parse_resp_reply d ?b 0 = Inl (IncompleteRESPReplyError t)")
    case True
    then have "cs \<noteq> []" using full Cons.prems(4) by (cases r) (auto split: sum.splits)
    then have "read_reply d err cs ?b = (r, True)"
      using Cons.IH [of ?b] full Cons.prems(2,4) by simp
    then show ?thesis using True c by auto
  next
    case False
    then have same: "parse_resp_reply d ?b 0 = parse_resp_reply d (?b @ concat cs) 0"
      using parse_reply_settled [of d ?b 0 "concat cs"] by (auto simp: reply_settled_def)
    show ?thesis
    proof (cases r)
      case (Inl e)
      then show ?thesis using same full c Cons.prems(4) by (cases e) (auto simp: Let_def)
    next
      case (Inr v)
      then have "length (?b @ concat cs) \<le> length ?b"
        using same full parse_reply_bound [of d ?b 0 v] by simp
      then have "concat cs = []" by simp
      then show ?thesis using same full Inr c by (simp add: Let_def)
    qed
  qed
qed simp

subsection \<open>The round trip\<close>

text \<open>
  How the network cuts a message into chunks: nothing is lost, and no chunk is empty, since an
  empty one means that the connection was closed.
\<close>

definition cuts :: "(bytes \<Rightarrow> bytes list) \<Rightarrow> bool" where
  "cuts chunk1 \<longleftrightarrow> (\<forall>m. concat (chunk1 m) = m \<and> [] \<notin> set (chunk1 m))"

definition reply_attempt :: "bytes list \<Rightarrow> attempt" where
  "reply_attempt chunks = \<lparr>connect_error = None, send_error = None, received = chunks, recv_error = []\<rparr>"

definition remote_exec ::
  "nat \<Rightarrow> (bytes \<Rightarrow> bytes list) \<Rightarrow> (bytes \<Rightarrow> bytes list) \<Rightarrow> (nat \<Rightarrow> rat) \<Rightarrow>
   (nat \<times> StorageEngine \<Rightarrow> ustr list \<Rightarrow> py_error \<Rightarrow> ustr) \<Rightarrow> (nat \<times> StorageEngine) executor" where
  "remote_exec depth chunk1 chunk2 clock lib tokens w =
     (let serve = (\<lambda>m. handle_client (engine_exec clock) lib (map Received (chunk1 m)) [] w);
          net = (\<lambda>m. reply_attempt (chunk2 (concat (sent (serve m)))))
      in (fst (client_execute depth net net tokens True),
          case encode_command tokens of None \<Rightarrow> w | Some m \<Rightarrow> world (serve m)))"

lemma client_execute_reply:
  assumes "encode_command c = Some m" and "read_reply depth [] chunks [] = (r, True)"
    and "\<And>t. r \<noteq> Inl (OSError t)" and "net m = reply_attempt chunks"
  shows "fst (client_execute depth net net' c True) =
    (case r of Inl e \<Rightarrow> Inl (execute_error e) | Inr v \<Rightarrow> Inr v)"
proof -
  have "send_and_read depth (net m) = (r, True)"
    using assms(2,4) by (simp add: send_and_read_def reply_attempt_def)
  then have "client_attempts depth (net m) (net' m) True = (r, True)"
    using assms(3) by (auto simp: client_attempts_def ensure_connection_def split: sum.split client_exn.split)
  then show ?thesis using assms(1) by (simp add: client_execute_def split: sum.split)
qed

lemma remote_exec_local:
  assumes "request_ok c" and "cuts chunk1" and "cuts chunk2" and "library_texts_ok lib"
    and wire: "\<And>r. fst (handle_command (clock k) c s) = Inr r \<Longrightarrow> result_wire r"
  shows "remote_exec (Suc (Suc d)) chunk1 chunk2 clock lib c (k, s) =
    (client_view (lib (k, s) c) (fst (handle_command (clock k) c s)),
     Suc k, snd (handle_command (clock k) c s))"
proof -
  let ?o = "fst (handle_command (clock k) c s)" and ?w' = "(Suc k, snd (handle_command (clock k) c s))"
  obtain m where m: "encode_command c = Some m" using encode_command_total [OF assms(1)] by blast
  have lib: "\<And>e. list_all scalar (lib (k, s) c e)" using assms(4) unfolding library_texts_ok_def by blast
  obtain b where b: "send_response (command_response (lib (k, s) c) c ?o) = Some b"
    and parsed: "parse_resp_reply (Suc (Suc d)) b 0 =
      (case client_view (lib (k, s) c) ?o of Inl e \<Rightarrow> Inl e | Inr v \<Rightarrow> Inr (v, length b))"
    using response_read [where c = c and lib = "lib (k, s) c" and now = "clock k" and s = s and d = d,
        OF request_ok_scalar [OF assms(1)] lib wire] by blast
  have ans: "answer_all (engine_exec clock) lib [c] (k, s) = ([b], ?w', True)"
    using b by (simp add: engine_exec_eq)
  have "drain_frames ([] @ concat (chunk1 m)) = (Inr [c], [])"
    using drain_stream [of "[c]"] assms(1,2) m by (simp add: cuts_def)
  from handle_client_answers [OF _ this _ ans] assms(2)
  have served: "sent (handle_client (engine_exec clock) lib (map Received (chunk1 m)) [] (k, s)) = [b]"
    "world (handle_client (engine_exec clock) lib (map Received (chunk1 m)) [] (k, s)) = ?w'"
    by (simp_all add: cuts_def)
  have "b \<noteq> []"
    using parsed by (cases ?o) (auto simp: parse_resp_reply.simps client_view_def)
  then have "chunk2 b \<noteq> []" "concat (chunk2 b) = b" "[] \<notin> set (chunk2 b)"
    using assms(3) unfolding cuts_def by (metis concat.simps(1), blast+)
  then have "read_reply (Suc (Suc d)) [] (chunk2 b) [] = (client_view (lib (k, s) c) ?o, True)"
    using parsed by (intro read_reply_chunks) (auto simp: client_view_def split: sum.splits)
  from client_execute_reply [OF m this, where net = "\<lambda>m. reply_attempt (chunk2 (concat (sent
      (handle_client (engine_exec clock) lib (map Received (chunk1 m)) [] (k, s)))))"]
  show ?thesis
    using served m
    by (auto simp: remote_exec_def Let_def client_view_def execute_error_def split: sum.splits)
qed

subsection \<open>Typed calls\<close>

definition seat_command_of :: "bool \<times> SeatStatus \<Rightarrow> SeatCommandResult" where
  "seat_command_of r =
     \<lparr>cmd_success = fst r, cmd_state = seat_state (snd r), cmd_user_id = seat_user_id (snd r),
      cmd_ttl = seat_ttl (snd r)\<rparr>"

lemma decode_seat_reply:
  "and_then (expect_array (reply_of_result (seat_operation_result r)) 4) decode_seat_command =
     Inr (seat_command_of r)"
  by (cases "seat_user_id (snd r)")
    (simp_all add: and_then_def expect_array_def reply_of_result_def seat_operation_result_def
      reply_of_scalar_def flag_def opt_str_def decode_seat_command_def expect_int_def expect_string_def
      expect_optional_string_def seat_command_of_def numeral_3_eq_3)

lemma decode_status_reply:
  "and_then (expect_array (reply_of_result (seat_status_result st)) 3) decode_seat_status = Inr st"
  by (cases "seat_user_id st")
    (simp_all add: and_then_def expect_array_def reply_of_result_def seat_status_result_def
      reply_of_scalar_def opt_str_def decode_seat_status_def expect_int_def expect_string_def
      expect_optional_string_def mk_status_def numeral_2_eq_2)

definition remote_error :: "(py_error \<Rightarrow> ustr) \<Rightarrow> py_error \<Rightarrow> client_exn" where
  "remote_error lib e =
     AppServerError (ConflictError (lit ''ERR '' @ format_error_message (class_name e) (error_str lib e)))"

lemma remote_seat_call:
  assumes "request_ok c" and "cuts chunk1" and "cuts chunk2" and "library_texts_ok lib"
    and h: "handle_command (clock k) c s = answer seat_operation_result r"
    and wire: "\<And>x. fst r = Inr x \<Longrightarrow> result_wire (seat_operation_result x)"
  shows "call_for_array (remote_exec (Suc (Suc d)) chunk1 chunk2 clock lib) c 4 decode_seat_command (k, s) =
    (case fst r of Inl e \<Rightarrow> Inl (remote_error (lib (k, s) c) e) | Inr x \<Rightarrow> Inr (seat_command_of x),
     Suc k, snd r)"
proof -
  have "\<And>x. fst (handle_command (clock k) c s) = Inr x \<Longrightarrow> result_wire x"
    using wire by (auto simp: h answer_Inr)
  from remote_exec_local [where clock = clock and k = k and s = s and d = d, OF assms(1-4) this] show ?thesis
    using decode_seat_reply
    by (cases "fst r") (simp_all add: call_for_array_def h client_view_def answer_def and_then_def
        remote_error_def)
qed

end
