(* ===== verification/Ticketing_Db.thy ===== *)
theory Ticketing_Db
  imports Prelude "HOL-Library.List_Lexorder" "HOL-Library.Product_Lexorder" "HOL-Library.Option_ord"
begin

section \<open>The ticketing database (\<open>ticketing_api/database.py\<close>, \<open>ticketing_api/repository.py\<close>)\<close>

text \<open>
  The five tables as lists of rows in the order of insertion, and the repository's methods as
  the statements they run. A statement checks the constraints of the schema it can violate
  (primary keys, the unique columns, the partial unique index on confirmed seats, foreign
  keys, checked columns) and raises \<open>IntegrityError\<close>; a method that raises has committed
  nothing. Texts compare as SQLite compares them, by their code points; \<open>NULL\<close> sorts
  first.
\<close>

subsection \<open>Tables\<close>

record EventRow =
  ev_id :: ustr
  ev_title :: ustr
  ev_venue :: ustr
  ev_starts_at :: ustr
  ev_booking_opens_at :: ustr
  ev_created_at :: ustr

record UserRow =
  usr_id :: ustr
  usr_display_name :: ustr
  usr_email :: ustr
  usr_created_at :: ustr

record SeatRow =
  st_event_id :: ustr
  st_seat_id :: ustr
  st_label :: ustr
  st_section :: ustr
  st_row_label :: ustr
  st_number :: int
  st_price :: int
  st_created_at :: ustr

datatype res_status = HELD | CONFIRMED | CANCELLED | EXPIRED

record ReservationRow =
  res_id :: ustr
  res_event_id :: ustr
  res_seat_id :: ustr
  res_user_id :: ustr
  res_status :: res_status
  res_hold_token :: "ustr option"
  res_expires_at :: "ustr option"
  res_created_at :: ustr
  res_updated_at :: ustr
  res_confirmed_at :: "ustr option"
  res_cancelled_at :: "ustr option"

datatype pay_status = SUCCEEDED | FAILED | PAY_CANCELLED

record PaymentRow =
  pay_id :: ustr
  pay_reservation_id :: ustr
  pay_status :: pay_status
  pay_amount :: int
  pay_provider :: ustr
  pay_provider_ref :: ustr
  pay_created_at :: ustr
  pay_updated_at :: ustr

record TicketingDb =
  events :: "EventRow list"
  users :: "UserRow list"
  seats :: "SeatRow list"
  reservations :: "ReservationRow list"
  payments :: "PaymentRow list"

definition empty_db :: TicketingDb where
  "empty_db = \<lparr>events = [], users = [], seats = [], reservations = [], payments = []\<rparr>"

datatype db_error = DbIntegrityError

subsection \<open>Queries\<close>

definition get_event :: "ustr \<Rightarrow> TicketingDb \<Rightarrow> EventRow option" where
  "get_event e db = find (\<lambda>r. ev_id r = e) (events db)"

definition get_user :: "ustr \<Rightarrow> TicketingDb \<Rightarrow> UserRow option" where
  "get_user u db = find (\<lambda>r. usr_id r = u) (users db)"

definition get_seat :: "ustr \<Rightarrow> ustr \<Rightarrow> TicketingDb \<Rightarrow> SeatRow option" where
  "get_seat e s db = find (\<lambda>r. st_event_id r = e \<and> st_seat_id r = s) (seats db)"

definition list_events :: "TicketingDb \<Rightarrow> EventRow list" where
  "list_events db = sort_key (\<lambda>r. (ev_starts_at r, ev_id r)) (events db)"

definition confirmed_for :: "ustr \<Rightarrow> ustr \<Rightarrow> ReservationRow \<Rightarrow> bool" where
  "confirmed_for e s r \<longleftrightarrow> res_event_id r = e \<and> res_seat_id r = s \<and> res_status r = CONFIRMED"

definition has_confirmed_reservation :: "ustr \<Rightarrow> ustr \<Rightarrow> TicketingDb \<Rightarrow> bool" where
  "has_confirmed_reservation e s db = list_ex (confirmed_for e s) (reservations db)"

text \<open>A seat with the status the query computes for it.\<close>

definition list_seats :: "ustr \<Rightarrow> TicketingDb \<Rightarrow> (SeatRow \<times> bool) list" where
  "list_seats e db =
     map (\<lambda>s. (s, list_ex (confirmed_for (st_event_id s) (st_seat_id s)) (reservations db)))
       (sort_key (\<lambda>s. (st_section s, st_row_label s, st_number s))
         (filter (\<lambda>s. st_event_id s = e) (seats db)))"

text \<open>A reservation joined with its payment, if there is one.\<close>

type_synonym reservation_view = "ReservationRow \<times> PaymentRow option"

definition with_payment :: "TicketingDb \<Rightarrow> ReservationRow \<Rightarrow> reservation_view" where
  "with_payment db r = (r, find (\<lambda>p. pay_reservation_id p = res_id r) (payments db))"

definition find_reservation :: "ustr \<Rightarrow> TicketingDb \<Rightarrow> ReservationRow option" where
  "find_reservation i db = find (\<lambda>r. res_id r = i) (reservations db)"

definition get_reservation :: "ustr \<Rightarrow> TicketingDb \<Rightarrow> reservation_view option" where
  "get_reservation i db = map_option (with_payment db) (find_reservation i db)"

definition list_user_reservations :: "ustr \<Rightarrow> TicketingDb \<Rightarrow> reservation_view list" where
  "list_user_reservations u db =
     map (with_payment db)
       (rev (sort_key (\<lambda>r. (res_created_at r, res_id r)) (filter (\<lambda>r. res_user_id r = u) (reservations db))))"

definition list_confirmed_seats :: "ustr \<Rightarrow> TicketingDb \<Rightarrow> ReservationRow list" where
  "list_confirmed_seats e db =
     sort_key res_seat_id (filter (\<lambda>r. res_event_id r = e \<and> res_status r = CONFIRMED) (reservations db))"

text \<open>\<open>LIMIT n\<close>: a negative number means no limit.\<close>

definition sql_limit :: "int \<Rightarrow> 'a list \<Rightarrow> 'a list" where
  "sql_limit n rows = (if n < 0 then rows else take (nat n) rows)"

definition list_confirmed_reservations :: "int option \<Rightarrow> TicketingDb \<Rightarrow> ReservationRow list" where
  "list_confirmed_reservations limit db =
     (case limit of None \<Rightarrow> id | Some n \<Rightarrow> sql_limit n)
       (sort_key (\<lambda>r. (res_confirmed_at r, res_id r))
         (filter (\<lambda>r. res_status r = CONFIRMED) (reservations db)))"

definition is_stale :: "ustr \<Rightarrow> ReservationRow \<Rightarrow> bool" where
  "is_stale now r \<longleftrightarrow>
     res_status r = HELD \<and> (case res_expires_at r of None \<Rightarrow> False | Some t \<Rightarrow> t \<le> now)"

definition list_stale_held_reservations :: "ustr \<Rightarrow> int \<Rightarrow> TicketingDb \<Rightarrow> ReservationRow list" where
  "list_stale_held_reservations now limit db =
     sql_limit limit
       (sort_key (\<lambda>r. (res_expires_at r, res_id r)) (filter (is_stale now) (reservations db)))"

subsection \<open>Updates\<close>

definition expire_row :: "ustr \<Rightarrow> ReservationRow \<Rightarrow> ReservationRow" where
  "expire_row now r = r\<lparr>res_status := EXPIRED, res_updated_at := now\<rparr>"

definition repo_expire_stale :: "ustr \<Rightarrow> TicketingDb \<Rightarrow> nat \<times> TicketingDb" where
  "repo_expire_stale now db =
     (length (filter (is_stale now) (reservations db)),
      db\<lparr>reservations := map (\<lambda>r. if is_stale now r then expire_row now r else r) (reservations db)\<rparr>)"

definition update_reservation ::
  "ustr \<Rightarrow> (ReservationRow \<Rightarrow> ReservationRow) \<Rightarrow> TicketingDb \<Rightarrow> TicketingDb" where
  "update_reservation i f db =
     db\<lparr>reservations := map (\<lambda>r. if res_id r = i then f r else r) (reservations db)\<rparr>"

text \<open>\<open>INSERT OR IGNORE INTO users\<close>.\<close>

definition create_user :: "ustr \<Rightarrow> ustr \<Rightarrow> ustr \<Rightarrow> ustr \<Rightarrow> TicketingDb \<Rightarrow> UserRow option \<times> TicketingDb" where
  "create_user u name email created_at db =
     (let db1 = (if get_user u db = None
                 then db\<lparr>users := users db @
                   [\<lparr>usr_id = u, usr_display_name = name, usr_email = email, usr_created_at = created_at\<rparr>]\<rparr>
                 else db)
      in (get_user u db1, db1))"

definition insert_reservation :: "ReservationRow \<Rightarrow> TicketingDb \<Rightarrow> db_error + TicketingDb" where
  "insert_reservation r db =
     (if list_ex (\<lambda>x. res_id x = res_id r) (reservations db) \<or>
         (res_hold_token r \<noteq> None \<and> list_ex (\<lambda>x. res_hold_token x = res_hold_token r) (reservations db)) \<or>
         (res_status r = CONFIRMED \<and> has_confirmed_reservation (res_event_id r) (res_seat_id r) db) \<or>
         get_seat (res_event_id r) (res_seat_id r) db = None \<or> get_user (res_user_id r) db = None
      then Inl DbIntegrityError
      else Inr (db\<lparr>reservations := reservations db @ [r]\<rparr>))"

definition repo_create_held ::
  "ustr \<Rightarrow> ustr \<Rightarrow> ustr \<Rightarrow> ustr \<Rightarrow> ustr \<Rightarrow> ustr \<Rightarrow> ustr \<Rightarrow> TicketingDb \<Rightarrow>
     (db_error + reservation_view option) \<times> TicketingDb" where
  "repo_create_held i e s u token expires_at now db =
     (case insert_reservation
        \<lparr>res_id = i, res_event_id = e, res_seat_id = s, res_user_id = u, res_status = HELD,
         res_hold_token = Some token, res_expires_at = Some expires_at, res_created_at = now,
         res_updated_at = now, res_confirmed_at = None, res_cancelled_at = None\<rparr> db of
        Inl err \<Rightarrow> (Inl err, db)
      | Inr db1 \<Rightarrow> (Inr (get_reservation i db1), db1))"

text \<open>
  \<open>INSERT INTO payments ... ON CONFLICT(reservation_id) DO UPDATE\<close>: the row of the
  reservation is replaced but keeps its creation time; the identifier of the payment must not
  be the one of another reservation's payment, and the reservation must exist.
\<close>

definition upsert_payment :: "PaymentRow \<Rightarrow> TicketingDb \<Rightarrow> db_error + TicketingDb" where
  "upsert_payment p db =
     (if list_ex (\<lambda>q. pay_id q = pay_id p \<and> pay_reservation_id q \<noteq> pay_reservation_id p) (payments db) \<or>
         find_reservation (pay_reservation_id p) db = None
      then Inl DbIntegrityError
      else if list_ex (\<lambda>q. pay_reservation_id q = pay_reservation_id p) (payments db)
      then Inr (db\<lparr>payments := map (\<lambda>q. if pay_reservation_id q = pay_reservation_id p
                     then p\<lparr>pay_created_at := pay_created_at q\<rparr> else q) (payments db)\<rparr>)
      else Inr (db\<lparr>payments := payments db @ [p]\<rparr>))"

text \<open>
  \<open>UPDATE reservations SET status = 'CONFIRMED' ...\<close>: the partial unique index allows one
  confirmed reservation per seat.
\<close>

definition confirm_row :: "ustr \<Rightarrow> ReservationRow \<Rightarrow> ReservationRow" where
  "confirm_row now r = r\<lparr>res_status := CONFIRMED, res_updated_at := now, res_confirmed_at := Some now\<rparr>"

definition set_confirmed :: "ustr \<Rightarrow> ustr \<Rightarrow> TicketingDb \<Rightarrow> db_error + TicketingDb" where
  "set_confirmed i now db =
     (case find_reservation i db of
        None \<Rightarrow> Inr db
      | Some r \<Rightarrow>
          if list_ex (\<lambda>x. res_id x \<noteq> i \<and> confirmed_for (res_event_id r) (res_seat_id r) x) (reservations db)
          then Inl DbIntegrityError
          else Inr (update_reservation i (confirm_row now) db))"

definition repo_confirm ::
  "ustr \<Rightarrow> ustr \<Rightarrow> int \<Rightarrow> ustr \<Rightarrow> ustr \<Rightarrow> ustr \<Rightarrow> TicketingDb \<Rightarrow>
     (db_error + reservation_view option) \<times> TicketingDb" where
  "repo_confirm i payment amount provider provider_ref now db =
     (case upsert_payment
        \<lparr>pay_id = payment, pay_reservation_id = i, pay_status = SUCCEEDED, pay_amount = amount,
         pay_provider = provider, pay_provider_ref = provider_ref, pay_created_at = now,
         pay_updated_at = now\<rparr> db of
        Inl err \<Rightarrow> (Inl err, db)
      | Inr db1 \<Rightarrow>
          (case set_confirmed i now db1 of
             Inl err \<Rightarrow> (Inl err, db)
           | Inr db2 \<Rightarrow> (Inr (get_reservation i db2), db2)))"

record cancel_payment =
  cp_payment_id :: ustr
  cp_status :: pay_status
  cp_amount :: int
  cp_provider :: ustr
  cp_provider_ref :: ustr

definition cancel_row :: "ustr \<Rightarrow> ReservationRow \<Rightarrow> ReservationRow" where
  "cancel_row now r = r\<lparr>res_status := CANCELLED, res_updated_at := now, res_cancelled_at := Some now\<rparr>"

definition repo_cancel ::
  "ustr \<Rightarrow> ustr \<Rightarrow> cancel_payment option \<Rightarrow> TicketingDb \<Rightarrow>
     (db_error + reservation_view option) \<times> TicketingDb" where
  "repo_cancel i now payload db =
     (case (case payload of
              None \<Rightarrow> Inr db
            | Some p \<Rightarrow>
                upsert_payment
                  \<lparr>pay_id = cp_payment_id p, pay_reservation_id = i, pay_status = cp_status p,
                   pay_amount = cp_amount p, pay_provider = cp_provider p,
                   pay_provider_ref = cp_provider_ref p, pay_created_at = now, pay_updated_at = now\<rparr> db) of
        Inl err \<Rightarrow> (Inl err, db)
      | Inr db1 \<Rightarrow>
          (let db2 = update_reservation i (cancel_row now) db1
           in (Inr (get_reservation i db2), db2)))"

definition repo_expire :: "ustr \<Rightarrow> ustr \<Rightarrow> TicketingDb \<Rightarrow> reservation_view option \<times> TicketingDb" where
  "repo_expire i now db =
     (let db1 = update_reservation i (expire_row now) db in (get_reservation i db1, db1))"

end
