(* ===== verification/Ticketing_Service.thy ===== *)
theory Ticketing_Service
  imports Ticketing_Db
begin

section \<open>The ticketing service (\<open>ticketing_api/service.py\<close>)\<close>

text \<open>
  The workflows over the repository. Every call of \<open>current_timestamp()\<close> is an argument,
  in the order of the calls, since time passes between them. An \<open>IntegrityError\<close> that the
  service does not catch reaches its caller as \<open>SvcIntegrityError\<close>. The request texts of
  timestamps have been normalised to UTC.
\<close>

datatype svc_error =
    SvcNotFound ustr
  | SvcConflict ustr
  | SvcIntegrityError

record HeldReservationCreate =
  hr_reservation_id :: ustr
  hr_event_id :: ustr
  hr_seat_id :: ustr
  hr_user_id :: ustr
  hr_hold_token :: ustr
  hr_expires_at :: ustr

record ConfirmReservationRequest =
  cr_payment_id :: ustr
  cr_amount :: int
  cr_provider :: ustr
  cr_provider_ref :: ustr

text \<open>The schema of a cancellation admits the payment statuses \<open>FAILED\<close> and \<open>CANCELLED\<close> only.\<close>

record CancelReservationRequest =
  cx_payment_id :: "ustr option"
  cx_payment_status :: "pay_status option"
  cx_amount :: "int option"
  cx_provider :: "ustr option"
  cx_provider_ref :: "ustr option"

definition quote1 :: "ustr \<Rightarrow> ustr" where
  "quote1 s = 39 # s @ [39]"

fun status_name :: "res_status \<Rightarrow> ustr" where
  "status_name HELD = lit ''HELD''"
| "status_name CONFIRMED = lit ''CONFIRMED''"
| "status_name CANCELLED = lit ''CANCELLED''"
| "status_name EXPIRED = lit ''EXPIRED''"

subsection \<open>Requirements\<close>

definition svc_expire_stale :: "ustr \<Rightarrow> TicketingDb \<Rightarrow> TicketingDb" where
  "svc_expire_stale now db = snd (repo_expire_stale now db)"

definition require_event :: "ustr \<Rightarrow> TicketingDb \<Rightarrow> svc_error + EventRow" where
  "require_event e db =
     (case get_event e db of
        None \<Rightarrow> Inl (SvcNotFound (lit ''event '' @ quote1 e @ lit '' was not found''))
      | Some r \<Rightarrow> Inr r)"

definition require_user :: "ustr \<Rightarrow> TicketingDb \<Rightarrow> svc_error + UserRow" where
  "require_user u db =
     (case get_user u db of
        None \<Rightarrow> Inl (SvcNotFound (lit ''user '' @ quote1 u @ lit '' was not found''))
      | Some r \<Rightarrow> Inr r)"

definition require_seat :: "ustr \<Rightarrow> ustr \<Rightarrow> TicketingDb \<Rightarrow> svc_error + SeatRow" where
  "require_seat e s db =
     (case get_seat e s db of
        None \<Rightarrow> Inl (SvcNotFound (lit ''seat '' @ quote1 s @ lit '' for event '' @ quote1 e @ lit '' was not found''))
      | Some r \<Rightarrow> Inr r)"

definition load_user_prefix :: ustr where
  "load_user_prefix = lit ''load-user-''"

definition ensure_user :: "ustr \<Rightarrow> ustr \<Rightarrow> TicketingDb \<Rightarrow> (svc_error + unit) \<times> TicketingDb" where
  "ensure_user now u db =
     (case get_user u db of
        Some r \<Rightarrow> (Inr (), db)
      | None \<Rightarrow>
          if take (length load_user_prefix) u = load_user_prefix
          then
            (let rest = drop (length load_user_prefix) u;
                 alias = (if rest = [] then lit ''crowd'' else rest)
             in (Inr (), snd (create_user u (lit ''Load User '' @ alias) (u @ lit ''@demo.local'') now db)))
          else (Inl (SvcNotFound (lit ''user '' @ quote1 u @ lit '' was not found'')), db))"

definition require_reservation ::
  "ustr \<Rightarrow> ustr \<Rightarrow> TicketingDb \<Rightarrow> (svc_error + reservation_view) \<times> TicketingDb" where
  "require_reservation now i db =
     (let db1 = svc_expire_stale now db
      in (case get_reservation i db1 of
            None \<Rightarrow> (Inl (SvcNotFound (lit ''reservation '' @ quote1 i @ lit '' was not found'')), db1)
          | Some v \<Rightarrow> (Inr v, db1)))"

subsection \<open>Matching repeated requests\<close>

definition held_request_matches :: "ReservationRow \<Rightarrow> HeldReservationCreate \<Rightarrow> bool" where
  "held_request_matches r req \<longleftrightarrow>
     res_event_id r = hr_event_id req \<and> res_seat_id r = hr_seat_id req \<and>
     res_user_id r = hr_user_id req \<and> res_hold_token r = Some (hr_hold_token req) \<and>
     res_expires_at r = Some (hr_expires_at req)"

definition confirm_request_matches :: "reservation_view \<Rightarrow> ConfirmReservationRequest \<Rightarrow> bool" where
  "confirm_request_matches v req =
     (case snd v of
        None \<Rightarrow> False
      | Some p \<Rightarrow>
          pay_id p = cr_payment_id req \<and> pay_amount p = cr_amount req \<and>
          pay_provider p = cr_provider req \<and> pay_provider_ref p = cr_provider_ref req \<and>
          pay_status p = SUCCEEDED)"

definition validate_cancel_payment_payload ::
  "CancelReservationRequest \<Rightarrow> svc_error + cancel_payment option" where
  "validate_cancel_payment_payload req =
     (case (cx_payment_id req, cx_payment_status req, cx_amount req, cx_provider req, cx_provider_ref req) of
        (None, None, None, None, None) \<Rightarrow> Inr None
      | (Some i, Some st, Some a, Some p, Some ref) \<Rightarrow>
          Inr (Some \<lparr>cp_payment_id = i, cp_status = st, cp_amount = a, cp_provider = p, cp_provider_ref = ref\<rparr>)
      | _ \<Rightarrow> Inl (SvcConflict (lit ''cancel payment payload must include payment_id, payment_status, amount, provider, and provider_ref together'')))"

subsection \<open>Workflows\<close>

definition list_event_seats ::
  "ustr \<Rightarrow> ustr \<Rightarrow> TicketingDb \<Rightarrow> (svc_error + (SeatRow \<times> bool) list) \<times> TicketingDb" where
  "list_event_seats now e db =
     (let db1 = svc_expire_stale now db
      in (case require_event e db1 of
            Inl err \<Rightarrow> (Inl err, db1)
          | Inr _ \<Rightarrow> (Inr (list_seats e db1), db1)))"

definition svc_create_held ::
  "ustr \<Rightarrow> ustr \<Rightarrow> ustr \<Rightarrow> HeldReservationCreate \<Rightarrow> TicketingDb \<Rightarrow>
     (svc_error + reservation_view option \<times> bool) \<times> TicketingDb" where
  "svc_create_held now1 now2 now3 req db =
     (let db1 = svc_expire_stale now1 db
      in (case require_event (hr_event_id req) db1 of
            Inl err \<Rightarrow> (Inl err, db1)
          | Inr _ \<Rightarrow>
              (case require_seat (hr_event_id req) (hr_seat_id req) db1 of
                 Inl err \<Rightarrow> (Inl err, db1)
               | Inr _ \<Rightarrow>
                   (case ensure_user now2 (hr_user_id req) db1 of
                      (Inl err, db2) \<Rightarrow> (Inl err, db2)
                    | (Inr _, db2) \<Rightarrow>
                        (case get_reservation (hr_reservation_id req) db2 of
                           Some existing \<Rightarrow>
                             if held_request_matches (fst existing) req
                             then (Inr (Some existing, False), db2)
                             else (Inl (SvcConflict (lit ''reservation_id '' @ quote1 (hr_reservation_id req) @
                               lit '' already exists with different payload'')), db2)
                         | None \<Rightarrow>
                             if has_confirmed_reservation (hr_event_id req) (hr_seat_id req) db2
                             then (Inl (SvcConflict (lit ''seat '' @ quote1 (hr_seat_id req) @ lit '' for event '' @
                               quote1 (hr_event_id req) @ lit '' is already confirmed'')), db2)
                             else
                               (case repo_create_held (hr_reservation_id req) (hr_event_id req)
                                  (hr_seat_id req) (hr_user_id req) (hr_hold_token req) (hr_expires_at req)
                                  now3 db2 of
                                  (Inl _, db3) \<Rightarrow> (Inl (SvcConflict (lit ''hold_token is already in use'')), db3)
                                | (Inr created, db3) \<Rightarrow> (Inr (created, True), db3)))))))"

definition svc_confirm ::
  "ustr \<Rightarrow> ustr \<Rightarrow> ustr \<Rightarrow> ConfirmReservationRequest \<Rightarrow> TicketingDb \<Rightarrow>
     (svc_error + reservation_view option) \<times> TicketingDb" where
  "svc_confirm now1 now2 i req db =
     (case require_reservation now1 i db of
        (Inl err, db1) \<Rightarrow> (Inl err, db1)
      | (Inr v, db1) \<Rightarrow>
          if res_status (fst v) = CONFIRMED
          then if confirm_request_matches v req then (Inr (Some v), db1)
               else (Inl (SvcConflict (lit ''reservation '' @ quote1 i @
                 lit '' is already confirmed with different payment payload'')), db1)
          else if res_status (fst v) \<noteq> HELD
          then (Inl (SvcConflict (lit ''reservation '' @ quote1 i @ lit '' cannot transition from '' @
            status_name (res_status (fst v)) @ lit '' to CONFIRMED'')), db1)
          else
            (case repo_confirm i (cr_payment_id req) (cr_amount req) (cr_provider req) (cr_provider_ref req)
               now2 db1 of
               (Inl _, db2) \<Rightarrow>
                 (Inl (SvcConflict (lit ''seat '' @ quote1 (res_seat_id (fst v)) @ lit '' for event '' @
                   quote1 (res_event_id (fst v)) @ lit '' is already confirmed'')), db2)
             | (Inr w, db2) \<Rightarrow> (Inr w, db2)))"

definition svc_cancel ::
  "ustr \<Rightarrow> ustr \<Rightarrow> ustr \<Rightarrow> CancelReservationRequest \<Rightarrow> TicketingDb \<Rightarrow>
     (svc_error + reservation_view option) \<times> TicketingDb" where
  "svc_cancel now1 now2 i req db =
     (case require_reservation now1 i db of
        (Inl err, db1) \<Rightarrow> (Inl err, db1)
      | (Inr v, db1) \<Rightarrow>
          if res_status (fst v) = CANCELLED then (Inr (Some v), db1)
          else if res_status (fst v) \<noteq> HELD
          then (Inl (SvcConflict (lit ''reservation '' @ quote1 i @ lit '' cannot transition from '' @
            status_name (res_status (fst v)) @ lit '' to CANCELLED'')), db1)
          else
            (case validate_cancel_payment_payload req of
               Inl err \<Rightarrow> (Inl err, db1)
             | Inr payload \<Rightarrow>
                 (case repo_cancel i now2 payload db1 of
                    (Inl _, db2) \<Rightarrow> (Inl SvcIntegrityError, db2)
                  | (Inr w, db2) \<Rightarrow> (Inr w, db2))))"

definition svc_expire ::
  "ustr \<Rightarrow> ustr \<Rightarrow> ustr \<Rightarrow> TicketingDb \<Rightarrow> (svc_error + reservation_view option) \<times> TicketingDb" where
  "svc_expire now1 now2 i db =
     (case require_reservation now1 i db of
        (Inl err, db1) \<Rightarrow> (Inl err, db1)
      | (Inr v, db1) \<Rightarrow>
          if res_status (fst v) = EXPIRED then (Inr (Some v), db1)
          else if res_status (fst v) \<noteq> HELD
          then (Inl (SvcConflict (lit ''reservation '' @ quote1 i @ lit '' cannot transition from '' @
            status_name (res_status (fst v)) @ lit '' to EXPIRED'')), db1)
          else (case repo_expire i now2 db1 of (w, db2) \<Rightarrow> (Inr w, db2)))"

definition svc_list_user_reservations ::
  "ustr \<Rightarrow> ustr \<Rightarrow> TicketingDb \<Rightarrow> (svc_error + reservation_view list) \<times> TicketingDb" where
  "svc_list_user_reservations now u db =
     (let db1 = svc_expire_stale now db
      in (case require_user u db1 of
            Inl err \<Rightarrow> (Inl err, db1)
          | Inr _ \<Rightarrow> (Inr (list_user_reservations u db1), db1)))"

definition svc_list_confirmed_seats ::
  "ustr \<Rightarrow> ustr \<Rightarrow> TicketingDb \<Rightarrow> (svc_error + ReservationRow list) \<times> TicketingDb" where
  "svc_list_confirmed_seats now e db =
     (let db1 = svc_expire_stale now db
      in (case require_event e db1 of
            Inl err \<Rightarrow> (Inl err, db1)
          | Inr _ \<Rightarrow> (Inr (list_confirmed_seats e db1), db1)))"

text \<open>
  The loop of \<open>expire_stale_reservations\<close> over the reservations it has listed: a conflict is
  skipped, any other error ends it. The round with number \<open>n\<close> reads the clock twice, as
  \<open>ts n\<close>.
\<close>

fun expire_each ::
  "(nat \<Rightarrow> ustr \<times> ustr) \<Rightarrow> ReservationRow list \<Rightarrow> TicketingDb \<Rightarrow>
     (svc_error + reservation_view option list) \<times> TicketingDb" where
  "expire_each ts [] db = (Inr [], db)"
| "expire_each ts (r # rs) db =
     (case svc_expire (fst (ts 0)) (snd (ts 0)) (res_id r) db of
        (Inl (SvcConflict _), db1) \<Rightarrow> expire_each (\<lambda>n. ts (Suc n)) rs db1
      | (Inl err, db1) \<Rightarrow> (Inl err, db1)
      | (Inr v, db1) \<Rightarrow>
          (case expire_each (\<lambda>n. ts (Suc n)) rs db1 of
             (Inl err, db2) \<Rightarrow> (Inl err, db2)
           | (Inr vs, db2) \<Rightarrow> (Inr (v # vs), db2)))"

definition svc_expire_stale_reservations ::
  "ustr \<Rightarrow> (nat \<Rightarrow> ustr \<times> ustr) \<Rightarrow> int \<Rightarrow> TicketingDb \<Rightarrow>
     (svc_error + reservation_view option list) \<times> TicketingDb" where
  "svc_expire_stale_reservations now ts limit db =
     expire_each ts (list_stale_held_reservations now limit db) db"

end
