(* ===== verification/Ticketing_Invariants.thy ===== *)
theory Ticketing_Invariants
  imports Ticketing_Service
begin

section \<open>The invariant of the ticketing database\<close>

text \<open>
  What holds of the tables after any sequence of service calls: the constraints of the schema
  and, beyond them, that a confirmed reservation has a successful payment and a confirmation
  time, and that a held reservation has no payment.
\<close>

definition row_key :: "ReservationRow \<Rightarrow> ustr \<times> ustr \<times> ustr \<times> ustr \<times> ustr option" where
  "row_key r = (res_id r, res_event_id r, res_seat_id r, res_user_id r, res_hold_token r)"

definition tokens_ok :: "ReservationRow list \<Rightarrow> bool" where
  "tokens_ok rs \<longleftrightarrow>
     (\<forall>t. \<forall>x\<in>set rs. \<forall>y\<in>set rs.
        res_hold_token x = Some t \<longrightarrow> res_hold_token y = Some t \<longrightarrow> res_id x = res_id y)"

definition confirmed_unique :: "ReservationRow list \<Rightarrow> bool" where
  "confirmed_unique rs \<longleftrightarrow>
     (\<forall>e s. \<forall>x\<in>set rs. \<forall>y\<in>set rs. confirmed_for e s x \<longrightarrow> confirmed_for e s y \<longrightarrow> res_id x = res_id y)"

definition payments_ok :: "PaymentRow list \<Rightarrow> ReservationRow list \<Rightarrow> bool" where
  "payments_ok ps rs \<longleftrightarrow>
     distinct (map pay_reservation_id ps) \<and> distinct (map pay_id ps) \<and>
     pay_reservation_id ` set ps \<subseteq> res_id ` set rs"

definition row_paid :: "PaymentRow list \<Rightarrow> ReservationRow \<Rightarrow> bool" where
  "row_paid ps r \<longleftrightarrow>
     (res_status r = CONFIRMED \<longrightarrow>
        res_confirmed_at r \<noteq> None \<and>
        (\<exists>p\<in>set ps. pay_reservation_id p = res_id r \<and> pay_status p = SUCCEEDED)) \<and>
     (res_status r = HELD \<longrightarrow> res_id r \<notin> pay_reservation_id ` set ps)"

definition row_refs :: "TicketingDb \<Rightarrow> ReservationRow \<Rightarrow> bool" where
  "row_refs db r \<longleftrightarrow>
     get_seat (res_event_id r) (res_seat_id r) db \<noteq> None \<and> get_user (res_user_id r) db \<noteq> None"

definition db_inv :: "TicketingDb \<Rightarrow> bool" where
  "db_inv db \<longleftrightarrow>
     distinct (map res_id (reservations db)) \<and> tokens_ok (reservations db) \<and>
     confirmed_unique (reservations db) \<and> payments_ok (payments db) (reservations db) \<and>
     (\<forall>r\<in>set (reservations db). row_paid (payments db) r) \<and>
     (\<forall>r\<in>set (reservations db). row_refs db r)"

lemma db_invI:
  assumes "distinct (map res_id (reservations db))" and "tokens_ok (reservations db)"
    and "confirmed_unique (reservations db)" and "payments_ok (payments db) (reservations db)"
    and "\<And>r. r \<in> set (reservations db) \<Longrightarrow> row_paid (payments db) r"
    and "\<And>r. r \<in> set (reservations db) \<Longrightarrow> row_refs db r"
  shows "db_inv db"
  using assms by (simp add: db_inv_def)

lemma find_reservation_None: "find_reservation i db = None \<longleftrightarrow> i \<notin> res_id ` set (reservations db)"
  by (auto simp: find_reservation_def find_None_iff)

lemma find_reservation_Some:
  "find_reservation i db = Some r \<Longrightarrow> r \<in> set (reservations db) \<and> res_id r = i"
  by (auto simp: find_reservation_def find_Some_iff)

subsection \<open>Rows that leave the held state\<close>

text \<open>A change of rows that keeps their keys and makes none confirmed or held.\<close>

definition demotes :: "(ReservationRow \<Rightarrow> ReservationRow) \<Rightarrow> bool" where
  "demotes f \<longleftrightarrow>
     (\<forall>r. row_key (f r) = row_key r \<and> (f r = r \<or> res_status (f r) \<notin> {CONFIRMED, HELD}))"

lemma key_map_ids: "(\<And>r. row_key (f r) = row_key r) \<Longrightarrow> map res_id (map f rs) = map res_id rs"
  by (simp add: row_key_def)

lemma key_map_tokens: "(\<And>r. row_key (f r) = row_key r) \<Longrightarrow> tokens_ok rs \<Longrightarrow> tokens_ok (map f rs)"
proof -
  assume key: "\<And>r. row_key (f r) = row_key r" and ok: "tokens_ok rs"
  have f: "res_hold_token (f r) = res_hold_token r" "res_id (f r) = res_id r" for r
    using key [of r] by (simp_all add: row_key_def)
  show ?thesis
    using ok unfolding tokens_ok_def list.set_map ball_simps f by blast
qed

lemma key_map_payments:
  "(\<And>r. row_key (f r) = row_key r) \<Longrightarrow> payments_ok ps rs \<Longrightarrow> payments_ok ps (map f rs)"
  using arg_cong [where f = set, OF key_map_ids [of f rs]] by (simp add: payments_ok_def image_image)

lemma key_map_refs: "row_key r' = row_key r \<Longrightarrow> row_refs (db\<lparr>reservations := rs\<rparr>) r' = row_refs db r"
  by (simp add: row_refs_def row_key_def get_seat_def get_user_def)

lemma demote_inv:
  assumes "db_inv db" and "demotes f"
  shows "db_inv (db\<lparr>reservations := map f (reservations db)\<rparr>)"
proof (rule db_invI)
  let ?rs = "reservations db"
  have key: "\<And>r. row_key (f r) = row_key r" using assms(2) by (simp add: demotes_def)
  have keep: "f r = r" if "res_status (f r) \<in> {CONFIRMED, HELD}" for r
    using assms(2) that unfolding demotes_def by blast
  note inv = assms(1) [unfolded db_inv_def]
  show "distinct (map res_id (reservations (db\<lparr>reservations := map f ?rs\<rparr>)))"
    using inv key_map_ids [OF key, of ?rs] by (simp del: map_map)
  show "tokens_ok (reservations (db\<lparr>reservations := map f ?rs\<rparr>))"
    using inv key_map_tokens [OF key] by simp
  show "confirmed_unique (reservations (db\<lparr>reservations := map f ?rs\<rparr>))"
    unfolding confirmed_unique_def
  proof (intro allI ballI impI)
    fix e s x y
    assume "x \<in> set (reservations (db\<lparr>reservations := map f ?rs\<rparr>))"
      "y \<in> set (reservations (db\<lparr>reservations := map f ?rs\<rparr>))" "confirmed_for e s x" "confirmed_for e s y"
    moreover have "z \<in> set ?rs" if z: "z \<in> set (map f ?rs)" "res_status z = CONFIRMED" for z
    proof -
      obtain w where w: "w \<in> set ?rs" "z = f w" using z(1) by auto
      then show ?thesis using keep [of w] z(2) by simp
    qed
    ultimately have "x \<in> set ?rs" "y \<in> set ?rs" by (simp_all add: confirmed_for_def)
    then show "res_id x = res_id y"
      using inv \<open>confirmed_for e s x\<close> \<open>confirmed_for e s y\<close> unfolding confirmed_unique_def by blast
  qed
  show "payments_ok (payments (db\<lparr>reservations := map f ?rs\<rparr>)) (reservations (db\<lparr>reservations := map f ?rs\<rparr>))"
    using inv key_map_payments [OF key] by simp
  fix r assume "r \<in> set (reservations (db\<lparr>reservations := map f ?rs\<rparr>))"
  then obtain x where x: "x \<in> set ?rs" "r = f x" by auto
  show "row_refs (db\<lparr>reservations := map f ?rs\<rparr>) r"
    using inv x key key_map_refs by blast
  show "row_paid (payments (db\<lparr>reservations := map f ?rs\<rparr>)) r"
    using inv x keep [of x] by (cases "res_status (f x) \<in> {CONFIRMED, HELD}") (simp_all add: row_paid_def)
qed

lemma expire_stale_inv: "db_inv db \<Longrightarrow> db_inv (svc_expire_stale now db)"
  unfolding svc_expire_stale_def repo_expire_stale_def snd_conv
  by (rule demote_inv) (simp_all add: demotes_def row_key_def expire_row_def)

lemma update_inv:
  assumes "db_inv db" and "\<And>r. row_key (f r) = row_key r" and "\<And>r. res_status (f r) \<notin> {CONFIRMED, HELD}"
  shows "db_inv (update_reservation i f db)"
  unfolding update_reservation_def
  by (rule demote_inv [OF assms(1)]) (use assms(2,3) in \<open>auto simp: demotes_def\<close>)

lemma expire_inv: "db_inv db \<Longrightarrow> db_inv (update_reservation i (expire_row now) db)"
  by (rule update_inv) (simp_all add: row_key_def expire_row_def)

subsection \<open>New reservations and users\<close>

lemma find_append: "find P (xs @ ys) = (case find P xs of None \<Rightarrow> find P ys | Some x \<Rightarrow> Some x)"
  by (induction xs) auto

lemma create_user_inv:
  assumes "db_inv db"
  shows "db_inv (snd (create_user u name email now db))"
proof -
  have "row_refs db r \<Longrightarrow> row_refs (db\<lparr>users := users db @ [x]\<rparr>) r" for x r
    by (auto simp: row_refs_def get_seat_def get_user_def find_append split: option.splits)
  then show ?thesis using assms by (simp add: create_user_def Let_def db_inv_def)
qed

lemma ensure_user_inv: "db_inv db \<Longrightarrow> db_inv (snd (ensure_user now u db))"
  using create_user_inv by (simp add: ensure_user_def Let_def split: option.split)

lemma insert_held_inv:
  assumes "db_inv db" and "insert_reservation r db = Inr db1" and "res_status r = HELD"
  shows "db_inv db1"
proof -
  note inv = assms(1) [unfolded db_inv_def]
  have db1: "db1 = db\<lparr>reservations := reservations db @ [r]\<rparr>"
    using assms(2) by (simp add: insert_reservation_def split: if_splits)
  have new: "res_id r \<notin> res_id ` set (reservations db)"
    and token: "\<And>x t. x \<in> set (reservations db) \<Longrightarrow> res_hold_token r = Some t \<Longrightarrow> res_hold_token x \<noteq> Some t"
    and refs: "row_refs db r"
    using assms(2) by (auto simp: insert_reservation_def list_ex_iff row_refs_def split: if_splits)
  show ?thesis
    unfolding db1
  proof (rule db_invI)
    let ?db = "db\<lparr>reservations := reservations db @ [r]\<rparr>"
    show "distinct (map res_id (reservations ?db))" using inv new by simp
    have old: "res_id x = res_id y" if "x \<in> set (reservations db)" "y \<in> set (reservations db)"
      "res_hold_token x = Some t" "res_hold_token y = Some t" for x y t
      using inv that unfolding tokens_ok_def by blast
    show "tokens_ok (reservations ?db)"
      unfolding tokens_ok_def
    proof (intro allI ballI impI)
      fix t x y
      assume "x \<in> set (reservations ?db)" "y \<in> set (reservations ?db)"
        and t: "res_hold_token x = Some t" "res_hold_token y = Some t"
      then have "x = r \<or> x \<in> set (reservations db)" "y = r \<or> y \<in> set (reservations db)" by auto
      then show "res_id x = res_id y" using old [OF _ _ t] token t by metis
    qed
    show "confirmed_unique (reservations ?db)"
      unfolding confirmed_unique_def
    proof (intro allI ballI impI)
      fix e s x y
      assume "x \<in> set (reservations ?db)" "y \<in> set (reservations ?db)"
        and c: "confirmed_for e s x" "confirmed_for e s y"
      moreover have "\<not> confirmed_for e s r" using assms(3) by (simp add: confirmed_for_def)
      ultimately have "x \<in> set (reservations db)" "y \<in> set (reservations db)" by auto
      then show "res_id x = res_id y" using inv c unfolding confirmed_unique_def by blast
    qed
    show "payments_ok (payments ?db) (reservations ?db)"
      using inv by (auto simp: payments_ok_def)
    fix x assume x: "x \<in> set (reservations ?db)"
    show "row_refs ?db x"
      using x inv refs by (auto simp: row_refs_def get_seat_def get_user_def)
    have "res_id r \<notin> pay_reservation_id ` set (payments db)"
      using inv new by (auto simp: payments_ok_def)
    then show "row_paid (payments ?db) x"
      using x inv assms(3) by (auto simp: row_paid_def)
  qed
qed

subsection \<open>Payments\<close>

text \<open>
  Recording the payment of a reservation that has none: a row is added, and the payments of
  the other reservations are kept.
\<close>

lemma upsert_shape:
  assumes "db_inv db" and "upsert_payment p db = Inr db1"
    and "pay_reservation_id p \<notin> pay_reservation_id ` set (payments db)"
  shows "db1 = db\<lparr>payments := payments db @ [p]\<rparr>" and "pay_reservation_id p \<in> res_id ` set (reservations db)"
    and "pay_id p \<notin> pay_id ` set (payments db)"
proof -
  have ex: "\<not> list_ex (\<lambda>q. pay_reservation_id q = pay_reservation_id p) (payments db)"
    using assms(3) by (auto simp: list_ex_iff image_iff)
  have ok: "\<not> (list_ex (\<lambda>q. pay_id q = pay_id p \<and> pay_reservation_id q \<noteq> pay_reservation_id p) (payments db) \<or>
         find_reservation (pay_reservation_id p) db = None)"
    using assms(2) unfolding upsert_payment_def by (meson Inl_Inr_False)
  show "db1 = db\<lparr>payments := payments db @ [p]\<rparr>"
    using assms(2) ex ok by (simp add: upsert_payment_def)
  show "pay_reservation_id p \<in> res_id ` set (reservations db)"
    using ok by (simp add: find_reservation_None)
  show "pay_id p \<notin> pay_id ` set (payments db)"
    using ok assms(3) by (auto simp: list_ex_iff image_iff)
qed

lemma payments_ok_add:
  assumes "payments_ok ps rs" and "pay_reservation_id p \<notin> pay_reservation_id ` set ps"
    and "pay_id p \<notin> pay_id ` set ps" and "pay_reservation_id p \<in> res_id ` set rs"
  shows "payments_ok (ps @ [p]) rs"
  using assms by (simp add: payments_ok_def)

lemma row_paid_add: "row_paid ps r \<Longrightarrow> pay_reservation_id p \<noteq> res_id r \<Longrightarrow> row_paid (ps @ [p]) r"
  by (auto simp: row_paid_def)

lemma payment_add_inv:
  assumes "db_inv db" and "demotes f" and "payments_ok (payments db @ [p]) (reservations db)"
    and "\<And>r. r \<in> set (reservations db) \<Longrightarrow> res_id r = pay_reservation_id p \<Longrightarrow> res_status (f r) \<notin> {CONFIRMED, HELD}"
  shows "db_inv (db\<lparr>payments := payments db @ [p], reservations := map f (reservations db)\<rparr>)"
proof (rule db_invI)
  let ?db = "db\<lparr>payments := payments db @ [p], reservations := map f (reservations db)\<rparr>"
  have old: "db_inv (db\<lparr>reservations := map f (reservations db)\<rparr>)"
    by (rule demote_inv [OF assms(1,2)])
  have key: "\<And>r. row_key (f r) = row_key r" using assms(2) by (simp add: demotes_def)
  show "distinct (map res_id (reservations ?db))" "tokens_ok (reservations ?db)"
    "confirmed_unique (reservations ?db)"
    using old by (simp_all add: db_inv_def)
  show "payments_ok (payments ?db) (reservations ?db)"
    using key_map_payments [OF key assms(3)] by simp
  fix r assume r: "r \<in> set (reservations ?db)"
  show "row_refs ?db r"
    using old r by (auto simp: db_inv_def row_refs_def get_seat_def get_user_def)
  obtain x where x: "x \<in> set (reservations db)" "r = f x" using r by auto
  have id: "res_id r = res_id x" using key [of x] x(2) by (simp add: row_key_def)
  have paid: "row_paid (payments db) r" using old r by (auto simp: db_inv_def)
  show "row_paid (payments ?db) r"
  proof (cases "pay_reservation_id p = res_id x")
    case True
    then show ?thesis using assms(4) [of x] x by (simp add: row_paid_def)
  next
    case False
    then show ?thesis using row_paid_add [OF paid] id by simp
  qed
qed

text \<open>A reservation of a list without repeated identifiers is the one found under its identifier.\<close>

lemma same_id_same_row:
  assumes "distinct (map res_id rs)" and "x \<in> set rs" and "y \<in> set rs" and "res_id x = res_id y"
  shows "x = y"
  using assms by (simp add: distinct_map inj_on_def)

lemma set_confirmed_Inr:
  assumes "find_reservation i db = Some r" and "set_confirmed i now db = Inr db1"
  shows "db1 = update_reservation i (confirm_row now) db"
    and "\<And>x. x \<in> set (reservations db) \<Longrightarrow> confirmed_for (res_event_id r) (res_seat_id r) x \<Longrightarrow> res_id x = i"
  using assms by (auto simp: set_confirmed_def list_ex_iff split: if_splits)

lemma held_unpaid:
  assumes "db_inv db" and "find_reservation i db = Some r" and "res_status r = HELD"
  shows "i \<notin> pay_reservation_id ` set (payments db)"
proof -
  have "r \<in> set (reservations db)" "res_id r = i" using find_reservation_Some [OF assms(2)] by simp_all
  then show ?thesis using assms(1,3) by (auto simp: db_inv_def row_paid_def)
qed

lemma confirm_unique:
  assumes "confirmed_unique rs" and "distinct (map res_id rs)" and r: "r \<in> set rs" "res_id r = i"
    and free: "\<And>x. x \<in> set rs \<Longrightarrow> confirmed_for (res_event_id r) (res_seat_id r) x \<Longrightarrow> res_id x = i"
  shows "confirmed_unique (map (\<lambda>r. if res_id r = i then confirm_row now r else r) rs)"
  unfolding confirmed_unique_def
proof (intro allI ballI impI)
  let ?f = "\<lambda>r. if res_id r = i then confirm_row now r else r"
  fix e s x y
  assume "x \<in> set (map ?f rs)" "y \<in> set (map ?f rs)" and c: "confirmed_for e s x" "confirmed_for e s y"
  then obtain x' y' where xy: "x' \<in> set rs" "x = ?f x'" "y' \<in> set rs" "y = ?f y'" by auto
  have same: "confirmed_for e s z \<or> (res_id z = i \<and> res_event_id z = e \<and> res_seat_id z = s)"
    if "confirmed_for e s (?f z)" for z
    using that by (simp add: confirmed_for_def confirm_row_def split: if_splits)
  have mine: "z = r" if "z \<in> set rs" "res_id z = i" for z
    using same_id_same_row [OF assms(2) that(1) r(1)] that(2) r(2) by simp
  have "res_id x' = res_id y'"
  proof (cases "res_id x' = i \<or> res_id y' = i")
    case True
    then have "r = x' \<or> r = y'" using mine xy by blast
    then have "e = res_event_id r" "s = res_seat_id r"
      using c xy by (auto simp: confirmed_for_def confirm_row_def split: if_splits)
    then have all: "res_id z = i" if "z \<in> set rs" "confirmed_for e s (?f z)" for z
      using same [OF that(2)] free [OF that(1)] by blast
    show ?thesis using all [OF xy(1)] all [OF xy(3)] c [unfolded xy(2,4)] by simp
  next
    case False
    then have "x = x'" "y = y'" using xy by simp_all
    then have "x' \<in> set rs" "y' \<in> set rs" "confirmed_for e s x'" "confirmed_for e s y'" using c xy by simp_all
    then show ?thesis using assms(1) unfolding confirmed_unique_def by blast
  qed
  then show "res_id x = res_id y" using xy by (simp add: confirm_row_def)
qed

lemma confirm_inv:
  assumes "db_inv db" and r: "find_reservation i db = Some r" and "res_status r = HELD"
    and p: "pay_reservation_id p = i" "pay_status p = SUCCEEDED"
    and up: "upsert_payment p db = Inr db1" and set: "set_confirmed i now db1 = Inr db2"
  shows "db2 = db\<lparr>payments := payments db @ [p],
                  reservations := map (\<lambda>r. if res_id r = i then confirm_row now r else r) (reservations db)\<rparr>"
    and "db_inv db2"
proof -
  note inv = assms(1) [unfolded db_inv_def]
  have unpaid: "pay_reservation_id p \<notin> pay_reservation_id ` set (payments db)"
    using held_unpaid [OF assms(1-3)] p(1) by simp
  note shape = upsert_shape [OF assms(1) up unpaid]
  have found: "find_reservation i db1 = Some r" using r by (simp add: shape(1) find_reservation_def)
  let ?f = "\<lambda>r. if res_id r = i then confirm_row now r else r"
  show db2: "db2 = db\<lparr>payments := payments db @ [p], reservations := map ?f (reservations db)\<rparr>"
    using set_confirmed_Inr(1) [OF found set] by (simp add: shape(1) update_reservation_def)
  have free: "res_id x = i" if "x \<in> set (reservations db)" "confirmed_for (res_event_id r) (res_seat_id r) x" for x
    using set_confirmed_Inr(2) [OF found set] that by (simp add: shape(1))
  have key: "\<And>x. row_key (?f x) = row_key x" by (simp add: row_key_def confirm_row_def)
  show "db_inv db2"
    unfolding db2
  proof (rule db_invI)
    let ?db = "db\<lparr>payments := payments db @ [p], reservations := map ?f (reservations db)\<rparr>"
    show "distinct (map res_id (reservations ?db))"
      using inv key_map_ids [of ?f, OF key, of "reservations db"] by (simp del: map_map)
    show "tokens_ok (reservations ?db)" using inv key_map_tokens [of ?f, OF key] by simp
    show "payments_ok (payments ?db) (reservations ?db)"
      using key_map_payments [of ?f, OF key payments_ok_add [OF _ unpaid shape(3,2)]] inv by simp
    show "confirmed_unique (reservations ?db)"
      using confirm_unique [of "reservations db" r i now] free inv find_reservation_Some [OF r] by simp
    fix x assume "x \<in> set (reservations ?db)"
    then obtain w where w: "w \<in> set (reservations db)" "x = ?f w" by auto
    have "row_refs db w" using inv w by blast
    then show "row_refs ?db x"
      by (simp add: w(2) row_refs_def get_seat_def get_user_def confirm_row_def)
    show "row_paid (payments ?db) x"
    proof (cases "res_id w = i")
      case True
      then show ?thesis using p by (simp add: w(2) row_paid_def confirm_row_def)
    next
      case False
      have "row_paid (payments db) w" using inv w by blast
      then show ?thesis using False row_paid_add [of "payments db" w p] w(2) p(1) by simp
    qed
  qed
qed

lemma repo_confirm_inv:
  assumes "db_inv db" and "find_reservation i db = Some r" and "res_status r = HELD"
  shows "db_inv (snd (repo_confirm i payment amount provider ref now db))"
  by (auto simp: repo_confirm_def assms(1) intro: confirm_inv(2) [OF assms, rotated 2] split: sum.split)

lemma cancel_inv: "db_inv db \<Longrightarrow> db_inv (update_reservation i (cancel_row now) db)"
  by (rule update_inv) (simp_all add: row_key_def cancel_row_def)

lemma cancel_paid_inv:
  assumes "db_inv db" and "find_reservation i db = Some r" and "res_status r = HELD"
    and p: "pay_reservation_id p = i" and up: "upsert_payment p db = Inr db1"
  shows "db_inv (update_reservation i (cancel_row now) db1)"
proof -
  have unpaid: "pay_reservation_id p \<notin> pay_reservation_id ` set (payments db)"
    using held_unpaid [OF assms(1-3)] p by simp
  note shape = upsert_shape [OF assms(1) up unpaid]
  have "payments_ok (payments db @ [p]) (reservations db)"
    using payments_ok_add [OF _ unpaid shape(3,2)] assms(1) by (simp add: db_inv_def)
  then show ?thesis
    using payment_add_inv [OF assms(1), of "\<lambda>r. if res_id r = i then cancel_row now r else r" p] p
    by (simp add: shape(1) update_reservation_def demotes_def row_key_def cancel_row_def)
qed

lemma repo_cancel_inv:
  assumes "db_inv db" and "find_reservation i db = Some r" and "res_status r = HELD"
  shows "db_inv (snd (repo_cancel i now payload db))"
  by (auto simp: repo_cancel_def Let_def assms(1)
      intro: cancel_inv cancel_paid_inv [OF assms, rotated 1] split: sum.split option.split)

subsection \<open>The workflows\<close>

lemma get_reservation_Some:
  "get_reservation i db = Some v \<Longrightarrow> find_reservation i db = Some (fst v) \<and> v = with_payment db (fst v)"
  by (auto simp: get_reservation_def with_payment_def)

lemma require_reservation_Inr:
  "require_reservation now i db = (Inr v, db1) \<longleftrightarrow>
     db1 = svc_expire_stale now db \<and> get_reservation i db1 = Some v"
  by (auto simp: require_reservation_def Let_def split: option.splits)

lemma require_reservation_Inl:
  "require_reservation now i db = (Inl err, db1) \<longleftrightarrow>
     db1 = svc_expire_stale now db \<and> get_reservation i db1 = None \<and>
     err = SvcNotFound (lit ''reservation '' @ quote1 i @ lit '' was not found'')"
  by (auto simp: require_reservation_def Let_def split: option.splits)

lemma create_held_inv:
  assumes "db_inv db"
  shows "db_inv (snd (repo_create_held i e s u token expires_at now db))"
  using assms insert_held_inv [OF assms] by (simp add: repo_create_held_def split: sum.split)

lemma svc_create_held_inv:
  assumes "db_inv db"
  shows "db_inv (snd (svc_create_held now1 now2 now3 req db))"
proof -
  have 1: "db_inv (svc_expire_stale now1 db)" by (rule expire_stale_inv [OF assms])
  have 2: "db_inv db2" if "ensure_user now2 u (svc_expire_stale now1 db) = (x, db2)" for x u db2
    using ensure_user_inv [OF 1, of now2 u] that by simp
  have 3: "db_inv db3" if "ensure_user now2 u (svc_expire_stale now1 db) = (x, db2)"
    "repo_create_held i e s u token expires_at now3 db2 = (y, db3)" for x y u i e s token expires_at db2 db3
    using create_held_inv [OF 2 [OF that(1)], of i e s u token expires_at now3] that(2) by simp
  show ?thesis
    by (auto simp: svc_create_held_def Let_def 1 2 3 split: sum.split prod.split option.split)
qed

lemma svc_confirm_inv:
  assumes "db_inv db"
  shows "db_inv (snd (svc_confirm now1 now2 i req db))"
proof -
  have 1: "db_inv (svc_expire_stale now1 db)" by (rule expire_stale_inv [OF assms])
  have 2: "db_inv db2"
    if "get_reservation i (svc_expire_stale now1 db) = Some v" "res_status (fst v) = HELD"
      "repo_confirm i a b c d now2 (svc_expire_stale now1 db) = (x, db2)" for a b c d v x db2
    using repo_confirm_inv [OF 1, of i "fst v" a b c d now2] get_reservation_Some [OF that(1)] that by simp
  show ?thesis
    using 1 2
    by (auto simp: svc_confirm_def require_reservation_Inr require_reservation_Inl
        split: sum.split prod.split)
qed

lemma svc_cancel_inv:
  assumes "db_inv db"
  shows "db_inv (snd (svc_cancel now1 now2 i req db))"
proof -
  have 1: "db_inv (svc_expire_stale now1 db)" by (rule expire_stale_inv [OF assms])
  have 2: "db_inv db2"
    if "get_reservation i (svc_expire_stale now1 db) = Some v" "res_status (fst v) = HELD"
      "repo_cancel i now2 payload (svc_expire_stale now1 db) = (x, db2)" for payload v x db2
    using repo_cancel_inv [OF 1, of i "fst v" now2 payload] get_reservation_Some [OF that(1)] that by simp
  show ?thesis
    using 1 2
    by (auto simp: svc_cancel_def require_reservation_Inr require_reservation_Inl
        split: sum.split prod.split)
qed

lemma svc_expire_inv:
  assumes "db_inv db"
  shows "db_inv (snd (svc_expire now1 now2 i db))"
  using expire_stale_inv [OF assms, of now1] expire_inv [OF expire_stale_inv [OF assms, of now1], of i now2]
  by (auto simp: svc_expire_def repo_expire_def Let_def require_reservation_Inr require_reservation_Inl
      split: sum.split prod.split)

lemma expire_each_inv: "db_inv db \<Longrightarrow> db_inv (snd (expire_each ts rs db))"
proof (induction rs arbitrary: ts db)
  case (Cons r rs)
  obtain x db1 where x: "svc_expire (fst (ts 0)) (snd (ts 0)) (res_id r) db = (x, db1)" by fastforce
  then have "db_inv db1" using svc_expire_inv [OF Cons(2), of "fst (ts 0)" "snd (ts 0)" "res_id r"] by simp
  moreover from this have "db_inv (snd (expire_each (\<lambda>n. ts (Suc n)) rs db1))" by (rule Cons(1))
  ultimately show ?case
    using x by (auto split: sum.split prod.split svc_error.split)
qed simp

end
