(* ===== verification/Ticketing_Seed.thy ===== *)
theory Ticketing_Seed
  imports Ticketing_Invariants Py_Text
begin

section \<open>The demo data (\<open>ticketing_api/demo_layout.py\<close>, \<open>repository.py\<close>: \<open>seed_demo_data\<close>)\<close>

text \<open>
  Seeding deletes the demo event, with the rows that refer to it by cascading foreign keys,
  and inserts the event, the demo users that are missing and the seats of the layout. The
  inserts check the primary keys and the foreign key of a seat.
\<close>

definition DEMO_EVENT_ID :: ustr where
  "DEMO_EVENT_ID = lit ''concert-seoul-2026''"

definition DEMO_ROW_LABELS :: "ustr list" where
  "DEMO_ROW_LABELS = [lit ''A'', lit ''B'', lit ''C'', lit ''D'', lit ''E'', lit ''F'']"

definition DEMO_SEATS_PER_ROW :: nat where
  "DEMO_SEATS_PER_ROW = 11"

definition DEMO_DEFAULT_PRICE :: int where
  "DEMO_DEFAULT_PRICE = 120000"

definition iter_demo_seat_ids :: "ustr list" where
  "iter_demo_seat_ids =
     concat (map (\<lambda>row. map (\<lambda>n. row @ nat_str n) [1..<DEMO_SEATS_PER_ROW + 1]) DEMO_ROW_LABELS)"

definition build_demo_seat_rows :: "ustr \<Rightarrow> SeatRow list" where
  "build_demo_seat_rows created_at =
     concat (map (\<lambda>row. map (\<lambda>n.
       (let seat_id = row @ nat_str n
        in \<lparr>st_event_id = DEMO_EVENT_ID, st_seat_id = seat_id, st_label = seat_id, st_section = lit ''FLOOR'',
            st_row_label = row, st_number = int n, st_price = DEMO_DEFAULT_PRICE, st_created_at = created_at\<rparr>))
       [1..<DEMO_SEATS_PER_ROW + 1]) DEMO_ROW_LABELS)"

text \<open>\<open>DELETE FROM events\<close> with the cascades to seats, reservations and payments.\<close>

definition delete_event :: "ustr \<Rightarrow> TicketingDb \<Rightarrow> TicketingDb" where
  "delete_event e db =
     (let gone_seats = (if get_event e db = None then [] else filter (\<lambda>s. st_event_id s = e) (seats db));
          gone = (\<lambda>r. list_ex (\<lambda>s. st_event_id s = res_event_id r \<and> st_seat_id s = res_seat_id r) gone_seats);
          gone_reservations = filter gone (reservations db)
      in db\<lparr>events := filter (\<lambda>r. ev_id r \<noteq> e) (events db),
            seats := filter (\<lambda>s. s \<notin> set gone_seats) (seats db),
            reservations := filter (\<lambda>r. \<not> gone r) (reservations db),
            payments := filter (\<lambda>p. \<not> list_ex (\<lambda>r. res_id r = pay_reservation_id p) gone_reservations) (payments db)\<rparr>)"

definition insert_event :: "EventRow \<Rightarrow> TicketingDb \<Rightarrow> db_error + TicketingDb" where
  "insert_event r db =
     (if get_event (ev_id r) db \<noteq> None then Inl DbIntegrityError else Inr (db\<lparr>events := events db @ [r]\<rparr>))"

fun insert_seats :: "SeatRow list \<Rightarrow> TicketingDb \<Rightarrow> db_error + TicketingDb" where
  "insert_seats [] db = Inr db"
| "insert_seats (s # ss) db =
     (if get_seat (st_event_id s) (st_seat_id s) db \<noteq> None \<or> get_event (st_event_id s) db = None
      then Inl DbIntegrityError
      else insert_seats ss (db\<lparr>seats := seats db @ [s]\<rparr>))"

definition demo_event :: "ustr \<Rightarrow> EventRow" where
  "demo_event created_at =
     \<lparr>ev_id = DEMO_EVENT_ID, ev_title = lit ''Open Air Countdown Live'', ev_venue = lit ''Seoul Olympic Hall'',
      ev_starts_at = lit ''2026-03-19T20:00:00+09:00'', ev_booking_opens_at = lit ''2026-03-19T19:00:00+09:00'',
      ev_created_at = created_at\<rparr>"

definition seed_users :: "ustr \<Rightarrow> TicketingDb \<Rightarrow> TicketingDb" where
  "seed_users created_at db =
     fold (\<lambda>(u, name, email) db. snd (create_user u name email created_at db))
       [(lit ''user-1'', lit ''Mina'', lit ''mina@example.com''),
        (lit ''user-2'', lit ''Jisoo'', lit ''jisoo@example.com''),
        (lit ''user-3'', lit ''Alex'', lit ''alex@example.com'')] db"

definition seed_demo_data :: "ustr \<Rightarrow> TicketingDb \<Rightarrow> db_error option \<times> TicketingDb" where
  "seed_demo_data created_at db =
     (case insert_event (demo_event created_at) (delete_event DEMO_EVENT_ID db) of
        Inl err \<Rightarrow> (Some err, db)
      | Inr db1 \<Rightarrow>
          (case insert_seats (build_demo_seat_rows created_at) (seed_users created_at db1) of
             Inl err \<Rightarrow> (Some err, db)
           | Inr db2 \<Rightarrow> (None, db2)))"

subsection \<open>The layout\<close>

text \<open>The keys by which seats are listed, and their identifiers.\<close>

definition seat_order :: "SeatRow \<Rightarrow> ustr \<times> ustr \<times> int" where
  "seat_order s = (st_section s, st_row_label s, st_number s)"

definition demo_order :: "(ustr \<times> ustr \<times> int) list" where
  "demo_order = concat (map (\<lambda>row. map (\<lambda>n. (lit ''FLOOR'', row, int n)) [1..<DEMO_SEATS_PER_ROW + 1]) DEMO_ROW_LABELS)"

lemma demo_rows_order: "map seat_order (build_demo_seat_rows t) = demo_order"
  by (simp add: build_demo_seat_rows_def demo_order_def seat_order_def map_concat comp_def Let_def)

lemma demo_rows_ids: "map st_seat_id (build_demo_seat_rows t) = iter_demo_seat_ids"
  by (simp add: build_demo_seat_rows_def iter_demo_seat_ids_def map_concat comp_def Let_def)

lemma demo_rows_event: "s \<in> set (build_demo_seat_rows t) \<Longrightarrow> st_event_id s = DEMO_EVENT_ID"
  by (auto simp: build_demo_seat_rows_def Let_def)

lemma rows_sorted:
  fixes floor :: ustr
  assumes "sorted_wrt (<) rows"
  shows "sorted (concat (map (\<lambda>row :: ustr. map (\<lambda>n. (floor, row, int n)) [a..<b]) rows))"
  using assms
proof (induction rows)
  case (Cons row rows)
  have "sorted (map (\<lambda>n. (floor, row, int n)) [a..<b])"
    by (rule sorted_map_mono [of "[a..<b]", simplified]) (auto intro!: monoI simp: mono_on_def)
  then show ?case using Cons by (auto simp: sorted_append)
qed simp

lemma demo_order_sorted: "sorted demo_order"
  unfolding demo_order_def by (rule rows_sorted) (simp add: DEMO_ROW_LABELS_def lit_def)

lemma demo_ids_product:
  "iter_demo_seat_ids = map (\<lambda>(row, n). row @ nat_str n) (List.product DEMO_ROW_LABELS [1..<DEMO_SEATS_PER_ROW + 1])"
  by (simp add: iter_demo_seat_ids_def product_concat_map map_concat comp_def)

lemma inj_nat_str: "inj nat_str"
  by (rule injI) (metis nat_str_value)

lemma demo_ids_distinct: "distinct iter_demo_seat_ids"
proof -
  have "length row = 1" if "row \<in> set DEMO_ROW_LABELS" for row
    using that by (auto simp: DEMO_ROW_LABELS_def lit_def)
  then have "inj_on (\<lambda>(row, n). row @ nat_str n) (set DEMO_ROW_LABELS \<times> set [1..<DEMO_SEATS_PER_ROW + 1])"
    using inj_nat_str by (auto intro!: inj_onI dest: injD)
  moreover have "distinct DEMO_ROW_LABELS" by (simp add: DEMO_ROW_LABELS_def lit_def)
  ultimately show ?thesis
    unfolding demo_ids_product by (simp only: distinct_map distinct_product product_lists_set set_product distinct_upt simp_thms)
qed

lemma demo_ids_count: "length iter_demo_seat_ids = 66"
  by (simp add: demo_ids_product DEMO_ROW_LABELS_def DEMO_SEATS_PER_ROW_def)

subsection \<open>The catalogue\<close>

text \<open>Every seat belongs to a known event, and events and seats have distinct keys.\<close>

definition catalogue_ok :: "TicketingDb \<Rightarrow> bool" where
  "catalogue_ok db \<longleftrightarrow>
     distinct (map ev_id (events db)) \<and> distinct (map (\<lambda>s. (st_event_id s, st_seat_id s)) (seats db)) \<and>
     (\<forall>s\<in>set (seats db). get_event (st_event_id s) db \<noteq> None)"

lemma get_event_None: "get_event e db = None \<longleftrightarrow> e \<notin> ev_id ` set (events db)"
  by (auto simp: get_event_def find_None_iff)

lemma get_seat_None: "get_seat e s db = None \<longleftrightarrow> (e, s) \<notin> (\<lambda>x. (st_event_id x, st_seat_id x)) ` set (seats db)"
  by (auto simp: get_seat_def find_None_iff)

lemma get_user_None: "get_user u db = None \<longleftrightarrow> u \<notin> usr_id ` set (users db)"
  by (auto simp: get_user_def find_None_iff)

lemma delete_event_rows:
  assumes "db_inv db" and "\<And>s. s \<in> set (seats db) \<Longrightarrow> st_event_id s = e \<Longrightarrow> get_event e db \<noteq> None"
  shows "seats (delete_event e db) = filter (\<lambda>s. st_event_id s \<noteq> e) (seats db)"
    and "reservations (delete_event e db) = filter (\<lambda>r. res_event_id r \<noteq> e) (reservations db)"
    and "payments (delete_event e db) =
         filter (\<lambda>p. \<not> (\<exists>r\<in>set (reservations db). res_event_id r = e \<and> res_id r = pay_reservation_id p)) (payments db)"
    and "events (delete_event e db) = filter (\<lambda>r. ev_id r \<noteq> e) (events db)"
    and "users (delete_event e db) = users db"
proof -
  let ?gone = "if get_event e db = None then [] else filter (\<lambda>s. st_event_id s = e) (seats db)"
  have gone: "set ?gone = {s \<in> set (seats db). st_event_id s = e}"
    using assms(2) by (cases "get_event e db = None") auto
  have res: "list_ex (\<lambda>s. st_event_id s = res_event_id r \<and> st_seat_id s = res_seat_id r) ?gone \<longleftrightarrow> res_event_id r = e"
    if "r \<in> set (reservations db)" for r
  proof -
    have "get_seat (res_event_id r) (res_seat_id r) db \<noteq> None"
      using assms(1) that by (simp add: db_inv_def row_refs_def)
    then have "(res_event_id r, res_seat_id r) \<in> (\<lambda>x. (st_event_id x, st_seat_id x)) ` set (seats db)"
      unfolding get_seat_None by blast
    then show ?thesis unfolding list_ex_iff gone by auto
  qed
  show "seats (delete_event e db) = filter (\<lambda>s. st_event_id s \<noteq> e) (seats db)"
    using gone by (simp add: delete_event_def Let_def cong: filter_cong)
  show "reservations (delete_event e db) = filter (\<lambda>r. res_event_id r \<noteq> e) (reservations db)"
    using res by (simp add: delete_event_def Let_def cong: filter_cong)
  show "payments (delete_event e db) =
      filter (\<lambda>p. \<not> (\<exists>r\<in>set (reservations db). res_event_id r = e \<and> res_id r = pay_reservation_id p)) (payments db)"
  proof -
    have "list_ex (\<lambda>r. res_id r = pay_reservation_id p)
        (filter (\<lambda>r. list_ex (\<lambda>s. st_event_id s = res_event_id r \<and> st_seat_id s = res_seat_id r) ?gone) (reservations db)) \<longleftrightarrow>
      (\<exists>r\<in>set (reservations db). res_event_id r = e \<and> res_id r = pay_reservation_id p)" for p :: PaymentRow
      using res unfolding list_ex_iff [of "\<lambda>r. res_id r = pay_reservation_id p"] set_filter by blast
    then show ?thesis by (simp add: delete_event_def Let_def split del: if_split)
  qed
qed (simp_all add: delete_event_def Let_def)

lemma payments_of_kept:
  assumes "payments_ok ps rs" and "distinct (map res_id rs)"
  shows "payments_ok (filter (\<lambda>p. \<not> (\<exists>r\<in>set rs. \<not> P r \<and> res_id r = pay_reservation_id p)) ps) (filter P rs)"
proof -
  have "pay_reservation_id p \<in> res_id ` set (filter P rs)"
    if "p \<in> set ps" "\<not> (\<exists>r\<in>set rs. \<not> P r \<and> res_id r = pay_reservation_id p)" for p
  proof -
    have "pay_reservation_id p \<in> res_id ` set rs"
      using assms(1) that(1) unfolding payments_ok_def by blast
    then obtain r where "r \<in> set rs" "pay_reservation_id p = res_id r" by (rule imageE)
    then show ?thesis using that(2) by (intro image_eqI [of _ _ r]) auto
  qed
  then show ?thesis using assms(1) by (auto simp: payments_ok_def distinct_map_filter)
qed

text \<open>A deletion that finds no event does nothing.\<close>

lemma delete_no_event:
  assumes "get_event e db = None"
  shows "delete_event e db = db"
proof -
  have "filter (\<lambda>r. ev_id r \<noteq> e) (events db) = events db"
    using assms by (auto simp: get_event_None filter_id_conv)
  then show ?thesis using assms by (simp add: delete_event_def Let_def)
qed

lemma delete_some_event_inv:
  assumes "db_inv db" and "get_event e db \<noteq> None"
  shows "db_inv (delete_event e db)"
proof (rule db_invI)
  note rows = delete_event_rows [OF assms(1), of e, OF assms(2)]
  note inv = assms(1) [unfolded db_inv_def]
  let ?P = "\<lambda>r. res_event_id r \<noteq> e"
  have sub: "set (reservations (delete_event e db)) \<subseteq> set (reservations db)" by (auto simp: rows)
  show "distinct (map res_id (reservations (delete_event e db)))"
    using inv by (simp add: rows distinct_map_filter)
  show "tokens_ok (reservations (delete_event e db))"
    using inv sub unfolding tokens_ok_def by blast
  show "confirmed_unique (reservations (delete_event e db))"
    using inv sub unfolding confirmed_unique_def by blast
  show "payments_ok (payments (delete_event e db)) (reservations (delete_event e db))"
    using payments_of_kept [of "payments db" "reservations db" ?P] inv by (simp add: rows)
  fix r assume "r \<in> set (reservations (delete_event e db))"
  then have r: "r \<in> set (reservations db)" "res_event_id r \<noteq> e" by (auto simp: rows)
  have refs: "row_refs db r" and paid: "row_paid (payments db) r" using inv r(1) by blast+
  show "row_refs (delete_event e db) r"
    using refs r(2) unfolding row_refs_def get_seat_None get_user_None by (auto simp: rows)
  have kept: "\<not> (\<exists>x\<in>set (reservations db). res_event_id x = e \<and> res_id x = res_id r)"
    using same_id_same_row [of "reservations db" _ r] inv r by blast
  show "row_paid (payments (delete_event e db)) r"
    unfolding row_paid_def
  proof (intro conjI impI)
    assume "res_status r = CONFIRMED"
    then show "res_confirmed_at r \<noteq> None" using paid by (simp add: row_paid_def)
    show "\<exists>p\<in>set (payments (delete_event e db)). pay_reservation_id p = res_id r \<and> pay_status p = SUCCEEDED"
      using paid \<open>res_status r = CONFIRMED\<close> kept by (auto simp: row_paid_def rows)
  next
    assume "res_status r = HELD"
    then show "res_id r \<notin> pay_reservation_id ` set (payments (delete_event e db))"
      using paid by (auto simp: row_paid_def rows)
  qed
qed

lemma delete_event_inv: "db_inv db \<Longrightarrow> db_inv (delete_event e db)"
  using delete_some_event_inv delete_no_event by (cases "get_event e db = None") auto

lemma delete_event_others:
  assumes "db_inv db" and "r \<in> set (reservations db)" and "res_event_id r \<noteq> e"
  shows "r \<in> set (reservations (delete_event e db))"
proof (cases "get_event e db = None")
  case False
  then show ?thesis using delete_event_rows(2) [OF assms(1), of e] assms(2,3) by simp
qed (simp add: delete_no_event assms(2))

text \<open>In a catalogue every seat has its event.\<close>

lemma catalogue_seat: "catalogue_ok db \<Longrightarrow> s \<in> set (seats db) \<Longrightarrow> st_event_id s = e \<Longrightarrow> get_event e db \<noteq> None"
  by (auto simp: catalogue_ok_def)

text \<open>Adding rows to the catalogue.\<close>

lemma insert_seats_rows: "insert_seats ss db = Inr db' \<Longrightarrow> db' = db\<lparr>seats := seats db @ ss\<rparr>"
proof (induction ss arbitrary: db)
  case (Cons s ss)
  then have "insert_seats ss (db\<lparr>seats := seats db @ [s]\<rparr>) = Inr db'" by (auto split: if_splits)
  from Cons.IH [OF this] show ?case by simp
qed simp

lemma insert_seats_all:
  assumes "distinct (map (\<lambda>s. (st_event_id s, st_seat_id s)) ss)"
    and "\<And>s. s \<in> set ss \<Longrightarrow> get_seat (st_event_id s) (st_seat_id s) db = None \<and> get_event (st_event_id s) db \<noteq> None"
  shows "insert_seats ss db = Inr (db\<lparr>seats := seats db @ ss\<rparr>)"
  using assms
proof (induction ss arbitrary: db)
  case (Cons s ss)
  have "insert_seats ss (db\<lparr>seats := seats db @ [s]\<rparr>) =
      Inr (db\<lparr>seats := seats db @ [s]\<rparr>\<lparr>seats := seats (db\<lparr>seats := seats db @ [s]\<rparr>) @ ss\<rparr>)"
  proof (rule Cons(1))
    show "distinct (map (\<lambda>s. (st_event_id s, st_seat_id s)) ss)" using Cons(2) by simp
    fix x assume x: "x \<in> set ss"
    have "(st_event_id x, st_seat_id x) \<noteq> (st_event_id s, st_seat_id s)"
      using Cons(2) x by (auto simp: image_iff)
    then show "get_seat (st_event_id x) (st_seat_id x) (db\<lparr>seats := seats db @ [s]\<rparr>) = None \<and>
        get_event (st_event_id x) (db\<lparr>seats := seats db @ [s]\<rparr>) \<noteq> None"
      using Cons(3) [of x] x by (auto simp: get_seat_def get_event_def find_append)
  qed
  then show ?case using Cons(3) [of s] by simp
qed simp

lemma create_user_rows [simp]:
  "reservations (snd (create_user u name email t db)) = reservations db"
  "payments (snd (create_user u name email t db)) = payments db"
  "seats (snd (create_user u name email t db)) = seats db"
  "events (snd (create_user u name email t db)) = events db"
  by (simp_all add: create_user_def Let_def)

lemma seed_users_rows [simp]:
  "reservations (seed_users t db) = reservations db" "payments (seed_users t db) = payments db"
  "seats (seed_users t db) = seats db" "events (seed_users t db) = events db"
  by (simp_all add: seed_users_def)

lemma seed_users_inv: "db_inv db \<Longrightarrow> db_inv (seed_users t db)"
  by (simp add: seed_users_def create_user_inv)

lemma more_seats_inv:
  assumes "db_inv db"
  shows "db_inv (db\<lparr>seats := seats db @ ss\<rparr>)"
proof -
  have "row_refs db r \<Longrightarrow> row_refs (db\<lparr>seats := seats db @ ss\<rparr>) r" for r
    by (auto simp: row_refs_def get_seat_def get_user_def find_append split: option.splits)
  then show ?thesis using assms by (simp add: db_inv_def)
qed

lemma more_events_inv: "db_inv db \<Longrightarrow> db_inv (db\<lparr>events := es\<rparr>)"
  by (simp add: db_inv_def row_refs_def get_seat_def get_user_def)

lemma demo_rows_distinct: "distinct (map (\<lambda>s. (st_event_id s, st_seat_id s)) (build_demo_seat_rows t))"
proof -
  have "map (\<lambda>s. (st_event_id s, st_seat_id s)) (build_demo_seat_rows t) =
      map (Pair DEMO_EVENT_ID) (map st_seat_id (build_demo_seat_rows t))"
    using demo_rows_event by simp
  then show ?thesis by (simp add: demo_rows_ids demo_ids_distinct distinct_map inj_on_def del: map_map)
qed

text \<open>The database after seeding.\<close>

definition seeded :: "ustr \<Rightarrow> TicketingDb \<Rightarrow> TicketingDb" where
  "seeded t db =
     (let db1 = delete_event DEMO_EVENT_ID db;
          db2 = seed_users t (db1\<lparr>events := events db1 @ [demo_event t]\<rparr>)
      in db2\<lparr>seats := seats db2 @ build_demo_seat_rows t\<rparr>)"

lemma seed_demo_data_seeds:
  assumes "db_inv db" and "catalogue_ok db"
  shows "seed_demo_data t db = (None, seeded t db)"
proof -
  note rows = delete_event_rows [OF assms(1), of DEMO_EVENT_ID, OF catalogue_seat [OF assms(2)]]
  let ?db1 = "delete_event DEMO_EVENT_ID db"
  let ?db2 = "seed_users t (?db1\<lparr>events := events ?db1 @ [demo_event t]\<rparr>)"
  have "insert_event (demo_event t) ?db1 = Inr (?db1\<lparr>events := events ?db1 @ [demo_event t]\<rparr>)"
    by (auto simp: insert_event_def get_event_None rows demo_event_def)
  moreover have "insert_seats (build_demo_seat_rows t) ?db2 = Inr (?db2\<lparr>seats := seats ?db2 @ build_demo_seat_rows t\<rparr>)"
    by (rule insert_seats_all [OF demo_rows_distinct])
      (auto simp: demo_rows_event get_seat_None get_event_None rows demo_event_def simp flip: not_None_eq)
  ultimately show ?thesis by (simp add: seed_demo_data_def seeded_def Let_def)
qed

lemma seeded_inv: "db_inv db \<Longrightarrow> db_inv (seeded t db)"
  unfolding seeded_def Let_def
  by (intro more_seats_inv seed_users_inv more_events_inv delete_event_inv)

text \<open>Seeding either succeeds so or is rolled back, also on a catalogue that is not in order.\<close>

lemma seed_demo_data_cases: "snd (seed_demo_data t db) = seeded t db \<or> snd (seed_demo_data t db) = db"
  by (auto simp: seed_demo_data_def seeded_def insert_event_def Let_def dest: insert_seats_rows split: sum.split)

lemma seed_demo_data_inv: "db_inv db \<Longrightarrow> db_inv (snd (seed_demo_data t db))"
  using seed_demo_data_cases [of t db] seeded_inv by auto

lemma seed_demo_data_others:
  assumes "db_inv db" and "r \<in> set (reservations db)" and "res_event_id r \<noteq> DEMO_EVENT_ID"
  shows "r \<in> set (reservations (snd (seed_demo_data t db)))"
  using seed_demo_data_cases [of t db] delete_event_others [OF assms] assms(2) by (auto simp: seeded_def Let_def)

lemma seeded_rows:
  assumes "db_inv db" and "catalogue_ok db"
  shows "seats (seeded t db) = filter (\<lambda>s. st_event_id s \<noteq> DEMO_EVENT_ID) (seats db) @ build_demo_seat_rows t"
    and "reservations (seeded t db) = filter (\<lambda>r. res_event_id r \<noteq> DEMO_EVENT_ID) (reservations db)"
    and "events (seeded t db) = filter (\<lambda>r. ev_id r \<noteq> DEMO_EVENT_ID) (events db) @ [demo_event t]"
  by (simp_all add: seeded_def Let_def delete_event_rows [OF assms(1), of DEMO_EVENT_ID, OF catalogue_seat [OF assms(2)]])

lemma seeded_catalogue:
  assumes "db_inv db" and "catalogue_ok db"
  shows "catalogue_ok (seeded t db)"
  unfolding catalogue_ok_def
proof (intro conjI ballI)
  note cat = assms(2) [unfolded catalogue_ok_def]
  show "distinct (map ev_id (events (seeded t db)))"
    using cat by (auto simp: seeded_rows [OF assms] distinct_map_filter demo_event_def)
  show "distinct (map (\<lambda>s. (st_event_id s, st_seat_id s)) (seats (seeded t db)))"
    using cat demo_rows_distinct by (auto simp: seeded_rows [OF assms] distinct_map_filter demo_rows_event)
  fix s assume "s \<in> set (seats (seeded t db))"
  then show "get_event (st_event_id s) (seeded t db) \<noteq> None"
    using cat by (auto simp: seeded_rows [OF assms] demo_rows_event get_event_None demo_event_def simp flip: not_None_eq)
qed

lemma seeded_seats:
  assumes "db_inv db" and "catalogue_ok db"
  shows "list_seats DEMO_EVENT_ID (seeded t db) = map (\<lambda>s. (s, False)) (build_demo_seat_rows t)"
proof -
  have "filter (\<lambda>s. st_event_id s = DEMO_EVENT_ID) (seats (seeded t db)) = build_demo_seat_rows t"
    using demo_rows_event by (auto simp: seeded_rows [OF assms] filter_empty_conv filter_id_conv)
  moreover have "sort_key seat_order (build_demo_seat_rows t) = build_demo_seat_rows t"
    by (rule sort_key_id_if_sorted) (simp add: demo_rows_order demo_order_sorted)
  moreover have "\<not> list_ex (confirmed_for (st_event_id s) (st_seat_id s)) (reservations (seeded t db))"
    if "s \<in> set (build_demo_seat_rows t)" for s
    using that by (auto simp: seeded_rows [OF assms] demo_rows_event list_ex_iff confirmed_for_def)
  ultimately show ?thesis by (simp add: list_seats_def flip: seat_order_def)
qed

subsection \<open>Opening and seeding the database file\<close>

text \<open>
  The file is absent or holds tables; \<open>initialize\<close> creates the tables that are missing, which the
  service does at its start. The seeding script deletes the file first.
\<close>

definition database_initialize :: "TicketingDb option \<Rightarrow> TicketingDb" where
  "database_initialize file = (case file of None \<Rightarrow> empty_db | Some db \<Rightarrow> db)"

definition seed_demo_file :: "ustr \<Rightarrow> TicketingDb option \<Rightarrow> db_error option \<times> TicketingDb" where
  "seed_demo_file created_at old = (let file = None in seed_demo_data created_at (database_initialize file))"

end
