(* ===== verification/Ticketing_Calls.thy ===== *)
theory Ticketing_Calls
  imports Ticketing_Seed
begin

section \<open>Any sequence of calls of the database service\<close>

text \<open>
  All calls of \<open>TicketingService\<close> that may write rows, with their readings of the clock. A call is
  one step: its statements run on connections of their own, so that two calls that overlap could
  interleave them, which is not modelled.
\<close>

datatype svc_call =
    SeedDemoData ustr
  | ListEventSeats ustr ustr
  | CreateHeld ustr ustr ustr HeldReservationCreate
  | Confirm ustr ustr ustr ConfirmReservationRequest
  | Cancel ustr ustr ustr CancelReservationRequest
  | Expire ustr ustr ustr
  | ListUserReservations ustr ustr
  | ListConfirmedSeats ustr ustr
  | ExpireStale ustr "nat \<Rightarrow> ustr \<times> ustr" int

fun svc_step :: "svc_call \<Rightarrow> TicketingDb \<Rightarrow> TicketingDb" where
  "svc_step (SeedDemoData t) db = snd (seed_demo_data t db)"
| "svc_step (ListEventSeats now e) db = snd (list_event_seats now e db)"
| "svc_step (CreateHeld now1 now2 now3 req) db = snd (svc_create_held now1 now2 now3 req db)"
| "svc_step (Confirm now1 now2 i req) db = snd (svc_confirm now1 now2 i req db)"
| "svc_step (Cancel now1 now2 i req) db = snd (svc_cancel now1 now2 i req db)"
| "svc_step (Expire now1 now2 i) db = snd (svc_expire now1 now2 i db)"
| "svc_step (ListUserReservations now u) db = snd (svc_list_user_reservations now u db)"
| "svc_step (ListConfirmedSeats now e) db = snd (svc_list_confirmed_seats now e db)"
| "svc_step (ExpireStale now ts limit) db = snd (svc_expire_stale_reservations now ts limit db)"

lemma list_calls_expire:
  "snd (list_event_seats now e db) = svc_expire_stale now db"
  "snd (svc_list_user_reservations now u db) = svc_expire_stale now db"
  "snd (svc_list_confirmed_seats now e db) = svc_expire_stale now db"
  by (simp_all add: list_event_seats_def svc_list_user_reservations_def svc_list_confirmed_seats_def Let_def
      split: sum.split)

lemma svc_step_inv: "db_inv db \<Longrightarrow> db_inv (svc_step c db)"
  by (cases c)
    (simp_all add: list_calls_expire seed_demo_data_inv expire_stale_inv svc_create_held_inv svc_confirm_inv
      svc_cancel_inv svc_expire_inv expire_each_inv svc_expire_stale_reservations_def)

interpretation svc_run: preserved svc_step db_inv
  by unfold_locales (rule svc_step_inv)

end
