(* ===== verification/Ticketing_Laws.thy ===== *)
theory Ticketing_Laws
  imports Ticketing_Calls
begin

section \<open>How reservations change\<close>

text \<open>
  What the workflows do to single rows: a row is never removed and never changes its keys, a
  row that has left the held state never changes again, and the outcome of each workflow in
  terms of the row under its identifier.
\<close>

subsection \<open>Rows under an identifier\<close>

lemma find_map_id:
  assumes "\<And>r. res_id (f r) = res_id r"
  shows "find (\<lambda>r. res_id r = i) (map f rs) = map_option f (find (\<lambda>r. res_id r = i) rs)"
  using assms by (induction rs) simp_all

lemma find_update:
  assumes "\<And>r. res_id (f r) = res_id r"
  shows "find_reservation i (update_reservation j f db) =
         map_option (\<lambda>r. if i = j then f r else r) (find_reservation i db)"
proof -
  have "find_reservation i (update_reservation j f db) =
        map_option (\<lambda>r. if res_id r = j then f r else r) (find_reservation i db)"
    using find_map_id [of "\<lambda>r. if res_id r = j then f r else r" i "reservations db"] assms
    by (simp add: find_reservation_def update_reservation_def)
  then show ?thesis
    using find_reservation_Some [of i db] by (cases "find_reservation i db") auto
qed

lemma find_expire_stale:
  "find_reservation i (svc_expire_stale now db) =
     map_option (\<lambda>r. if is_stale now r then expire_row now r else r) (find_reservation i db)"
  using find_map_id [of "\<lambda>r. if is_stale now r then expire_row now r else r" i "reservations db"]
  by (simp add: svc_expire_stale_def repo_expire_stale_def find_reservation_def expire_row_def)

lemma payments_expire_stale [simp]: "payments (svc_expire_stale now db) = payments db"
  by (simp add: svc_expire_stale_def repo_expire_stale_def)

lemma payments_update_reservation [simp]: "payments (update_reservation i f db) = payments db"
  by (simp add: update_reservation_def)

lemma reservations_expire_stale:
  "reservations (svc_expire_stale now db) =
     map (\<lambda>r. if is_stale now r then expire_row now r else r) (reservations db)"
  by (simp add: svc_expire_stale_def repo_expire_stale_def)

lemma payment_update [simp]: "with_payment (update_reservation i f db) r = with_payment db r"
  by (simp add: with_payment_def update_reservation_def)

lemma payment_expire_stale [simp]: "with_payment (svc_expire_stale now db) r = with_payment db r"
  by (simp add: with_payment_def)

lemma find_member:
  assumes "distinct (map res_id (reservations db))" and "r \<in> set (reservations db)"
  shows "find_reservation (res_id r) db = Some r"
proof -
  obtain x where x: "find_reservation (res_id r) db = Some x"
    using assms(2) find_reservation_None [of "res_id r" db] by (cases "find_reservation (res_id r) db") auto
  then show ?thesis
    using same_id_same_row [OF assms(1), of x r] find_reservation_Some [OF x] assms(2) by simp
qed

subsection \<open>Rows that persist\<close>

text \<open>
  From \<open>db\<close> to \<open>db'\<close> every reservation is kept under its keys, its hold and its
  creation time, and one that is not held is kept as it is.
\<close>

definition row_follows :: "ReservationRow \<Rightarrow> ReservationRow \<Rightarrow> bool" where
  "row_follows r r' \<longleftrightarrow>
     row_key r' = row_key r \<and> res_expires_at r' = res_expires_at r \<and> res_created_at r' = res_created_at r \<and>
     (r' = r \<or> (res_status r = HELD \<and> res_status r' \<noteq> HELD))"

definition rows_follow :: "TicketingDb \<Rightarrow> TicketingDb \<Rightarrow> bool" where
  "rows_follow db db' \<longleftrightarrow> (\<forall>r\<in>set (reservations db). \<exists>r'\<in>set (reservations db'). row_follows r r')"

lemma row_follows_refl [simp]: "row_follows r r"
  by (simp add: row_follows_def)

lemma row_follows_trans: "row_follows a b \<Longrightarrow> row_follows b c \<Longrightarrow> row_follows a c"
  by (auto simp: row_follows_def)

lemma rows_follow_refl [simp]: "rows_follow db db"
  unfolding rows_follow_def using row_follows_refl by blast

lemma rows_follow_trans: "rows_follow a b \<Longrightarrow> rows_follow b c \<Longrightarrow> rows_follow a c"
  unfolding rows_follow_def by (meson row_follows_trans)

lemma rows_follow_map:
  assumes "\<And>r. r \<in> set (reservations db) \<Longrightarrow> row_follows r (f r)"
    and "reservations db' = map f (reservations db)"
  shows "rows_follow db db'"
  using assms by (auto simp: rows_follow_def)

lemma rows_follow_expire_stale [simp]: "rows_follow db (svc_expire_stale now db)"
  by (rule rows_follow_map [OF _ reservations_expire_stale])
    (simp add: row_follows_def row_key_def expire_row_def is_stale_def)

lemma rows_follow_update:
  assumes "db_inv db" and "find_reservation i db = Some r" and "row_follows r (f r)"
    and "reservations db' = map (\<lambda>r. if res_id r = i then f r else r) (reservations db)"
  shows "rows_follow db db'"
proof (rule rows_follow_map [OF _ assms(4)])
  fix x assume x: "x \<in> set (reservations db)"
  have "x = r" if "res_id x = i"
    using find_member [of db x] assms(1,2) x that by (simp add: db_inv_def)
  then show "row_follows x (if res_id x = i then f x else x)" using assms(3) by auto
qed

lemma rows_follow_users [simp]: "rows_follow db (snd (ensure_user now u db))"
proof -
  have "reservations (snd (ensure_user now u db)) = reservations db"
    by (simp add: ensure_user_def create_user_def Let_def split: option.split)
  then show ?thesis using rows_follow_map [of db id "snd (ensure_user now u db)"] by simp
qed

lemma rows_follow_create: "rows_follow db (snd (repo_create_held i e s u token expires_at now db))"
  by (auto simp: repo_create_held_def insert_reservation_def rows_follow_def intro: row_follows_refl)

lemma rows_follow_confirm:
  assumes "db_inv db" and "find_reservation i db = Some r" and "res_status r = HELD"
  shows "rows_follow db (snd (repo_confirm i payment amount provider ref now db))"
proof -
  have "rows_follow db db2"
    if "upsert_payment p db = Inr db1" "set_confirmed i now db1 = Inr db2"
      "pay_reservation_id p = i" "pay_status p = SUCCEEDED" for p db1 db2
    by (rule rows_follow_update [OF assms(1,2), of "confirm_row now"])
      (simp_all add: confirm_inv(1) [OF assms that(3,4,1,2)] row_follows_def row_key_def confirm_row_def assms(3))
  then show ?thesis by (auto simp: repo_confirm_def split: sum.split)
qed

lemma rows_follow_cancel:
  assumes "db_inv db" and "find_reservation i db = Some r" and "res_status r = HELD"
  shows "rows_follow db (snd (repo_cancel i now payload db))"
proof -
  have "rows_follow db (update_reservation i (cancel_row now) db1)" if "reservations db1 = reservations db" for db1
    by (rule rows_follow_update [OF assms(1,2), of "cancel_row now"])
      (simp_all add: update_reservation_def that row_follows_def row_key_def cancel_row_def assms(3))
  moreover have "reservations db1 = reservations db" if "upsert_payment p db = Inr db1" for p db1
    using that by (auto simp: upsert_payment_def split: if_splits)
  ultimately show ?thesis by (auto simp: repo_cancel_def Let_def split: sum.split option.split)
qed

lemma rows_follow_expire:
  assumes "db_inv db" and "find_reservation i db = Some r" and "res_status r = HELD"
  shows "rows_follow db (snd (repo_expire i now db))"
  by (rule rows_follow_update [OF assms(1,2), of "expire_row now"])
    (simp_all add: repo_expire_def Let_def update_reservation_def row_follows_def row_key_def expire_row_def assms(3))

text \<open>The workflows: first the stale rows are expired, then one row changes.\<close>

lemma svc_create_held_follow: "rows_follow db (snd (svc_create_held now1 now2 now3 req db))"
proof -
  let ?db1 = "svc_expire_stale now1 db"
  have 2: "rows_follow db db2" if "ensure_user now2 u ?db1 = (x, db2)" for x u db2
    using rows_follow_trans [OF rows_follow_expire_stale rows_follow_users [of ?db1 now2 u]] that by simp
  have 3: "rows_follow db db3" if "ensure_user now2 u ?db1 = (x, db2)"
    "repo_create_held i e s u token expires_at now3 db2 = (y, db3)" for x y u i e s token expires_at db2 db3
    using rows_follow_trans [OF 2 [OF that(1)] rows_follow_create [of db2 i e s u token expires_at now3]] that(2)
    by simp
  show ?thesis
    by (auto simp: svc_create_held_def Let_def 2 3 split: sum.split prod.split option.split)
qed

lemma after_expiry:
  assumes "db_inv db" and "require_reservation now i db = (Inr v, db1)" and "res_status (fst v) = HELD"
    and "\<And>r. db_inv db1 \<Longrightarrow> find_reservation i db1 = Some r \<Longrightarrow> res_status r = HELD \<Longrightarrow> rows_follow db1 db2"
  shows "rows_follow db db2"
proof -
  have db1: "db1 = svc_expire_stale now db" and v: "get_reservation i db1 = Some v"
    using assms(2) unfolding require_reservation_Inr by blast+
  have "rows_follow db1 db2"
    by (rule assms(4)) (use get_reservation_Some [OF v] db1 expire_stale_inv [OF assms(1)] assms(3) in auto)
  then show ?thesis using rows_follow_trans [OF rows_follow_expire_stale] db1 by simp
qed

lemma require_follow: "require_reservation now i db = (x, db1) \<Longrightarrow> rows_follow db db1"
  by (auto simp: require_reservation_def Let_def split: option.splits)

lemma svc_confirm_follow:
  assumes "db_inv db" shows "rows_follow db (snd (svc_confirm now1 now2 i req db))"
proof -
  have "rows_follow db db2"
    if "require_reservation now1 i db = (Inr v, db1)" "res_status (fst v) = HELD"
      "repo_confirm i a b c d now2 db1 = (x, db2)" for v a b c d x db1 db2
    by (rule after_expiry [OF assms that(1,2)])
      (use rows_follow_confirm [of db1 i _ a b c d now2] that(3) in simp)
  then show ?thesis
    by (auto simp: svc_confirm_def require_follow split: sum.split prod.split)
qed

lemma svc_cancel_follow:
  assumes "db_inv db" shows "rows_follow db (snd (svc_cancel now1 now2 i req db))"
proof -
  have "rows_follow db db2"
    if "require_reservation now1 i db = (Inr v, db1)" "res_status (fst v) = HELD"
      "repo_cancel i now2 payload db1 = (x, db2)" for v payload x db1 db2
    by (rule after_expiry [OF assms that(1,2)])
      (use rows_follow_cancel [of db1 i _ now2 payload] that(3) in simp)
  then show ?thesis
    by (auto simp: svc_cancel_def require_follow split: sum.split prod.split)
qed

lemma svc_expire_follow:
  assumes "db_inv db" shows "rows_follow db (snd (svc_expire now1 now2 i db))"
proof -
  have "rows_follow db db2"
    if "require_reservation now1 i db = (Inr v, db1)" "res_status (fst v) = HELD"
      "repo_expire i now2 db1 = (x, db2)" for v x db1 db2
    by (rule after_expiry [OF assms that(1,2)]) (use rows_follow_expire [of db1 i _ now2] that(3) in simp)
  then show ?thesis
    by (auto simp: svc_expire_def require_follow split: sum.split prod.split)
qed

lemma expire_each_follow: "db_inv db \<Longrightarrow> rows_follow db (snd (expire_each ts rs db))"
proof (induction rs arbitrary: ts db)
  case (Cons r rs)
  obtain x db1 where x: "svc_expire (fst (ts 0)) (snd (ts 0)) (res_id r) db = (x, db1)" by fastforce
  then have "rows_follow db db1" "db_inv db1"
    using svc_expire_follow [OF Cons(2), of "fst (ts 0)" "snd (ts 0)" "res_id r"]
      svc_expire_inv [OF Cons(2), of "fst (ts 0)" "snd (ts 0)" "res_id r"] by simp_all
  moreover from this have "rows_follow db (snd (expire_each (\<lambda>n. ts (Suc n)) rs db1))"
    using rows_follow_trans Cons(1) by blast
  ultimately show ?case
    using x by (auto split: sum.split prod.split svc_error.split)
qed simp

text \<open>
  Seeding the demo data deletes the reservations of the demo event; \<open>spares\<close> says that a call is
  no such deletion for a reservation.
\<close>

definition spares :: "ReservationRow \<Rightarrow> svc_call \<Rightarrow> bool" where
  "spares r c \<longleftrightarrow> res_event_id r \<noteq> DEMO_EVENT_ID \<or> (\<forall>t. c \<noteq> SeedDemoData t)"

lemma svc_step_follow:
  assumes "db_inv db" and "r \<in> set (reservations db)" and "spares r c"
  shows "\<exists>r'\<in>set (reservations (svc_step c db)). row_follows r r'"
proof (cases "\<exists>t. c = SeedDemoData t")
  case True
  then have "r \<in> set (reservations (svc_step c db))"
    using assms seed_demo_data_others by (auto simp: spares_def)
  then show ?thesis using row_follows_refl by blast
next
  case False
  then have "rows_follow db (svc_step c db)"
    by (cases c)
      (simp_all add: list_calls_expire svc_create_held_follow svc_confirm_follow [OF assms(1)]
        svc_cancel_follow [OF assms(1)] svc_expire_follow [OF assms(1)] expire_each_follow [OF assms(1)]
        svc_expire_stale_reservations_def)
  then show ?thesis using assms(2) by (simp add: rows_follow_def)
qed

lemma svc_calls_follow:
  assumes "db_inv db" and "r \<in> set (reservations db)" and "\<forall>c\<in>set cs. spares r c"
  shows "\<exists>r'\<in>set (reservations (fold svc_step cs db)). row_follows r r'"
  using assms
proof (induction cs arbitrary: db r)
  case (Cons c cs)
  obtain r1 where r1: "r1 \<in> set (reservations (svc_step c db))" "row_follows r r1"
    using svc_step_follow [OF Cons.prems(1,2)] Cons.prems(3) by auto
  then have "\<forall>c\<in>set cs. spares r1 c"
    using Cons.prems(3) by (auto simp: spares_def row_follows_def row_key_def)
  then obtain r' where "r' \<in> set (reservations (fold svc_step (c # cs) db))" "row_follows r1 r'"
    using Cons.IH [OF svc_step_inv [OF Cons.prems(1)] r1(1)] by auto
  then show ?case using row_follows_trans [OF r1(2)] by blast
next
  case Nil
  then have "r \<in> set (reservations (fold svc_step [] db))" by simp
  then show ?case using row_follows_refl by blast
qed

subsection \<open>Outcomes\<close>

text \<open>A row as the next call finds it: expired when its hold has run out.\<close>

definition aged :: "ustr \<Rightarrow> ReservationRow \<Rightarrow> ReservationRow" where
  "aged now r = (if is_stale now r then expire_row now r else r)"

lemma get_aged:
  "get_reservation i (svc_expire_stale now db) = map_option (with_payment db \<circ> aged now) (find_reservation i db)"
  by (simp add: get_reservation_def find_expire_stale aged_def [abs_def] option.map_comp comp_def)

lemma aged_settled [simp]: "res_status r \<noteq> HELD \<Longrightarrow> aged now r = r"
  by (simp add: aged_def is_stale_def)

lemma require_found:
  "find_reservation i db = Some r \<Longrightarrow>
     require_reservation now i db = (Inr (with_payment db (aged now r)), svc_expire_stale now db)"
  by (simp add: require_reservation_def Let_def get_aged)

lemma fst_with_payment [simp]: "fst (with_payment db r) = r"
  by (simp add: with_payment_def)

lemma confirmed_expire_stale [simp]:
  "has_confirmed_reservation e s (svc_expire_stale now db) = has_confirmed_reservation e s db"
  by (auto simp: has_confirmed_reservation_def reservations_expire_stale list_ex_iff confirmed_for_def
      expire_row_def is_stale_def split: if_splits)

lemma confirmed_payments [simp]:
  "has_confirmed_reservation e s (db\<lparr>payments := ps\<rparr>) = has_confirmed_reservation e s db"
  by (simp add: has_confirmed_reservation_def)

definition paid :: "ustr \<Rightarrow> ustr \<Rightarrow> ConfirmReservationRequest \<Rightarrow> PaymentRow" where
  "paid now i req =
     \<lparr>pay_id = cr_payment_id req, pay_reservation_id = i, pay_status = SUCCEEDED, pay_amount = cr_amount req,
      pay_provider = cr_provider req, pay_provider_ref = cr_provider_ref req, pay_created_at = now,
      pay_updated_at = now\<rparr>"

lemma upsert_new:
  assumes "find_reservation (pay_reservation_id p) db \<noteq> None"
    and "pay_reservation_id p \<notin> pay_reservation_id ` set (payments db)"
  shows "upsert_payment p db =
         (if pay_id p \<in> pay_id ` set (payments db) then Inl DbIntegrityError
          else Inr (db\<lparr>payments := payments db @ [p]\<rparr>))"
proof -
  have "list_ex (\<lambda>q. pay_id q = pay_id p \<and> pay_reservation_id q \<noteq> pay_reservation_id p) (payments db) \<longleftrightarrow>
        pay_id p \<in> pay_id ` set (payments db)"
    using assms(2) unfolding list_ex_iff image_iff by metis
  moreover have "\<not> list_ex (\<lambda>q. pay_reservation_id q = pay_reservation_id p) (payments db)"
    using assms(2) by (auto simp: list_ex_iff image_iff)
  ultimately show ?thesis using assms(1) by (auto simp: upsert_payment_def)
qed

lemma set_confirmed_held:
  assumes "distinct (map res_id (reservations db))" and "find_reservation i db = Some r"
    and "res_status r = HELD"
  shows "set_confirmed i now db =
         (if has_confirmed_reservation (res_event_id r) (res_seat_id r) db then Inl DbIntegrityError
          else Inr (update_reservation i (confirm_row now) db))"
proof -
  have "res_id x \<noteq> i" if "x \<in> set (reservations db)" "confirmed_for e s x" for x e s
    using find_member [OF assms(1) that(1)] assms(2,3) that(2) by (auto simp: confirmed_for_def)
  then have "list_ex (\<lambda>x. res_id x \<noteq> i \<and> confirmed_for (res_event_id r) (res_seat_id r) x) (reservations db) \<longleftrightarrow>
             has_confirmed_reservation (res_event_id r) (res_seat_id r) db"
    by (auto simp: has_confirmed_reservation_def list_ex_iff)
  then show ?thesis using assms(2) by (simp add: set_confirmed_def)
qed

lemma find_payment_new:
  assumes "pay_reservation_id p \<notin> pay_reservation_id ` set ps"
  shows "find (\<lambda>q. pay_reservation_id q = pay_reservation_id p) (ps @ [p]) = Some p"
  using assms by (induction ps) auto

lemma svc_confirm_held:
  assumes inv: "db_inv db" and r: "find_reservation i db = Some r" and held: "res_status r = HELD"
    and live: "\<not> is_stale now1 r"
  shows "svc_confirm now1 now2 i req db =
    (if has_confirmed_reservation (res_event_id r) (res_seat_id r) db \<or> cr_payment_id req \<in> pay_id ` set (payments db)
     then (Inl (SvcConflict (lit ''seat '' @ quote1 (res_seat_id r) @ lit '' for event '' @
             quote1 (res_event_id r) @ lit '' is already confirmed'')), svc_expire_stale now1 db)
     else (Inr (Some (confirm_row now2 r, Some (paid now2 i req))),
           (update_reservation i (confirm_row now2) (svc_expire_stale now1 db))
             \<lparr>payments := payments db @ [paid now2 i req]\<rparr>))"
proof -
  let ?db1 = "svc_expire_stale now1 db" and ?p = "paid now2 i req"
  let ?db2 = "?db1\<lparr>payments := payments db @ [?p]\<rparr>"
  have inv1: "db_inv ?db1" by (rule expire_stale_inv [OF inv])
  have r1: "find_reservation i ?db1 = Some r" using r live by (simp add: find_expire_stale)
  have p: "pay_reservation_id ?p = i" "pay_id ?p = cr_payment_id req" by (simp_all add: paid_def)
  have unpaid: "pay_reservation_id ?p \<notin> pay_reservation_id ` set (payments ?db1)"
    using held_unpaid [OF inv1 r1 held] p by simp
  have up: "upsert_payment ?p ?db1 =
      (if cr_payment_id req \<in> pay_id ` set (payments db) then Inl DbIntegrityError else Inr ?db2)"
    using upsert_new [of ?p ?db1] unpaid r1 p by simp
  have r2: "find_reservation i ?db2 = Some r" using r1 by (simp add: find_reservation_def)
  have set: "set_confirmed i now2 ?db2 =
      (if has_confirmed_reservation (res_event_id r) (res_seat_id r) db then Inl DbIntegrityError
       else Inr (update_reservation i (confirm_row now2) ?db2))"
    using set_confirmed_held [of ?db2 i r now2] inv1 r2 held
    by (simp add: db_inv_def)
  have get: "get_reservation i (update_reservation i (confirm_row now2) ?db2) =
      Some (confirm_row now2 r, Some ?p)"
    using find_payment_new [OF unpaid] find_reservation_Some [OF r] p
    by (simp add: get_reservation_def find_update r2 confirm_row_def with_payment_def)
  have "repo_confirm i (cr_payment_id req) (cr_amount req) (cr_provider req) (cr_provider_ref req) now2 ?db1 =
      (if has_confirmed_reservation (res_event_id r) (res_seat_id r) db \<or> cr_payment_id req \<in> pay_id ` set (payments db)
       then (Inl DbIntegrityError, ?db1)
       else (Inr (Some (confirm_row now2 r, Some ?p)), update_reservation i (confirm_row now2) ?db2))"
    using up set get by (simp add: repo_confirm_def paid_def [symmetric])
  moreover have "update_reservation i (confirm_row now2) ?db2 =
      (update_reservation i (confirm_row now2) ?db1)\<lparr>payments := payments db @ [?p]\<rparr>"
    by (simp add: update_reservation_def)
  ultimately show ?thesis
    using held live by (simp add: svc_confirm_def require_found [OF r] aged_def)
qed

text \<open>A call that fails has expired the stale rows and done nothing else.\<close>

lemma svc_confirm_error:
  "svc_confirm now1 now2 i req db = (Inl err, db') \<Longrightarrow> db' = svc_expire_stale now1 db"
  by (auto simp: svc_confirm_def repo_confirm_def require_reservation_Inr require_reservation_Inl
      split: sum.splits prod.splits if_splits)

lemma svc_cancel_error:
  "svc_cancel now1 now2 i req db = (Inl err, db') \<Longrightarrow> db' = svc_expire_stale now1 db"
  by (auto simp: svc_cancel_def repo_cancel_def Let_def require_reservation_Inr require_reservation_Inl
      split: sum.splits prod.splits if_splits)

lemma svc_expire_error:
  "svc_expire now1 now2 i db = (Inl err, db') \<Longrightarrow> db' = svc_expire_stale now1 db"
  by (auto simp: svc_expire_def repo_expire_def Let_def require_reservation_Inr require_reservation_Inl
      split: sum.splits prod.splits if_splits)

text \<open>The reservation a successful confirmation returns is stored, confirmed and paid as requested.\<close>

lemma svc_confirm_ok:
  assumes "db_inv db" and "svc_confirm now1 now2 i req db = (Inr v, db')"
  shows "\<exists>r p. v = Some (r, Some p) \<and> find_reservation i db' = Some r \<and> res_status r = CONFIRMED \<and>
           v = Some (with_payment db' r) \<and> confirm_request_matches (r, Some p) req"
proof -
  obtain r where r: "find_reservation i db = Some r"
    using assms(2) by (cases "find_reservation i db")
      (simp_all add: svc_confirm_def require_reservation_def get_aged Let_def)
  show ?thesis
  proof (cases "res_status r = HELD \<and> \<not> is_stale now1 r")
    case True
    then have free: "\<not> has_confirmed_reservation (res_event_id r) (res_seat_id r) db"
      "cr_payment_id req \<notin> pay_id ` set (payments db)"
      and v: "v = Some (confirm_row now2 r, Some (paid now2 i req))"
      and db': "db' = (update_reservation i (confirm_row now2) (svc_expire_stale now1 db))
             \<lparr>payments := payments db @ [paid now2 i req]\<rparr>"
      using assms(2) svc_confirm_held [OF assms(1) r, of now1 now2 req] by (auto split: if_splits)
    have "find_reservation i db' = Some (confirm_row now2 r)"
      using find_update [of "confirm_row now2" i i "svc_expire_stale now1 db"] True
      by (simp add: db' find_reservation_def [of i "db\<lparr>payments := ps\<rparr>" for db ps] confirm_row_def
          find_reservation_def [symmetric] find_expire_stale r)
    moreover have "with_payment db' (confirm_row now2 r) = (confirm_row now2 r, Some (paid now2 i req))"
      using find_payment_new [of "paid now2 i req" "payments db"] held_unpaid [OF assms(1) r] True
        find_reservation_Some [OF r]
      by (simp add: with_payment_def db' paid_def confirm_row_def)
    ultimately show ?thesis
      by (simp add: v confirm_request_matches_def paid_def) (simp add: confirm_row_def)
  next
    case False
    then have "res_status (aged now1 r) \<noteq> HELD" by (auto simp: aged_def expire_row_def is_stale_def)
    then have v: "v = Some (with_payment db (aged now1 r))" and c: "res_status (aged now1 r) = CONFIRMED"
      and m: "confirm_request_matches (with_payment db (aged now1 r)) req" and db': "db' = svc_expire_stale now1 db"
      using assms(2) by (auto simp: svc_confirm_def require_found [OF r] split: if_splits)
    have "find_reservation i db' = Some (aged now1 r)" by (simp add: db' find_expire_stale r aged_def)
    moreover obtain p where "with_payment db (aged now1 r) = (aged now1 r, Some p)"
      using m by (cases "with_payment db (aged now1 r)") (auto simp: confirm_request_matches_def with_payment_def split: option.splits)
    ultimately show ?thesis using c m by (simp add: v db')
  qed
qed

lemma svc_confirm_again:
  assumes "db_inv db" and "svc_confirm now1 now2 i req db = (Inr v, db1)"
  shows "svc_confirm now3 now4 i req db1 = (Inr v, svc_expire_stale now3 db1)"
proof -
  obtain r p where r: "v = Some (r, Some p)" "find_reservation i db1 = Some r" "res_status r = CONFIRMED"
    "v = Some (with_payment db1 r)" "confirm_request_matches (r, Some p) req"
    using svc_confirm_ok [OF assms] by blast
  then show ?thesis by (simp add: svc_confirm_def require_found [OF r(2)])
qed

text \<open>Creating a hold: the outcome for a new reservation identifier.\<close>

definition held_row :: "ustr \<Rightarrow> HeldReservationCreate \<Rightarrow> ReservationRow" where
  "held_row now req =
     \<lparr>res_id = hr_reservation_id req, res_event_id = hr_event_id req, res_seat_id = hr_seat_id req,
      res_user_id = hr_user_id req, res_status = HELD, res_hold_token = Some (hr_hold_token req),
      res_expires_at = Some (hr_expires_at req), res_created_at = now, res_updated_at = now,
      res_confirmed_at = None, res_cancelled_at = None\<rparr>"

lemma get_expire_stale [simp]:
  "get_event e (svc_expire_stale now db) = get_event e db"
  "get_user u (svc_expire_stale now db) = get_user u db"
  "get_seat e s (svc_expire_stale now db) = get_seat e s db"
  by (simp_all add: get_event_def get_user_def get_seat_def svc_expire_stale_def repo_expire_stale_def)

lemma list_ex_map: "list_ex P (map f xs) = list_ex (\<lambda>x. P (f x)) xs"
  by (induction xs) simp_all

lemma tokens_expire_stale:
  "list_ex (\<lambda>x. res_hold_token x = t) (reservations (svc_expire_stale now db)) =
   list_ex (\<lambda>x. res_hold_token x = t) (reservations db)"
  by (simp add: reservations_expire_stale list_ex_map if_distrib [of res_hold_token] expire_row_def)

lemma ids_expire_stale:
  "list_ex (\<lambda>x. res_id x = i) (reservations (svc_expire_stale now db)) \<longleftrightarrow> find_reservation i db \<noteq> None"
proof -
  have "list_ex (\<lambda>x. res_id x = i) (reservations (svc_expire_stale now db)) =
        list_ex (\<lambda>x. res_id x = i) (reservations db)"
    by (simp add: reservations_expire_stale list_ex_map if_distrib [of res_id] expire_row_def)
  then show ?thesis by (auto simp: find_reservation_def find_None_iff list_ex_iff simp flip: not_None_eq)
qed

lemma svc_create_held_new:
  assumes inv: "db_inv db" and "get_event (hr_event_id req) db \<noteq> None"
    and "get_seat (hr_event_id req) (hr_seat_id req) db \<noteq> None" and "get_user (hr_user_id req) db \<noteq> None"
    and new: "find_reservation (hr_reservation_id req) db = None"
  shows "svc_create_held now1 now2 now3 req db =
    (if has_confirmed_reservation (hr_event_id req) (hr_seat_id req) db
     then (Inl (SvcConflict (lit ''seat '' @ quote1 (hr_seat_id req) @ lit '' for event '' @
             quote1 (hr_event_id req) @ lit '' is already confirmed'')), svc_expire_stale now1 db)
     else if list_ex (\<lambda>x. res_hold_token x = Some (hr_hold_token req)) (reservations db)
     then (Inl (SvcConflict (lit ''hold_token is already in use'')), svc_expire_stale now1 db)
     else (Inr (Some (held_row now3 req, None), True),
           (svc_expire_stale now1 db)
             \<lparr>reservations := reservations (svc_expire_stale now1 db) @ [held_row now3 req]\<rparr>))"
proof -
  let ?db1 = "svc_expire_stale now1 db" and ?r = "held_row now3 req" and ?i = "hr_reservation_id req"
  have new1: "get_reservation ?i ?db1 = None" using new by (simp add: get_aged)
  have unpaid: "?i \<notin> pay_reservation_id ` set (payments db)"
    using inv new by (auto simp: db_inv_def payments_ok_def find_reservation_None)
  have get: "get_reservation ?i (?db1\<lparr>reservations := reservations ?db1 @ [?r]\<rparr>) = Some (?r, None)"
  proof -
    have "find_reservation ?i ?db1 = None" using new by (simp add: find_expire_stale)
    moreover have "find (\<lambda>p. pay_reservation_id p = ?i) (payments db) = None"
      using unpaid by (auto simp: find_None_iff image_iff)
    ultimately show ?thesis
      by (simp add: get_reservation_def find_reservation_def find_append held_row_def with_payment_def)
  qed
  have "repo_create_held ?i (hr_event_id req) (hr_seat_id req) (hr_user_id req) (hr_hold_token req)
          (hr_expires_at req) now3 ?db1 =
      (if list_ex (\<lambda>x. res_hold_token x = Some (hr_hold_token req)) (reservations db)
       then (Inl DbIntegrityError, ?db1)
       else (Inr (Some (?r, None)), ?db1\<lparr>reservations := reservations ?db1 @ [?r]\<rparr>))"
  proof -
    have sel: "res_id ?r = ?i" "res_event_id ?r = hr_event_id req" "res_seat_id ?r = hr_seat_id req"
      "res_user_id ?r = hr_user_id req" "res_status ?r = HELD" "res_hold_token ?r = Some (hr_hold_token req)"
      by (simp_all add: held_row_def)
    have "insert_reservation ?r ?db1 =
        (if list_ex (\<lambda>x. res_hold_token x = Some (hr_hold_token req)) (reservations db)
         then Inl DbIntegrityError else Inr (?db1\<lparr>reservations := reservations ?db1 @ [?r]\<rparr>))"
      using assms(3,4) new by (auto simp: insert_reservation_def sel tokens_expire_stale ids_expire_stale)
    then show ?thesis using get by (simp add: repo_create_held_def flip: held_row_def)
  qed
  then show ?thesis
    using assms(2-4) new1
    by (auto simp: svc_create_held_def Let_def require_event_def require_seat_def ensure_user_def)
qed

end
