(* ===== verification/Ticketing_Sweep.thy ===== *)
theory Ticketing_Sweep
  imports Ticketing_Laws
begin

section \<open>The sweep over stale reservations\<close>

text \<open>
  \<open>expire_stale_reservations\<close> lists the stale holds up to a limit and expires each by its
  own call. The calls cannot conflict with one another, so the loop returns every listed
  reservation, expired; and since every call first expires all stale rows, the limit bounds
  the report and not the work.
\<close>

definition sweepable :: "TicketingDb \<Rightarrow> ReservationRow \<Rightarrow> bool" where
  "sweepable db r \<longleftrightarrow>
     (\<exists>x. find_reservation (res_id r) db = Some x \<and> row_key x = row_key r \<and> res_status x \<in> {HELD, EXPIRED})"

lemma aged_sweepable: "res_status r \<in> {HELD, EXPIRED} \<Longrightarrow> res_status (aged now r) \<in> {HELD, EXPIRED}"
  by (auto simp: aged_def expire_row_def)

lemma svc_expire_outcome:
  assumes "find_reservation i db = Some r" and "res_status r \<in> {HELD, EXPIRED}"
  shows "svc_expire now1 now2 i db =
    (if res_status (aged now1 r) = EXPIRED
     then (Inr (Some (with_payment db (aged now1 r))), svc_expire_stale now1 db)
     else (Inr (Some (with_payment db (expire_row now2 r))),
           update_reservation i (expire_row now2) (svc_expire_stale now1 db)))"
proof (cases "res_status (aged now1 r) = EXPIRED")
  case True
  then show ?thesis by (simp add: svc_expire_def require_found [OF assms(1)])
next
  case False
  then have held: "res_status r = HELD" "aged now1 r = r" "\<not> is_stale now1 r"
    using assms(2) by (auto simp: aged_def expire_row_def split: if_splits)
  then have "get_reservation i (update_reservation i (expire_row now2) (svc_expire_stale now1 db)) =
      Some (with_payment db (expire_row now2 r))"
    using assms(1) by (simp add: get_reservation_def find_update find_expire_stale expire_row_def)
  then show ?thesis
    using False held by (simp add: svc_expire_def require_found [OF assms(1)] repo_expire_def Let_def)
qed

lemma key_aged [simp]: "row_key (aged now r) = row_key r" "row_key (expire_row now r) = row_key r"
  by (simp_all add: aged_def row_key_def expire_row_def)

lemma status_expire_row [simp]: "res_status (expire_row now r) = EXPIRED"
  by (simp add: expire_row_def)

lemma sweepable_later:
  assumes "sweepable db y"
    and "\<And>i x. find_reservation i db = Some x \<Longrightarrow>
      \<exists>now. find_reservation i db1 \<in> {Some x, Some (aged now x), Some (expire_row now x)}"
  shows "sweepable db1 y"
proof -
  obtain x where x: "find_reservation (res_id y) db = Some x" "row_key x = row_key y" "res_status x \<in> {HELD, EXPIRED}"
    using assms(1) unfolding sweepable_def by blast
  then obtain now where "find_reservation (res_id y) db1 \<in> {Some x, Some (aged now x), Some (expire_row now x)}"
    using assms(2) by blast
  then obtain x' where "find_reservation (res_id y) db1 = Some x'" "x' \<in> {x, aged now x, expire_row now x}" by blast
  moreover from this(2) have "row_key x' = row_key y" "res_status x' \<in> {HELD, EXPIRED}"
    using x(2,3) aged_sweepable [OF x(3), of now] by auto
  ultimately show ?thesis unfolding sweepable_def by blast
qed

lemma svc_expire_sweeps:
  assumes "sweepable db y"
  shows "\<exists>r p db1. svc_expire now1 now2 (res_id y) db = (Inr (Some (r, p)), db1) \<and> row_key r = row_key y \<and>
           res_status r = EXPIRED \<and> (\<forall>z. sweepable db z \<longrightarrow> sweepable db1 z)"
proof -
  obtain r where r: "find_reservation (res_id y) db = Some r" "row_key r = row_key y" "res_status r \<in> {HELD, EXPIRED}"
    using assms by (auto simp: sweepable_def)
  have s1: "sweepable (svc_expire_stale now1 db) z" if "sweepable db z" for z
    by (rule sweepable_later [OF that]) (auto simp: find_expire_stale aged_def)
  have s2: "sweepable (update_reservation i (expire_row now2) db1) z" if "sweepable db1 z" for i z db1
    by (rule sweepable_later [OF that]) (auto simp: find_update expire_row_def)
  show ?thesis
    using svc_expire_outcome [OF r(1,3), of now1 now2] r(2) s1 s2
    by (cases "res_status (aged now1 r) = EXPIRED") (auto simp: with_payment_def)
qed

lemma expire_each_sweeps:
  assumes "\<forall>r\<in>set rs. sweepable db r"
  shows "\<exists>vs. fst (expire_each ts rs db) = Inr (map Some vs) \<and>
           map (\<lambda>v. row_key (fst v)) vs = map row_key rs \<and> (\<forall>v\<in>set vs. res_status (fst v) = EXPIRED)"
  using assms
proof (induction rs arbitrary: ts db)
  case Nil
  then show ?case by simp
next
  case (Cons r rs)
  have "sweepable db r" using Cons(2) by simp
  then obtain x p db1 where x: "svc_expire (fst (ts 0)) (snd (ts 0)) (res_id r) db = (Inr (Some (x, p)), db1)"
    "row_key x = row_key r" "res_status x = EXPIRED" and keep: "\<forall>z. sweepable db z \<longrightarrow> sweepable db1 z"
    using svc_expire_sweeps by blast
  obtain vs where vs: "fst (expire_each (\<lambda>n. ts (Suc n)) rs db1) = Inr (map Some vs)"
    "map (\<lambda>v. row_key (fst v)) vs = map row_key rs" "\<forall>v\<in>set vs. res_status (fst v) = EXPIRED"
  proof -
    have "\<forall>r\<in>set rs. sweepable db1 r" using Cons(2) keep by simp
    from Cons(1) [OF this, of "\<lambda>n. ts (Suc n)"] that show ?thesis by blast
  qed
  obtain db2 where "expire_each (\<lambda>n. ts (Suc n)) rs db1 = (Inr (map Some vs), db2)"
    using vs(1) by (metis prod.collapse)
  then show ?case
    using x vs by (intro exI [of _ "(x, p) # vs"]) simp
qed

lemma svc_expire_after:
  assumes "db_inv db"
  shows "rows_follow (svc_expire_stale now1 db) (snd (svc_expire now1 now2 i db))"
proof -
  let ?db1 = "svc_expire_stale now1 db"
  have "rows_follow ?db1 (snd (repo_expire i now2 ?db1))"
    if "get_reservation i ?db1 = Some v" "res_status (fst v) = HELD" for v
    using rows_follow_expire [OF expire_stale_inv [OF assms]] get_reservation_Some [OF that(1)] that(2) by blast
  then show ?thesis
    by (auto simp: svc_expire_def require_reservation_def Let_def split: option.split prod.split)
qed

lemma expire_each_after:
  assumes "db_inv db" and "rs \<noteq> []"
  shows "rows_follow (svc_expire_stale (fst (ts 0)) db) (snd (expire_each ts rs db))"
proof -
  obtain r rest where rs: "rs = r # rest" using assms(2) by (cases rs) auto
  obtain x db1 where x: "svc_expire (fst (ts 0)) (snd (ts 0)) (res_id r) db = (x, db1)" by fastforce
  have 1: "rows_follow (svc_expire_stale (fst (ts 0)) db) db1" "db_inv db1"
    using svc_expire_after [OF assms(1), of "fst (ts 0)" "snd (ts 0)" "res_id r"]
      svc_expire_inv [OF assms(1), of "fst (ts 0)" "snd (ts 0)" "res_id r"] x by simp_all
  have 2: "rows_follow (svc_expire_stale (fst (ts 0)) db) (snd (expire_each (\<lambda>n. ts (Suc n)) rest db1))"
    by (rule rows_follow_trans [OF 1(1) expire_each_follow [OF 1(2)]])
  show ?thesis
    using 1 2 x by (auto simp: rs split: sum.split prod.split svc_error.split)
qed

lemma stale_listed:
  "r \<in> set (list_stale_held_reservations now limit db) \<Longrightarrow> r \<in> set (reservations db) \<and> is_stale now r"
  by (auto simp: list_stale_held_reservations_def sql_limit_def dest: in_set_takeD split: if_splits)

lemma listed_sweepable:
  assumes "db_inv db" and "r \<in> set (list_stale_held_reservations now limit db)"
  shows "sweepable db r"
  using stale_listed [OF assms(2)] find_member [of db r] assms(1)
  by (simp add: sweepable_def db_inv_def is_stale_def)

lemma sweep_views:
  assumes "db_inv db"
  shows "\<exists>vs. fst (svc_expire_stale_reservations now ts limit db) = Inr (map Some vs) \<and>
           map (\<lambda>v. row_key (fst v)) vs = map row_key (list_stale_held_reservations now limit db) \<and>
           (\<forall>v\<in>set vs. res_status (fst v) = EXPIRED)"
  unfolding svc_expire_stale_reservations_def
  by (rule expire_each_sweeps) (use listed_sweepable [OF assms] in blast)

text \<open>The sweep keeps the reservations and their keys.\<close>

lemma svc_expire_keys: "map row_key (reservations (snd (svc_expire now1 now2 i db))) = map row_key (reservations db)"
  by (auto simp: svc_expire_def require_reservation_def repo_expire_def Let_def reservations_expire_stale
      update_reservation_def row_key_def expire_row_def split: option.split)

lemma expire_each_keys: "map row_key (reservations (snd (expire_each ts rs db))) = map row_key (reservations db)"
proof (induction rs arbitrary: ts db)
  case (Cons r rs)
  obtain x db1 where x: "svc_expire (fst (ts 0)) (snd (ts 0)) (res_id r) db = (x, db1)" by fastforce
  then have 1: "map row_key (reservations db1) = map row_key (reservations db)"
    using svc_expire_keys [of "fst (ts 0)" "snd (ts 0)" "res_id r" db] by simp
  have 2: "map row_key (reservations (snd (expire_each (\<lambda>n. ts (Suc n)) rs db1))) = map row_key (reservations db)"
    using Cons 1 by simp
  show ?case using x 1 2 by (auto split: sum.split prod.split svc_error.split)
qed simp

lemma sweep_keys:
  "map row_key (reservations (snd (svc_expire_stale_reservations now ts limit db))) = map row_key (reservations db)"
  by (simp add: svc_expire_stale_reservations_def expire_each_keys)

end
