(* ===== verification/Ticketing_Properties.thy ===== *)
theory Ticketing_Properties
  imports Ticketing_Sweep
begin

section \<open>Properties of the ticketing database service\<close>

text \<open>
  What the database service promises over any sequence of its calls, and the outcome of its
  workflows. The witnesses run on a database with one event, one seat and one user.
\<close>

lemma fresh_inv: "reservations db = [] \<Longrightarrow> payments db = [] \<Longrightarrow> db_inv db"
  by (simp add: db_inv_def tokens_ok_def confirmed_unique_def payments_ok_def)

lemma empty_ok: "db_inv empty_db" "catalogue_ok empty_db"
  by (simp_all add: fresh_inv empty_db_def catalogue_ok_def)

definition small_db :: TicketingDb where
  "small_db =
     \<lparr>events = [\<lparr>ev_id = [1], ev_title = [], ev_venue = [], ev_starts_at = [], ev_booking_opens_at = [],
                ev_created_at = []\<rparr>],
      users = [\<lparr>usr_id = [2], usr_display_name = [], usr_email = [], usr_created_at = []\<rparr>],
      seats = [\<lparr>st_event_id = [1], st_seat_id = [3], st_label = [], st_section = [], st_row_label = [],
                st_number = 1, st_price = 5, st_created_at = []\<rparr>],
      reservations = [], payments = []\<rparr>"

definition small_hold :: "ustr \<Rightarrow> ustr \<Rightarrow> ustr \<Rightarrow> HeldReservationCreate" where
  "small_hold i token expires_at =
     \<lparr>hr_reservation_id = i, hr_event_id = [1], hr_seat_id = [3], hr_user_id = [2], hr_hold_token = token,
      hr_expires_at = expires_at\<rparr>"

definition small_payment :: ConfirmReservationRequest where
  "small_payment = \<lparr>cr_payment_id = [7], cr_amount = 5, cr_provider = [8], cr_provider_ref = [7]\<rparr>"

text \<open>A database with one live hold, made at time 10 to last until 20.\<close>

definition held_db :: TicketingDb where
  "held_db = small_db\<lparr>reservations := [held_row [10] (small_hold [4] [5] [20])]\<rparr>"

lemma small_inv: "db_inv small_db"
  by (rule fresh_inv) (simp_all add: small_db_def)

lemma held_inv: "db_inv held_db"
  by (rule insert_held_inv [OF small_inv, of "held_row [10] (small_hold [4] [5] [20])"])
    (simp_all add: insert_reservation_def held_row_def small_hold_def small_db_def get_seat_def get_user_def held_db_def)

lemmas small_eval = small_db_def small_hold_def small_payment_def held_db_def held_row_def find_reservation_def
  get_event_def get_seat_def get_user_def has_confirmed_reservation_def confirmed_for_def is_stale_def

text \<open>The hold becomes a booking at time 12.\<close>

definition booked_row :: ReservationRow where
  "booked_row = confirm_row [12] (held_row [10] (small_hold [4] [5] [20]))"

definition booked_db :: TicketingDb where
  "booked_db = small_db\<lparr>reservations := [booked_row], payments := [paid [12] [4] small_payment]\<rparr>"

definition small_calls :: "svc_call list" where
  "small_calls = [CreateHeld [9] [10] [10] (small_hold [4] [5] [20]), Confirm [11] [12] [4] small_payment]"

lemma held_step: "svc_create_held [9] [10] [10] (small_hold [4] [5] [20]) small_db =
    (Inr (Some (held_row [10] (small_hold [4] [5] [20]), None), True), held_db)"
  using svc_create_held_new [OF small_inv, of "small_hold [4] [5] [20]" "[9]" "[10]" "[10]"]
  by (simp add: small_eval svc_expire_stale_def repo_expire_stale_def)

lemma booked_step: "svc_confirm [11] [12] [4] small_payment held_db =
    (Inr (Some (booked_row, Some (paid [12] [4] small_payment))), booked_db)"
  using svc_confirm_held [OF held_inv, of "[4]" "held_row [10] (small_hold [4] [5] [20])" "[11]" "[12]" small_payment]
  by (simp add: small_eval svc_expire_stale_def repo_expire_stale_def booked_row_def booked_db_def
      update_reservation_def)

lemma small_run: "fold svc_step small_calls small_db = booked_db"
  by (simp add: small_calls_def held_step booked_step)

lemma booked_in: "booked_row \<in> set (reservations (fold svc_step small_calls small_db))"
  by (simp add: small_run booked_db_def)

lemma booked_confirmed: "confirmed_for [1] [3] booked_row"
  by (simp add: booked_row_def confirm_row_def confirmed_for_def held_row_def small_hold_def)

text \<open>
  Claim C2: starting from a database without reservations and payments, after any sequence of
  calls of the service, seeding included (in any order, with any clock readings, whatever their outcome) no two
  different reservations of the same seat are confirmed, and every confirmed reservation has a
  successful payment and a confirmation time.
\<close>

theorem one_confirmed_reservation_per_seat:
  assumes "reservations db = []" and "payments db = []"
    and "x \<in> set (reservations (fold svc_step calls db))"
    and "y \<in> set (reservations (fold svc_step calls db))"
    and "confirmed_for e s x" and "confirmed_for e s y"
  shows "x = y \<and> res_confirmed_at x \<noteq> None \<and>
         (\<exists>p\<in>set (payments (fold svc_step calls db)). pay_reservation_id p = res_id x \<and> pay_status p = SUCCEEDED)"
proof -
  have inv: "db_inv (fold svc_step calls db)" by (rule svc_run.run_inv [OF fresh_inv [OF assms(1,2)]])
  have "res_id x = res_id y"
    using inv assms(3-6) unfolding db_inv_def confirmed_unique_def by blast
  then have "x = y" using same_id_same_row [OF _ assms(3,4)] inv unfolding db_inv_def by blast
  moreover have "row_paid (payments (fold svc_step calls db)) x" using inv assms(3) unfolding db_inv_def by blast
  ultimately show ?thesis using assms(5) unfolding row_paid_def confirmed_for_def by blast
qed

theorem one_confirmed_reservation_per_seat_witness:
  "\<exists>p\<in>set (payments (fold svc_step small_calls small_db)).
     pay_reservation_id p = res_id booked_row \<and> pay_status p = SUCCEEDED"
  using one_confirmed_reservation_per_seat [OF _ _ booked_in booked_in booked_confirmed booked_confirmed]
  by (simp add: small_db_def)

text \<open>
  Claim C10: from a database without reservations, whatever calls have been made and whatever
  calls of the service follow, but for a seeding when the reservation is one of the demo event
  (seeding deletes those), a reservation that is confirmed, cancelled or expired stays as it is,
  every field of it; and a held one keeps its identifier, seat, user, hold token, deadline and
  creation time.
\<close>

theorem settled_reservation_is_final:
  assumes "reservations db = []" and "payments db = []"
    and "r \<in> set (reservations (fold svc_step calls db))"
    and "res_event_id r \<noteq> DEMO_EVENT_ID \<or> (\<forall>t. SeedDemoData t \<notin> set later)"
  shows "\<exists>r'\<in>set (reservations (fold svc_step later (fold svc_step calls db))).
           (res_status r \<noteq> HELD \<longrightarrow> r' = r) \<and> row_key r' = row_key r \<and>
           res_expires_at r' = res_expires_at r \<and> res_created_at r' = res_created_at r"
proof -
  have "db_inv (fold svc_step calls db)" by (rule svc_run.run_inv [OF fresh_inv [OF assms(1,2)]])
  moreover have "\<forall>c\<in>set later. spares r c" using assms(4) by (auto simp: spares_def)
  ultimately show ?thesis using svc_calls_follow [OF _ assms(3)] unfolding row_follows_def by blast
qed

theorem settled_reservation_is_final_witness:
  "booked_row \<in> set (reservations (fold svc_step [Expire [30] [31] [4], SeedDemoData [32]] (fold svc_step small_calls small_db)))"
proof -
  have "res_status booked_row \<noteq> HELD" "res_event_id booked_row \<noteq> DEMO_EVENT_ID"
    by (simp_all add: booked_row_def confirm_row_def held_row_def small_hold_def DEMO_EVENT_ID_def lit_def)
  then show ?thesis
    using settled_reservation_is_final [OF _ _ booked_in, of "[Expire [30] [31] [4], SeedDemoData [32]]"]
    by (auto simp: small_db_def simp del: fold_simps)
qed



text \<open>
  Repeating a confirmation that succeeded, with the same payment and at any later
  times, returns the same reservation and payment again and changes nothing but stale holds.
\<close>

lemma confirm_is_idempotent:
  assumes "db_inv db" and "svc_confirm now1 now2 i req db = (Inr v, db1)"
  shows "svc_confirm now3 now4 i req db1 = (Inr v, svc_expire_stale now3 db1)"
  by (rule svc_confirm_again [OF assms])

text \<open>
  Creating a hold under a new reservation identifier, for an event, seat and user
  that exist, fails when the seat has a confirmed reservation or when the hold token is in use;
  otherwise it stores a held reservation with the requested data and no payment and reports it
  as created. Apart from expiring stale holds nothing else changes.
\<close>

lemma new_hold_is_created:
  assumes "db_inv db" and "get_event (hr_event_id req) db \<noteq> None"
    and "get_seat (hr_event_id req) (hr_seat_id req) db \<noteq> None" and "get_user (hr_user_id req) db \<noteq> None"
    and "find_reservation (hr_reservation_id req) db = None"
  shows "svc_create_held now1 now2 now3 req db =
    (if has_confirmed_reservation (hr_event_id req) (hr_seat_id req) db
     then (Inl (SvcConflict (lit ''seat '' @ quote1 (hr_seat_id req) @ lit '' for event '' @
             quote1 (hr_event_id req) @ lit '' is already confirmed'')), svc_expire_stale now1 db)
     else if list_ex (\<lambda>x. res_hold_token x = Some (hr_hold_token req)) (reservations db)
     then (Inl (SvcConflict (lit ''hold_token is already in use'')), svc_expire_stale now1 db)
     else (Inr (Some (held_row now3 req, None), True),
           (svc_expire_stale now1 db)
             \<lparr>reservations := reservations (svc_expire_stale now1 db) @ [held_row now3 req]\<rparr>))"
  by (rule svc_create_held_new [OF assms])

text \<open>
  Claim C21: a confirmation, cancellation or expiration that is refused has expired the stale
  holds and changed nothing else.
\<close>

theorem refused_workflow_changes_nothing:
  shows "(fst (svc_confirm now1 now2 i req db) = Inl err \<longrightarrow>
            snd (svc_confirm now1 now2 i req db) = svc_expire_stale now1 db) \<and>
         (fst (svc_cancel now1 now2 i cx db) = Inl err \<longrightarrow>
            snd (svc_cancel now1 now2 i cx db) = svc_expire_stale now1 db) \<and>
         (fst (svc_expire now1 now2 i db) = Inl err \<longrightarrow>
            snd (svc_expire now1 now2 i db) = svc_expire_stale now1 db)"
  by (metis svc_confirm_error svc_cancel_error svc_expire_error prod.collapse)

theorem refused_workflow_changes_nothing_witness:
  "fst (svc_expire [13] [14] [4] booked_db) \<noteq> fst (svc_expire [13] [14] [4] held_db) \<and>
   snd (svc_expire [13] [14] [4] booked_db) = svc_expire_stale [13] booked_db"
proof -
  have "fst (svc_expire [13] [14] [4] booked_db) =
      Inl (SvcConflict (lit ''reservation '' @ quote1 [4] @ lit '' cannot transition from '' @
        lit ''CONFIRMED'' @ lit '' to EXPIRED''))"
    by (simp add: svc_expire_def require_found [of _ _ booked_row] small_eval booked_db_def booked_row_def confirm_row_def)
  moreover have "\<exists>v. fst (svc_expire [13] [14] [4] held_db) = Inr v"
    by (simp add: svc_expire_def require_found [of _ _ "held_row [10] (small_hold [4] [5] [20])"] small_eval
        aged_def split_beta)
  ultimately show ?thesis
    using refused_workflow_changes_nothing by (metis Inl_Inr_False)
qed

text \<open>
  The sweep over stale holds always completes: it returns the listed reservations in
  their order, each of them expired.
\<close>

lemma sweep_returns_expired_reservations:
  assumes "db_inv db"
  shows "\<exists>vs. fst (svc_expire_stale_reservations now ts limit db) = Inr (map Some vs) \<and>
           map (\<lambda>v. res_id (fst v)) vs = map res_id (list_stale_held_reservations now limit db) \<and>
           (\<forall>v\<in>set vs. res_status (fst v) = EXPIRED)"
proof -
  obtain vs where vs: "fst (svc_expire_stale_reservations now ts limit db) = Inr (map Some vs)"
    "map (\<lambda>v. row_key (fst v)) vs = map row_key (list_stale_held_reservations now limit db)"
    "\<forall>v\<in>set vs. res_status (fst v) = EXPIRED" using sweep_views [OF assms] by blast
  have "map fst (map (\<lambda>v. row_key (fst v)) vs) = map fst (map row_key (list_stale_held_reservations now limit db))"
    by (simp only: vs(2))
  then have "map (\<lambda>v. res_id (fst v)) vs = map res_id (list_stale_held_reservations now limit db)"
    by (simp add: row_key_def comp_def)
  then show ?thesis using vs by blast
qed

text \<open>
  The limit of the sweep bounds the reservations it reports and not the ones it
  expires. As soon as the sweep lists one reservation, every hold of the database whose deadline
  has passed when the first one is handled is expired afterwards, also beyond the limit.
\<close>

lemma sweep_expires_beyond_its_limit:
  assumes "db_inv db" and "list_stale_held_reservations now limit db \<noteq> []"
    and "r \<in> set (reservations db)" and "is_stale (fst (ts 0)) r"
  shows "expire_row (fst (ts 0)) r \<in> set (reservations (snd (svc_expire_stale_reservations now ts limit db)))"
proof -
  let ?db1 = "svc_expire_stale (fst (ts 0)) db"
  have "expire_row (fst (ts 0)) r \<in> set (reservations ?db1)"
    using assms(3,4) by (auto simp: reservations_expire_stale image_iff)
  moreover have "rows_follow ?db1 (snd (svc_expire_stale_reservations now ts limit db))"
    unfolding svc_expire_stale_reservations_def by (rule expire_each_after [OF assms(1,2)])
  moreover have "res_status (expire_row (fst (ts 0)) r) \<noteq> HELD" by (simp add: expire_row_def)
  ultimately show ?thesis unfolding rows_follow_def row_follows_def by metis
qed

lemma seed_file_ok:
  "\<exists>db''. seed_demo_file t old = (None, db'') \<and> db_inv db'' \<and> reservations db'' = [] \<and> seats db'' = build_demo_seat_rows t"
  using seed_demo_data_seeds [OF empty_ok, of t] seeded_inv [OF empty_ok(1), of t] seeded_rows(1,2) [OF empty_ok, of t]
  by (simp add: seed_demo_file_def database_initialize_def empty_db_def Let_def)

text \<open>The seats of the hand-off document.\<close>

definition documented_seats :: "ustr list" where
  "documented_seats = [row @ nat_str n. row \<leftarrow> [lit ''A'', lit ''B''], n \<leftarrow> [1..<9]]"

lemma documented_part: "length documented_seats = 16" "set documented_seats \<subset> set iter_demo_seat_ids"
proof -
  show count: "length documented_seats = 16" by (simp add: documented_seats_def upt_rec)
  have "set documented_seats \<subseteq> set iter_demo_seat_ids"
    by (auto simp: documented_seats_def iter_demo_seat_ids_def DEMO_ROW_LABELS_def DEMO_SEATS_PER_ROW_def)
  moreover have "card (set documented_seats) < card (set iter_demo_seat_ids)"
    using card_length [of documented_seats] by (simp add: count distinct_card [OF demo_ids_distinct] demo_ids_count)
  ultimately show "set documented_seats \<subset> set iter_demo_seat_ids" by auto
qed

text \<open>
  Claim C22: seeding the demo data never fails on a consistent database and leaves it
  consistent. Afterwards the demo event has exactly the 66 seats of the layout of the code, rows A
  to F of 11 seats, with distinct identifiers, listed in the order of rows and numbers, all of them
  available; its old reservations are gone, and those of other events are kept. The seeding script,
  whatever file there was, leaves a consistent database with nothing but the demo data. The hand-off
  document (\<open>docs/redis-integration-handoff.md\<close>) describes an earlier layout of 16 seats, A1 to A8
  and B1 to B8; they are a proper part of the seats that the code creates (\<open>documented_seats\<close>).
\<close>

theorem seeding_resets_the_demo_event:
  assumes "db_inv db" and "catalogue_ok db"
  shows "\<exists>db'. seed_demo_data t db = (None, db') \<and> db_inv db' \<and> catalogue_ok db' \<and>
           list_seats DEMO_EVENT_ID db' = map (\<lambda>s. (s, False)) (build_demo_seat_rows t) \<and>
           map st_seat_id (build_demo_seat_rows t) = iter_demo_seat_ids \<and> distinct iter_demo_seat_ids \<and>
           length iter_demo_seat_ids = 66 \<and>
           length documented_seats = 16 \<and> set documented_seats \<subset> set iter_demo_seat_ids \<and>
           reservations db' = filter (\<lambda>r. res_event_id r \<noteq> DEMO_EVENT_ID) (reservations db) \<and>
           (\<forall>old. \<exists>db''. seed_demo_file t old = (None, db'') \<and> db_inv db'' \<and> reservations db'' = [] \<and>
              seats db'' = build_demo_seat_rows t)"
  using seed_file_ok [of t] documented_part seed_demo_data_seeds [OF assms] seeded_inv [OF assms(1)] seeded_catalogue [OF assms]
    seeded_seats [OF assms] seeded_rows(2) [OF assms] demo_rows_ids demo_ids_distinct demo_ids_count
  by blast

theorem seeding_resets_the_demo_event_witness:
  "\<exists>db'. seed_demo_data [0] empty_db = (None, db') \<and> length (list_seats DEMO_EVENT_ID db') = 66"
  using seeding_resets_the_demo_event [OF empty_ok, of "[0]"] by (metis length_map)

end
