(* ===== verification/Py_Datetime.thy ===== *)
theory Py_Datetime
  imports Py_Text "HOL-Library.List_Lexorder"
begin

section \<open>Dates and times (the parts of \<open>datetime\<close> that the sources use)\<close>

text \<open>
  A \<open>datetime\<close> of the proleptic Gregorian calendar with its offset from UTC in microseconds,
  or none when it is naive; its place on the time line, the sum with a number of seconds, the
  conversion to UTC and \<open>isoformat\<close>. The conversion of ordinals follows
  \<open>datetime._ymd2ord\<close> and \<open>datetime._ord2ymd\<close>.
\<close>

record datetime =
  dt_year :: int
  dt_month :: int
  dt_day :: int
  dt_hour :: int
  dt_minute :: int
  dt_second :: int
  dt_micro :: int
  dt_offset :: "int option"

subsection \<open>The calendar\<close>

definition is_leap :: "int \<Rightarrow> bool" where
  "is_leap y \<longleftrightarrow> y mod 4 = 0 \<and> (y mod 100 \<noteq> 0 \<or> y mod 400 = 0)"

definition days_before_year :: "int \<Rightarrow> int" where
  "days_before_year y = (y - 1) * 365 + (y - 1) div 4 - (y - 1) div 100 + (y - 1) div 400"

definition month_starts :: "int list" where
  "month_starts = [0, 31, 59, 90, 120, 151, 181, 212, 243, 273, 304, 334, 365]"

definition days_before_month :: "bool \<Rightarrow> int \<Rightarrow> int" where
  "days_before_month leap m = month_starts ! nat (m - 1) + (if m > 2 \<and> leap then 1 else 0)"

definition days_in_month :: "bool \<Rightarrow> int \<Rightarrow> int" where
  "days_in_month leap m =
     (if m = 2 then (if leap then 29 else 28) else if m \<in> {4, 6, 9, 11} then 30 else 31)"

definition ymd2ord :: "int \<Rightarrow> int \<Rightarrow> int \<Rightarrow> int" where
  "ymd2ord y m d = days_before_year y + days_before_month (is_leap y) m + d"

text \<open>Month and day of a day of the year, counted from 0.\<close>

definition month_day :: "bool \<Rightarrow> int \<Rightarrow> int \<times> int" where
  "month_day leap n =
     (let m = (n + 50) div 32; preceding = days_before_month leap m
      in if preceding > n then (m - 1, n - (preceding - days_in_month leap (m - 1)) + 1)
         else (m, n - preceding + 1))"

definition ord2ymd :: "int \<Rightarrow> int \<times> int \<times> int" where
  "ord2ymd ordinal =
     (let n = ordinal - 1; n400 = n div 146097; r400 = n mod 146097;
          n100 = r400 div 36524; r100 = r400 mod 36524; n4 = r100 div 1461; r4 = r100 mod 1461;
          n1 = r4 div 365; r1 = r4 mod 365;
          y = n400 * 400 + 1 + n100 * 100 + n4 * 4 + n1
      in if n1 = 4 \<or> n100 = 4 then (y - 1, 12, 31)
         else (y, month_day (n1 = 3 \<and> (n4 \<noteq> 24 \<or> n100 = 3)) r1))"

definition valid_date :: "int \<Rightarrow> int \<Rightarrow> int \<Rightarrow> bool" where
  "valid_date y m d \<longleftrightarrow> 1 \<le> m \<and> m \<le> 12 \<and> 1 \<le> d \<and> d \<le> days_in_month (is_leap y) m"

lemma month_cases: "1 \<le> (m :: int) \<Longrightarrow> m \<le> 12 \<Longrightarrow> m \<in> {1, 2, 3, 4, 5, 6, 7, 8, 9, 10, 11, 12}"
  unfolding insert_iff empty_iff by presburger

lemma div_of_next:
  fixes y k :: int
  assumes "0 < k"
  shows "y div k = (y - 1) div k + (if y mod k = 0 then 1 else 0)"
proof -
  define q r where "q = (y - 1) div k" and "r = (y - 1) mod k"
  then have y: "y = k * q + (r + 1)" and r: "0 \<le> r" "r < k" using assms by auto
  show ?thesis
  proof (cases "r + 1 = k")
    case True
    then have k: "y = k * (q + 1)" using y by (simp add: algebra_simps)
    have "y div k = q + 1" "y mod k = 0" unfolding k using assms by simp_all
    then show ?thesis by (simp add: q_def)
  next
    case False
    then have "(r + 1) div k = 0" "(r + 1) mod k = r + 1" using r by auto
    then have "y div k = q" "y mod k = r + 1" using assms unfolding y by simp_all
    then show ?thesis using r(1) by (simp add: q_def)
  qed
qed

lemma leap_days:
  fixes a b c :: int
  assumes "r \<Longrightarrow> q" and "q \<Longrightarrow> p"
    and "a' = a + (if p then 1 else 0)" and "b' = b + (if q then 1 else 0)" and "c' = c + (if r then 1 else 0)"
  shows "a' - b' + c' = a - b + c + (if p \<and> (\<not> q \<or> r) then 1 else 0)"
  unfolding assms(3-5) using assms(1,2) by (cases p; cases q; cases r) simp_all

lemma year_length: "days_before_year (y + 1) = days_before_year y + 365 + (if is_leap y then 1 else 0)"
proof -
  have "y mod 400 = 0 \<Longrightarrow> y mod 100 = 0" using mod_mod_cancel [of 100 400 y] by simp
  moreover have "y mod 100 = 0 \<Longrightarrow> y mod 4 = 0" using mod_mod_cancel [of 4 100 y] by simp
  ultimately have "y div 4 - y div 100 + y div 400 =
      (y - 1) div 4 - (y - 1) div 100 + (y - 1) div 400 + (if is_leap y then 1 else 0)"
    unfolding is_leap_def by (rule leap_days) (assumption | rule div_of_next | simp)+
  then show ?thesis unfolding days_before_year_def by (simp only: add_diff_cancel_right') (simp add: algebra_simps)
qed

lemma year_day_bounds:
  assumes "valid_date y m d"
  shows "0 < days_before_month (is_leap y) m + d" "days_before_month (is_leap y) m + d \<le> 365 + (if is_leap y then 1 else 0)"
  using assms month_cases [of m] by (auto simp: valid_date_def days_before_month_def month_starts_def days_in_month_def)

lemma years_increase: "y < y' \<Longrightarrow> days_before_year (y + 1) \<le> days_before_year y'"
proof (induction "nat (y' - y - 1)" arbitrary: y')
  case 0
  then have "y' = y + 1" by simp
  then show ?case by simp
next
  case (Suc n)
  then have "days_before_year (y + 1) \<le> days_before_year (y' - 1)" by simp
  then show ?case using year_length [of "y' - 1"] by simp
qed

lemma month_step:
  assumes "2 \<le> k" and "k \<le> 12"
  shows "days_before_month leap k = days_before_month leap (k - 1) + days_in_month leap (k - 1)"
proof -
  have "k \<in> {2, 3, 4, 5, 6, 7, 8, 9, 10, 11, 12}" using assms unfolding insert_iff empty_iff by presburger
  then show ?thesis
    by (elim insertE emptyE; simp add: days_before_month_def month_starts_def days_in_month_def)
qed

lemma months_increase: "1 \<le> m \<Longrightarrow> m < m' \<Longrightarrow> m' \<le> 12 \<Longrightarrow>
    days_before_month leap m + days_in_month leap m \<le> days_before_month leap m'"
proof (induction "nat (m' - m - 1)" arbitrary: m')
  case 0
  then have "m' = m + 1" by simp
  then show ?case using month_step [of m' leap] 0 by simp
next
  case (Suc n)
  then have "days_before_month leap m + days_in_month leap m \<le> days_before_month leap (m' - 1)" by simp
  moreover have "0 \<le> days_in_month leap (m' - 1)" by (simp add: days_in_month_def)
  ultimately show ?case using month_step [of m' leap] Suc.hyps(2) Suc.prems by simp
qed

text \<open>Ordinals are in the order of dates.\<close>

lemma ymd2ord_less:
  assumes "valid_date y m d" and "valid_date y' m' d'"
    and "y < y' \<or> y = y' \<and> (m < m' \<or> m = m' \<and> d < d')"
  shows "ymd2ord y m d < ymd2ord y' m' d'"
proof -
  consider "y < y'" | "y = y'" "m < m'" | "y = y'" "m = m'" "d < d'" using assms(3) by blast
  then show ?thesis
  proof cases
    case 1
    then have "days_before_year (y + 1) \<le> days_before_year y'" by (rule years_increase)
    then show ?thesis
      using year_day_bounds(2) [OF assms(1)] year_day_bounds(1) [OF assms(2)] year_length [of y] by (simp add: ymd2ord_def)
  next
    case 2
    then show ?thesis using months_increase [of m m' "is_leap y"] assms(1,2) by (auto simp: ymd2ord_def valid_date_def)
  next
    case 3
    then show ?thesis by (simp add: ymd2ord_def)
  qed
qed

subsection \<open>Ordinals back to dates\<close>

lemma month_starts_before:
  assumes "1 \<le> k" and "k \<le> 12"
  shows "days_before_month leap (max 1 (k - 1)) \<le> max 0 (32 * k - 50)"
    and "min 365 (32 * k - 18) \<le> days_before_month leap k + days_in_month leap k"
  using month_cases [OF assms]
  by (elim insertE emptyE; simp add: days_before_month_def month_starts_def days_in_month_def)+

lemma month_day_ok:
  assumes "0 \<le> n" and "n < 365" and "month_day leap n = (m, d)"
  shows "1 \<le> m \<and> m \<le> 12 \<and> 1 \<le> d \<and> d \<le> days_in_month leap m \<and> days_before_month leap m + d = n + 1"
proof -
  define k where "k = (n + 50) div 32"
  have k: "32 * k \<le> n + 50" "n + 50 < 32 * k + 32" "1 \<le> k" "k \<le> 12" using assms(1,2) unfolding k_def by linarith+
  have step: "(m, d) = (if days_before_month leap k > n then (k - 1, n - (days_before_month leap k - days_in_month leap (k - 1)) + 1)
      else (k, n - days_before_month leap k + 1))"
    using assms(3) unfolding month_day_def Let_def k_def by (rule sym)
  show ?thesis
  proof (cases "days_before_month leap k > n")
    case True
    moreover have "days_before_month leap 1 = 0" by (simp add: days_before_month_def month_starts_def)
    ultimately have "2 \<le> k" using k(3) assms(1) by (cases "k = 1") simp_all
    then show ?thesis using True step month_step [of k leap] month_starts_before(1) [OF k(3,4), of leap] k by simp
  next
    case False
    then show ?thesis using step month_starts_before(2) [OF k(3,4), of leap] k assms(2) by simp
  qed
qed

text \<open>The parts of a count of days: cycles of 400 years, centuries, cycles of four years, years.\<close>

lemma quotient_parts:
  fixes n k :: int
  assumes "0 < k" and "q = n div k" and "r = n mod k"
  shows "n = k * q + r" "0 \<le> r" "r < k"
  using assms by simp_all

lemma day_parts:
  fixes n :: int
  assumes "b = n mod 146097 div 36524" and "c = n mod 146097 mod 36524 div 1461"
    and "d = n mod 146097 mod 36524 mod 1461 div 365" and "r = n mod 146097 mod 36524 mod 1461 mod 365"
  shows "n = 146097 * (n div 146097) + 36524 * b + 1461 * c + 365 * d + r"
    and "0 \<le> b" "0 \<le> c" "0 \<le> d" "0 \<le> r" "r < 365" "b \<le> 4" "c \<le> 24" "d \<le> 4"
    and "d = 4 \<Longrightarrow> r = 0" "b = 4 \<Longrightarrow> c = 0 \<and> d = 0 \<and> r = 0" "d = 4 \<Longrightarrow> c = 24 \<Longrightarrow> False"
proof -
  define s where "s = n mod 146097"
  define t where "t = s mod 36524"
  define u where "u = t mod 1461"
  note s = quotient_parts [OF _ refl s_def, simplified]
  note t = quotient_parts [OF _ assms(1) [folded s_def] t_def, simplified]
  note u = quotient_parts [OF _ assms(2) [folded s_def, folded t_def] u_def, simplified]
  note r = quotient_parts [OF _ assms(3,4) [folded s_def, folded t_def, folded u_def], simplified]
  have n: "n = 146097 * (n div 146097) + (36524 * b + (1461 * c + (365 * d + r)))" using s(1) unfolding t(1) u(1) r(1) .
  then show "n = 146097 * (n div 146097) + 36524 * b + 1461 * c + 365 * d + r" by (simp only: add.assoc)
  show "0 \<le> b" "b \<le> 4" using s(2,3) t by linarith+
  show "0 \<le> c" "c \<le> 24" using t(2,3) u by linarith+
  show "0 \<le> d" "d \<le> 4" "d = 4 \<Longrightarrow> r = 0" using u(2,3) r by linarith+
  show "0 \<le> r" "r < 365" by (rule r(2)) (rule r(3))
  show "d = 4 \<Longrightarrow> c = 24 \<Longrightarrow> False" using t(2,3) u r by linarith
  assume "b = 4"
  then have "t = 0" using s(2,3) t by linarith
  moreover from this have "c = 0" using u by linarith
  ultimately have "c = 0" "u = 0" using u(1) by simp_all
  moreover from this have "d = 0" using r by linarith
  ultimately show "c = 0 \<and> d = 0 \<and> r = 0" using r(1) by simp
qed

lemma last_of_cycle: "0 < x \<Longrightarrow> x \<le> k \<Longrightarrow> x mod k = 0 \<longleftrightarrow> x = k" for x k :: int
  by (cases "x = k") simp_all

lemma days_before_parts:
  assumes "0 \<le> b" and "b \<le> 3" and "0 \<le> c" and "c \<le> 24" and "0 \<le> d" and "d \<le> 3" and "y = 400 * a + 1 + 100 * b + 4 * c + d"
  shows "days_before_year y = 146097 * a + 36524 * b + 1461 * c + 365 * d"
    and "is_leap y \<longleftrightarrow> d = 3 \<and> (c \<noteq> 24 \<or> b = 3)"
proof -
  have "(y - 1) div 4 = 100 * a + 25 * b + c"
    by (rule int_div_pos_eq [where r = d]) (use assms in simp_all)
  moreover have "(y - 1) div 100 = 4 * a + b"
    by (rule int_div_pos_eq [where r = "4 * c + d"]) (use assms in simp_all)
  moreover have "(y - 1) div 400 = a"
    by (rule int_div_pos_eq [where r = "100 * b + 4 * c + d"]) (use assms in simp_all)
  ultimately show "days_before_year y = 146097 * a + 36524 * b + 1461 * c + 365 * d"
    using assms(7) by (simp add: days_before_year_def)
  have y4: "y = (d + 1) + 4 * (100 * a + 25 * b + c)" and y100: "y = (4 * c + d + 1) + 100 * (4 * a + b)"
    and y400: "y = (100 * b + 4 * c + d + 1) + 400 * a"
    using assms(7) by simp_all
  have "y mod 4 = (d + 1) mod 4" by (subst y4) (rule mod_mult_self2)
  then have "y mod 4 = 0 \<longleftrightarrow> d + 1 = 4" using last_of_cycle [of "d + 1" 4] assms(5,6) by simp
  moreover have "y mod 100 = (4 * c + d + 1) mod 100" by (subst y100) (rule mod_mult_self2)
  then have "y mod 100 = 0 \<longleftrightarrow> 4 * c + d + 1 = 100" using last_of_cycle [of "4 * c + d + 1" 100] assms(3-6) by simp
  moreover have "y mod 400 = (100 * b + 4 * c + d + 1) mod 400" by (subst y400) (rule mod_mult_self2)
  then have "y mod 400 = 0 \<longleftrightarrow> 100 * b + 4 * c + d + 1 = 400"
    using last_of_cycle [of "100 * b + 4 * c + d + 1" 400] assms(1-6) by simp
  moreover have "d + 1 = 4 \<longleftrightarrow> d = 3" by linarith
  moreover have "4 * c + d + 1 = 100 \<longleftrightarrow> c = 24 \<and> d = 3" using assms(3-6) by (intro iffI conjI) linarith+
  moreover have "100 * b + 4 * c + d + 1 = 400 \<longleftrightarrow> b = 3 \<and> c = 24 \<and> d = 3"
    using assms(1-6) by (intro iffI conjI) linarith+
  ultimately show "is_leap y \<longleftrightarrow> d = 3 \<and> (c \<noteq> 24 \<or> b = 3)" by (auto simp: is_leap_def)
qed

text \<open>\<open>_ord2ymd\<close> gives the date of an ordinal.\<close>

lemma ord2ymd_ok:
  assumes "ord2ymd n = (y, m, d)"
  shows "valid_date y m d" and "ymd2ord y m d = n"
proof -
  define k where "k = n - 1"
  define a b c q r where "a = k div 146097" and "b = k mod 146097 div 36524" and "c = k mod 146097 mod 36524 div 1461"
    and "q = k mod 146097 mod 36524 mod 1461 div 365" and "r = k mod 146097 mod 36524 mod 1461 mod 365"
  note parts = day_parts [OF b_def c_def q_def r_def, folded a_def]
  have step: "(y, m, d) = (if q = 4 \<or> b = 4 then (a * 400 + 1 + b * 100 + c * 4 + q - 1, 12, 31)
      else (a * 400 + 1 + b * 100 + c * 4 + q, month_day (q = 3 \<and> (c \<noteq> 24 \<or> b = 3)) r))"
    using assms unfolding ord2ymd_def Let_def k_def a_def b_def c_def q_def r_def by (rule sym)
  have "valid_date y m d \<and> ymd2ord y m d = n"
  proof (cases "q = 4 \<or> b = 4")
    case True
    define b' c' where "b' = (if b = 4 then 3 else b)" and "c' = (if b = 4 then 24 else c)"
    have y: "y = 400 * a + 1 + 100 * b' + 4 * c' + 3" "m = 12" "d = 31"
      using True step parts(11) by (auto simp: b'_def c'_def)
    have "0 \<le> b'" "b' \<le> 3" "0 \<le> c'" "c' \<le> 24" "c' \<noteq> 24 \<or> b' = 3"
      using True parts(2,3,7,8,12) by (auto simp: b'_def c'_def)
    then have "is_leap y" "days_before_year y = 146097 * a + 36524 * b' + 1461 * c' + 1095"
      using days_before_parts [of b' c' 3 y a] y(1) by simp_all
    moreover have "k = 146097 * a + 36524 * b' + 1461 * c' + 1095 + 365"
      using True parts(1,10,11) by (auto simp: b'_def c'_def)
    ultimately show ?thesis
      using y(2,3) by (simp add: valid_date_def days_in_month_def ymd2ord_def days_before_month_def month_starts_def k_def)
  next
    case False
    then have y: "y = 400 * a + 1 + 100 * b + 4 * c + q" "month_day (q = 3 \<and> (c \<noteq> 24 \<or> b = 3)) r = (m, d)"
      using step by simp_all
    have bounds: "b \<le> 3" "q \<le> 3" using False parts(7,9) by linarith+
    note year = days_before_parts [OF parts(2) bounds(1) parts(3,8,4) bounds(2) y(1)]
    show ?thesis
      using month_day_ok [OF parts(5,6) y(2) [folded year(2)]] year(1) parts(1) by (simp add: valid_date_def ymd2ord_def k_def)
  qed
  then show "valid_date y m d" "ymd2ord y m d = n" by blast+
qed

subsection \<open>The time line\<close>

text \<open>Microseconds from the ordinal 0, of the fields and in UTC.\<close>

definition day_micros :: int where
  "day_micros = 86400000000"

definition field_micros :: "datetime \<Rightarrow> int" where
  "field_micros t = ymd2ord (dt_year t) (dt_month t) (dt_day t) * day_micros
     + (((dt_hour t * 60 + dt_minute t) * 60 + dt_second t) * 1000000 + dt_micro t)"

definition instant :: "datetime \<Rightarrow> int" where
  "instant t = field_micros t - (case dt_offset t of None \<Rightarrow> 0 | Some z \<Rightarrow> z)"

definition valid_datetime :: "datetime \<Rightarrow> bool" where
  "valid_datetime t \<longleftrightarrow> 1 \<le> dt_year t \<and> dt_year t \<le> 9999 \<and> valid_date (dt_year t) (dt_month t) (dt_day t) \<and>
     0 \<le> dt_hour t \<and> dt_hour t < 24 \<and> 0 \<le> dt_minute t \<and> dt_minute t < 60 \<and> 0 \<le> dt_second t \<and> dt_second t < 60 \<and>
     0 \<le> dt_micro t \<and> dt_micro t < 1000000 \<and> (\<forall>z. dt_offset t = Some z \<longrightarrow> \<bar>z\<bar> < day_micros)"

text \<open>The first and the last ordinal; a sum outside raises \<open>OverflowError\<close>.\<close>

definition max_ordinal :: int where
  "max_ordinal = 3652059"

definition datetime_at :: "int option \<Rightarrow> int \<Rightarrow> datetime option" where
  "datetime_at offset micros =
     (let ordinal = micros div day_micros; rest = micros mod day_micros; seconds = rest div 1000000
      in if 1 \<le> ordinal \<and> ordinal \<le> max_ordinal
         then (case ord2ymd ordinal of (y, m, d) \<Rightarrow>
           Some \<lparr>dt_year = y, dt_month = m, dt_day = d, dt_hour = seconds div 3600, dt_minute = seconds mod 3600 div 60,
             dt_second = seconds mod 60, dt_micro = rest mod 1000000, dt_offset = offset\<rparr>)
         else None)"

text \<open>\<open>t + timedelta(seconds=n)\<close>, for whole seconds: the sum keeps the offset.\<close>

definition add_seconds :: "datetime \<Rightarrow> int \<Rightarrow> datetime option" where
  "add_seconds t n = datetime_at (dt_offset t) (field_micros t + n * 1000000)"

text \<open>\<open>t.astimezone(timezone.utc)\<close> of an aware time.\<close>

definition astimezone_utc :: "datetime \<Rightarrow> datetime option" where
  "astimezone_utc t = datetime_at (Some 0) (instant t)"

lemma ordinal_year:
  assumes "valid_date y m d" and "1 \<le> ymd2ord y m d" and "ymd2ord y m d \<le> max_ordinal"
  shows "1 \<le> y" and "y \<le> 9999"
proof -
  have ends: "days_before_year 1 = 0" "days_before_year 10000 = max_ordinal"
    by (simp_all add: days_before_year_def max_ordinal_def)
  have "ymd2ord y m d \<le> days_before_year (y + 1)"
    using year_day_bounds(2) [OF assms(1)] year_length [of y] by (simp add: ymd2ord_def)
  moreover have "days_before_year (y + 1) \<le> 0" if "y < 1" using years_increase [OF that] ends by simp
  ultimately show "1 \<le> y" using assms(2) by linarith
  have "days_before_year y < ymd2ord y m d" using year_day_bounds(1) [OF assms(1)] by (simp add: ymd2ord_def)
  moreover have "max_ordinal \<le> days_before_year y" if "10000 \<le> y"
  proof (cases "y = 10000")
    case False
    then have "days_before_year 10001 \<le> days_before_year y" using years_increase [of 10000 y] that by simp
    then show ?thesis using year_length [of 10000] ends by (simp split: if_splits)
  qed (simp add: ends)
  ultimately show "y \<le> 9999" using assms(3) by linarith
qed

lemma clock_sum:
  fixes h k mi se u s rest :: int
  assumes "s = 3600 * h + k" and "k = 60 * mi + se" and "rest = 1000000 * s + u"
  shows "((h * 60 + mi) * 60 + se) * 1000000 + u = rest"
  unfolding assms(3) assms(1) assms(2) by (simp add: algebra_simps)

lemma clock_parts:
  fixes rest :: int
  assumes "0 \<le> rest" and "rest < day_micros" and "s = rest div 1000000"
  shows "0 \<le> s div 3600" "s div 3600 < 24" "0 \<le> s mod 3600 div 60" "s mod 3600 div 60 < 60"
    "((s div 3600 * 60 + s mod 3600 div 60) * 60 + s mod 60) * 1000000 + rest mod 1000000 = rest"
proof -
  have s: "0 \<le> s" "s < 86400" "rest = 1000000 * s + rest mod 1000000"
    using assms by (simp_all add: day_micros_def)
  define k where "k = s mod 3600"
  note h = quotient_parts [OF _ refl k_def, simplified]
  have m: "k = 60 * (k div 60) + k mod 60" "0 \<le> k mod 60" "k mod 60 < 60" by simp_all
  have "k mod 60 = s mod 60" unfolding k_def by (rule mod_mod_cancel) simp
  then show "((s div 3600 * 60 + s mod 3600 div 60) * 60 + s mod 60) * 1000000 + rest mod 1000000 = rest"
    using clock_sum [OF h(1) m(1) s(3)] by (simp only: k_def)
  show "0 \<le> s div 3600" "s div 3600 < 24" using h s(1,2) by linarith+
  show "0 \<le> s mod 3600 div 60" "s mod 3600 div 60 < 60" using h m unfolding k_def [symmetric] by linarith+
qed

text \<open>What \<open>datetime_at\<close> gives is a valid time at that moment.\<close>

lemma datetime_at_ok:
  assumes "datetime_at offset micros = Some t" and "\<forall>z. offset = Some z \<longrightarrow> \<bar>z\<bar> < day_micros"
  shows "valid_datetime t" and "field_micros t = micros" and "dt_offset t = offset"
proof -
  obtain y m d where ymd: "ord2ymd (micros div day_micros) = (y, m, d)" by (rule prod_cases3)
  note date = ord2ymd_ok [OF ymd]
  define rest where "rest = micros mod day_micros"
  define h mi se u where "h = rest div 1000000 div 3600" and "mi = rest div 1000000 mod 3600 div 60"
    and "se = rest div 1000000 mod 60" and "u = rest mod 1000000"
  have "0 < day_micros" by (simp add: day_micros_def)
  note rest = quotient_parts [OF this refl rest_def]
  note clock = clock_parts [OF rest(2,3) refl, folded h_def mi_def se_def u_def]
  have small: "0 \<le> se" "se < 60" "0 \<le> u" "u < 1000000" by (simp_all add: se_def u_def)
  have range: "1 \<le> ymd2ord y m d" "ymd2ord y m d \<le> max_ordinal"
    and t: "t = \<lparr>dt_year = y, dt_month = m, dt_day = d, dt_hour = h, dt_minute = mi, dt_second = se, dt_micro = u, dt_offset = offset\<rparr>"
    using assms(1) unfolding datetime_at_def Let_def ymd prod.case date(2) rest_def [symmetric] h_def [symmetric]
      mi_def [symmetric] se_def [symmetric] u_def [symmetric]
    by (simp_all split: if_split_asm)
  show "field_micros t = micros" unfolding t field_micros_def datetime.simps clock(5) date(2)
    using rest(1) by (simp only: mult.commute)
  show "dt_offset t = offset" by (simp add: t)
  show "valid_datetime t"
    using ordinal_year [OF date(1) range] date(1) clock(1-4) small assms(2) unfolding t valid_datetime_def datetime.simps by blast
qed

lemma datetime_at_None: "datetime_at offset micros = None \<longleftrightarrow> micros < day_micros \<or> (max_ordinal + 1) * day_micros \<le> micros"
proof -
  have last: "(max_ordinal + 1) * day_micros = 315537984000000000" by (simp add: max_ordinal_def day_micros_def)
  have "micros div day_micros < 1 \<longleftrightarrow> micros < day_micros" unfolding day_micros_def by linarith
  moreover have "max_ordinal < micros div day_micros \<longleftrightarrow> (max_ordinal + 1) * day_micros \<le> micros"
    unfolding last unfolding day_micros_def max_ordinal_def by linarith
  ultimately show ?thesis by (auto simp: datetime_at_def Let_def split: prod.split)
qed

subsection \<open>\<open>isoformat\<close>\<close>

text \<open>\<open>"%02d" % n\<close> and its like for numbers that are not negative.\<close>

definition pad :: "nat \<Rightarrow> int \<Rightarrow> ustr" where
  "pad k n = replicate (k - length (nat_str (nat n))) 48 @ nat_str (nat n)"

definition iso_offset :: "int \<Rightarrow> ustr" where
  "iso_offset z =
     (let seconds = \<bar>z\<bar> div 1000000; micro = \<bar>z\<bar> mod 1000000
      in lit (if z < 0 then ''-'' else ''+'') @ pad 2 (seconds div 3600) @ lit '':'' @ pad 2 (seconds mod 3600 div 60) @
         (if seconds mod 60 = 0 \<and> micro = 0 then []
          else lit '':'' @ pad 2 (seconds mod 60) @ (if micro = 0 then [] else lit ''.'' @ pad 6 micro)))"

definition isoformat :: "datetime \<Rightarrow> ustr" where
  "isoformat t =
     pad 4 (dt_year t) @ lit ''-'' @ pad 2 (dt_month t) @ lit ''-'' @ pad 2 (dt_day t) @ lit ''T'' @
     pad 2 (dt_hour t) @ lit '':'' @ pad 2 (dt_minute t) @ lit '':'' @ pad 2 (dt_second t) @
     (if dt_micro t = 0 then [] else lit ''.'' @ pad 6 (dt_micro t)) @
     (case dt_offset t of None \<Rightarrow> [] | Some z \<Rightarrow> iso_offset z)"

text \<open>Digits of a fixed width compare as numbers do.\<close>

primrec digits :: "nat \<Rightarrow> nat \<Rightarrow> ustr" where
  "digits 0 n = []"
| "digits (Suc k) n = digits k (n div 10) @ [48 + n mod 10]"

lemma length_digits [simp]: "length (digits k n) = k"
  by (induction k arbitrary: n) simp_all

lemma digits_zero: "digits k 0 = replicate k 48"
  by (induction k) (simp_all add: replicate_append_same)

lemma digits_pad: "n < 10 ^ Suc k \<Longrightarrow> replicate (Suc k - length (nat_str n)) 48 @ nat_str n = digits (Suc k) n"
proof (induction k arbitrary: n)
  case 0
  then show ?case by (simp add: nat_str_small)
next
  case (Suc k)
  show ?case
  proof (cases "n < 10")
    case True
    then show ?thesis by (simp add: nat_str_small digits_zero replicate_append_same)
  next
    case False
    then have "nat_str n = nat_str (n div 10) @ [48 + n mod 10]" by (simp add: nat_str_big)
    moreover have "n div 10 < 10 ^ Suc k" using Suc.prems by (simp add: less_mult_imp_div_less)
    note IH = Suc.IH [OF this]
    ultimately show ?thesis by (simp add: IH [symmetric] del: digits.simps(2)) (simp add: IH)
  qed
qed

lemma pad_digits: "0 < k \<Longrightarrow> 0 \<le> n \<Longrightarrow> n < 10 ^ k \<Longrightarrow> pad k n = digits k (nat n)"
  using digits_pad [of "nat n" "k - 1"] by (simp add: pad_def nat_less_iff)

lemma list_less_append:
  fixes a b :: "'a :: linorder list"
  shows "length a = length b \<Longrightarrow> a @ s < b @ t \<longleftrightarrow> a < b \<or> a = b \<and> s < t"
  by (induction a b rule: list_induct2) auto

lemma last_digit_less:
  fixes a b r s :: nat
  assumes "r < 10" and "s < 10"
  shows "10 * a + r < 10 * b + s \<longleftrightarrow> a < b \<or> a = b \<and> r < s"
  using assms by (cases a b rule: linorder_cases) simp_all

lemma digits_less: "n < 10 ^ k \<Longrightarrow> m < 10 ^ k \<Longrightarrow> digits k n < digits k m \<longleftrightarrow> n < m"
proof (induction k arbitrary: n m)
  case (Suc k)
  have q: "n div 10 < 10 ^ k" "m div 10 < 10 ^ k" using Suc.prems by (simp_all add: less_mult_imp_div_less)
  have eq: "digits k (n div 10) = digits k (m div 10) \<longleftrightarrow> n div 10 = m div 10"
    using Suc.IH [OF q] Suc.IH [OF q(2,1)] by (metis less_irrefl linorder_neqE_nat)
  have "n < m \<longleftrightarrow> n div 10 < m div 10 \<or> n div 10 = m div 10 \<and> n mod 10 < m mod 10"
    using last_digit_less [of "n mod 10" "m mod 10" "n div 10" "m div 10"] by simp
  then show ?case by (simp add: list_less_append Suc.IH [OF q] eq)
qed simp

lemma pad_less:
  assumes "0 < k" and "0 \<le> a" and "a < 10 ^ k" and "0 \<le> b" and "b < 10 ^ k"
  shows "pad k a @ s < pad k b @ t \<longleftrightarrow> a < b \<or> a = b \<and> s < t"
proof -
  have "nat a < 10 ^ k" "nat b < 10 ^ k" using assms by (simp_all add: nat_less_iff)
  note less = digits_less [OF this] digits_less [OF this(2,1)]
  have "digits k (nat a) = digits k (nat b) \<longleftrightarrow> nat a = nat b" using less by (metis less_irrefl linorder_neqE_nat)
  then show ?thesis using assms less(1) by (auto simp: pad_digits list_less_append eq_nat_nat_iff nat_less_eq_zless)
qed

text \<open>The end of a time in UTC: a point sorts behind a plus.\<close>

definition iso_end :: "int \<Rightarrow> ustr" where
  "iso_end u = (if u = 0 then [] else lit ''.'' @ pad 6 u) @ iso_offset 0"

lemma iso_chars: "lit ''-'' = [45]" "lit ''T'' = [84]" "lit '':'' = [58]" "lit ''.'' = [46]"
  by code_simp+

lemma iso_offset_0: "iso_offset 0 = [43, 48, 48, 58, 48, 48]"
  by code_simp

lemma iso_end_less:
  assumes "0 \<le> u" and "u < 1000000" and "0 \<le> v" and "v < 1000000"
  shows "iso_end u < iso_end v \<longleftrightarrow> u < v"
  using assms pad_less [of 6 u v "iso_offset 0" "iso_offset 0"] by (auto simp: iso_end_def iso_chars iso_offset_0)

lemma isoformat_utc:
  assumes "dt_offset t = Some 0"
  shows "isoformat t = pad 4 (dt_year t) @ 45 # pad 2 (dt_month t) @ 45 # pad 2 (dt_day t) @ 84 #
     pad 2 (dt_hour t) @ 58 # pad 2 (dt_minute t) @ 58 # pad 2 (dt_second t) @ iso_end (dt_micro t)"
  by (simp add: isoformat_def iso_end_def assms iso_chars)

definition fields :: "datetime \<Rightarrow> int list" where
  "fields t = [dt_year t, dt_month t, dt_day t, dt_hour t, dt_minute t, dt_second t, dt_micro t]"

lemma valid_ranges:
  assumes "valid_datetime t"
  shows "0 \<le> dt_year t" "dt_year t < 10 ^ 4" "0 \<le> dt_month t" "dt_month t < 10 ^ 2" "0 \<le> dt_day t" "dt_day t < 10 ^ 2"
    "0 \<le> dt_hour t" "dt_hour t < 10 ^ 2" "0 \<le> dt_minute t" "dt_minute t < 10 ^ 2" "0 \<le> dt_second t" "dt_second t < 10 ^ 2"
    "0 \<le> dt_micro t" "dt_micro t < 1000000"
  using assms by (auto simp: valid_datetime_def valid_date_def days_in_month_def split: if_splits)

lemma isoformat_fields:
  assumes "valid_datetime t" and "valid_datetime t'" and "dt_offset t = Some 0" and "dt_offset t' = Some 0"
  shows "isoformat t < isoformat t' \<longleftrightarrow> fields t < fields t'"
  unfolding isoformat_utc [OF assms(3)] isoformat_utc [OF assms(4)] fields_def
  by (simp only: pad_less Cons_less_Cons less_irrefl not_less_Nil simp_thms iso_end_less valid_ranges [OF assms(1)] valid_ranges [OF assms(2)]
      zero_less_numeral)

lemma mixed_less:
  fixes a a' x x' k :: int
  assumes "a < a' \<or> a = a' \<and> x < x'" and "x < k" and "0 \<le> x'" and "0 \<le> k"
  shows "a * k + x < a' * k + x'"
proof (cases "a < a'")
  case True
  then have "(a + 1) * k \<le> a' * k" using assms(4) by (intro mult_right_mono) simp_all
  then show ?thesis using assms(2,3) by (simp add: algebra_simps)
next
  case False
  then show ?thesis using assms(1) by simp
qed

lemma fields_less_instant:
  assumes "valid_datetime t" and "valid_datetime t'" and "fields t < fields t'"
  shows "field_micros t < field_micros t'"
proof -
  define c where "c x = ((dt_hour x * 60 + dt_minute x) * 60 + dt_second x) * 1000000 + dt_micro x" for x :: datetime
  have c: "0 \<le> c x" "c x < day_micros" if "valid_datetime x" for x
    using that by (auto simp: valid_datetime_def c_def day_micros_def)
  define n where "n x = ymd2ord (dt_year x) (dt_month x) (dt_day x)" for x :: datetime
  have dates: "valid_date (dt_year t) (dt_month t) (dt_day t)" "valid_date (dt_year t') (dt_month t') (dt_day t')"
    using assms(1,2) by (simp_all add: valid_datetime_def)
  have "n t < n t' \<or> n t = n t' \<and> c t < c t'"
  proof (cases "dt_year t = dt_year t' \<and> dt_month t = dt_month t' \<and> dt_day t = dt_day t'")
    case True
    then have "dt_hour t < dt_hour t' \<or> dt_hour t = dt_hour t' \<and>
       (dt_minute t < dt_minute t' \<or> dt_minute t = dt_minute t' \<and> (dt_second t < dt_second t' \<or> dt_second t = dt_second t' \<and>
       dt_micro t < dt_micro t'))" using assms(3) by (simp add: fields_def)
    moreover have "dt_minute t < 60" "dt_second t < 60" "dt_micro t < 1000000" "0 \<le> dt_minute t'" "0 \<le> dt_second t'" "0 \<le> dt_micro t'"
      using assms(1,2) by (simp_all add: valid_datetime_def)
    ultimately have "c t < c t'" unfolding c_def by (intro mixed_less) auto
    then show ?thesis using True by (simp add: n_def)
  next
    case False
    then show ?thesis using ymd2ord_less [OF dates] assms(3) by (auto simp: n_def fields_def)
  qed
  from mixed_less [OF this c(2) [OF assms(1)] c(1) [OF assms(2)]] show ?thesis
    by (simp add: day_micros_def field_micros_def n_def c_def)
qed

lemma fields_cases:
  fixes t t' :: datetime
  assumes "dt_offset t = dt_offset t'"
  shows "fields t < fields t' \<or> fields t' < fields t \<or> t = t'"
proof -
  have "t = t'" if "fields t = fields t'"
    using that assms by (cases t; cases t') (simp add: fields_def)
  then show ?thesis by (metis less_linear)
qed

text \<open>Texts in UTC are in the order of the times.\<close>

lemma isoformat_less:
  assumes "valid_datetime t" and "valid_datetime t'" and "dt_offset t = Some 0" and "dt_offset t' = Some 0"
  shows "isoformat t < isoformat t' \<longleftrightarrow> field_micros t < field_micros t'"
proof -
  have "fields t < fields t' \<or> fields t' < fields t \<or> t = t'"
    by (rule fields_cases) (simp add: assms(3,4))
  then show ?thesis
    using fields_less_instant [OF assms(1,2)] fields_less_instant [OF assms(2,1)] isoformat_fields [OF assms]
      isoformat_fields [OF assms(2,1,4,3)] by (metis less_asym less_irrefl)
qed

text \<open>A time is determined by its moment and its offset.\<close>

lemma valid_moment:
  assumes "valid_datetime t"
  shows "day_micros \<le> field_micros t" and "field_micros t < (max_ordinal + 1) * day_micros"
proof -
  define n where "n = ymd2ord (dt_year t) (dt_month t) (dt_day t)"
  have date: "valid_date (dt_year t) (dt_month t) (dt_day t)" "1 \<le> dt_year t" "dt_year t \<le> 9999"
    using assms by (simp_all add: valid_datetime_def)
  have ends: "days_before_year 1 = 0" "days_before_year 10000 = max_ordinal"
    by (simp_all add: days_before_year_def max_ordinal_def)
  have "0 \<le> days_before_year (dt_year t)" "days_before_year (dt_year t + 1) \<le> max_ordinal"
    using years_increase [of 1 "dt_year t"] years_increase [of "dt_year t + 1" 10000] year_length [of 1]
      year_length [of "dt_year t + 1"] ends date(2,3) by (cases "dt_year t = 1"; cases "dt_year t = 9999"; auto split: if_splits)+
  then have "1 \<le> n" "n \<le> max_ordinal"
    using year_day_bounds [OF date(1)] year_length [of "dt_year t"] by (simp_all add: n_def ymd2ord_def)
  then have "1 * day_micros \<le> n * day_micros" "n * day_micros \<le> max_ordinal * day_micros"
    by (intro mult_right_mono; simp add: day_micros_def)+
  moreover have "0 \<le> ((dt_hour t * 60 + dt_minute t) * 60 + dt_second t) * 1000000 + dt_micro t"
    "((dt_hour t * 60 + dt_minute t) * 60 + dt_second t) * 1000000 + dt_micro t < day_micros"
    using assms by (auto simp: valid_datetime_def day_micros_def)
  ultimately show "day_micros \<le> field_micros t" "field_micros t < (max_ordinal + 1) * day_micros"
    unfolding field_micros_def n_def [symmetric] distrib_right by linarith+
qed

lemma datetime_at_field_micros:
  assumes "valid_datetime t"
  shows "datetime_at (dt_offset t) (field_micros t) = Some t"
proof -
  have "datetime_at (dt_offset t) (field_micros t) \<noteq> None"
    using valid_moment [OF assms] by (simp add: datetime_at_None)
  then obtain t' where t': "datetime_at (dt_offset t) (field_micros t) = Some t'" by blast
  have "\<forall>z. dt_offset t = Some z \<longrightarrow> \<bar>z\<bar> < day_micros" using assms by (simp add: valid_datetime_def)
  note ok = datetime_at_ok [OF t' this]
  have "t = t'"
    using fields_cases [of t t'] ok(2,3) fields_less_instant [OF assms ok(1)] fields_less_instant [OF ok(1) assms] by auto
  then show ?thesis using t' by simp
qed

lemmas moment_eval = add_seconds_def datetime_at_None field_micros_def ymd2ord_def days_before_year_def days_before_month_def
  month_starts_def is_leap_def day_micros_def max_ordinal_def

end
