(* ===== verification/App_Service.thy ===== *)
theory App_Service
  imports Redis_Client Ticketing_Service Py_Datetime
begin

section \<open>The orchestration service (\<open>app_server/service.py\<close>, \<open>app_server/orchestration_log.py\<close>)\<close>

text \<open>
  The service runs the ticketing flows over two clients, one for the seat store and one for
  the database service. Both are arguments: records of their methods, each of which may raise
  and may change the world \<open>'w\<close> behind it. The log of the service is a ring buffer. What
  the flows read from outside (the clock of the log, \<open>now_provider\<close>, random identifiers)
  comes from streams that are consumed one after the other.
\<close>

subsection \<open>The log\<close>

record OrchestrationLogEntry =
  log_timestamp :: ustr
  log_source :: ustr
  log_target :: ustr
  log_action :: ustr
  log_status :: ustr
  log_event_id :: "ustr option"
  log_seat_id :: "ustr option"
  log_user_id :: "ustr option"
  log_detail :: "ustr option"

definition log_limit :: nat where
  "log_limit = 200"

definition log_record :: "OrchestrationLogEntry \<Rightarrow> OrchestrationLogEntry list \<Rightarrow> OrchestrationLogEntry list" where
  "log_record entry entries = take log_limit (entry # entries)"

text \<open>\<open>entries[:limit]\<close>: a negative limit counts from the end.\<close>

definition log_list_entries :: "int \<Rightarrow> OrchestrationLogEntry list \<Rightarrow> OrchestrationLogEntry list" where
  "log_list_entries limit entries =
     (if 0 \<le> limit then take (nat limit) entries else take (length entries - nat (- limit)) entries)"

definition log_clear :: "OrchestrationLogEntry list \<Rightarrow> OrchestrationLogEntry list" where
  "log_clear entries = []"

subsection \<open>The clients\<close>

record 'w redis_api =
  redis_seat_status :: "ustr \<Rightarrow> ustr \<Rightarrow> 'w \<Rightarrow> (client_exn + SeatStatus) \<times> 'w"
  redis_reserve_seat :: "ustr \<Rightarrow> ustr \<Rightarrow> ustr \<Rightarrow> int \<Rightarrow> 'w \<Rightarrow> (client_exn + SeatCommandResult) \<times> 'w"
  redis_confirm_seat :: "ustr \<Rightarrow> ustr \<Rightarrow> ustr \<Rightarrow> 'w \<Rightarrow> (client_exn + SeatCommandResult) \<times> 'w"
  redis_force_confirm_seat :: "ustr \<Rightarrow> ustr \<Rightarrow> ustr \<Rightarrow> 'w \<Rightarrow> (client_exn + SeatCommandResult) \<times> 'w"
  redis_release_seat :: "ustr \<Rightarrow> ustr \<Rightarrow> ustr \<Rightarrow> 'w \<Rightarrow> (client_exn + SeatCommandResult) \<times> 'w"
  redis_join_queue :: "ustr \<Rightarrow> ustr \<Rightarrow> 'w \<Rightarrow> (client_exn + QueueJoinResult) \<times> 'w"
  redis_queue_position :: "ustr \<Rightarrow> ustr \<Rightarrow> 'w \<Rightarrow> (client_exn + QueuePositionResult) \<times> 'w"
  redis_leave_queue :: "ustr \<Rightarrow> ustr \<Rightarrow> 'w \<Rightarrow> (client_exn + QueueLeaveResult) \<times> 'w"
  redis_peek_queue :: "ustr \<Rightarrow> 'w \<Rightarrow> (client_exn + QueueFrontResult) \<times> 'w"

record 'w db_api =
  db_list_events :: "'w \<Rightarrow> (client_exn + EventRow list) \<times> 'w"
  db_list_event_seats :: "ustr \<Rightarrow> 'w \<Rightarrow> (client_exn + (SeatRow \<times> bool) list) \<times> 'w"
  db_create_held :: "HeldReservationCreate \<Rightarrow> 'w \<Rightarrow> (client_exn + reservation_view \<times> bool) \<times> 'w"
  db_confirm :: "ustr \<Rightarrow> ConfirmReservationRequest \<Rightarrow> 'w \<Rightarrow> (client_exn + reservation_view) \<times> 'w"
  db_cancel :: "ustr \<Rightarrow> 'w \<Rightarrow> (client_exn + reservation_view) \<times> 'w"
  db_expire :: "ustr \<Rightarrow> 'w \<Rightarrow> (client_exn + reservation_view) \<times> 'w"
  db_list_user_reservations :: "ustr \<Rightarrow> 'w \<Rightarrow> (client_exn + reservation_view list) \<times> 'w"

text \<open>
  \<open>log_now\<close> are the readings of \<open>datetime.now(UTC)\<close> of the log, \<open>now_provider\<close> those of
  the service.
\<close>

record 'w app_env =
  env_redis :: "'w redis_api"
  env_db :: "'w db_api"
  log_now :: "nat \<Rightarrow> datetime"
  now_provider :: "nat \<Rightarrow> datetime"
  uuid4_hex :: "nat \<Rightarrow> ustr"

text \<open>The text of \<open>now_provider() + timedelta(seconds=hold_seconds)\<close>; none: \<open>OverflowError\<close>.\<close>

definition hold_deadline :: "'w app_env \<Rightarrow> nat \<Rightarrow> int \<Rightarrow> ustr option" where
  "hold_deadline env n hold_seconds = map_option isoformat (add_seconds (now_provider env n) hold_seconds)"

record 'w app_state =
  app_world :: 'w
  app_log :: "OrchestrationLogEntry list"
  app_ticks :: nat

subsection \<open>Actions\<close>

type_synonym ('a, 'w) act = "'w app_state \<Rightarrow> (client_exn + 'a) \<times> 'w app_state"

definition act_return :: "'a \<Rightarrow> ('a, 'w) act" where
  "act_return x s = (Inr x, s)"

definition act_raise :: "client_exn \<Rightarrow> ('a, 'w) act" where
  "act_raise e s = (Inl e, s)"

definition act_bind :: "('a, 'w) act \<Rightarrow> ('a \<Rightarrow> ('b, 'w) act) \<Rightarrow> ('b, 'w) act" where
  "act_bind m f s = (case m s of (Inl e, s1) \<Rightarrow> (Inl e, s1) | (Inr x, s1) \<Rightarrow> f x s1)"

definition act_try :: "('a, 'w) act \<Rightarrow> (client_exn \<Rightarrow> ('a, 'w) act) \<Rightarrow> ('a, 'w) act" where
  "act_try m h s = (case m s of (Inl e, s1) \<Rightarrow> h e s1 | (Inr x, s1) \<Rightarrow> (Inr x, s1))"

definition on_world :: "('w \<Rightarrow> (client_exn + 'a) \<times> 'w) \<Rightarrow> ('a, 'w) act" where
  "on_world f s = (case f (app_world s) of (r, w) \<Rightarrow> (r, s\<lparr>app_world := w\<rparr>))"

definition next_tick :: "(nat, 'w) act" where
  "next_tick s = (Inr (app_ticks s), s\<lparr>app_ticks := Suc (app_ticks s)\<rparr>)"

definition conflict :: "string \<Rightarrow> client_exn" where
  "conflict t = AppServerError (ConflictError (lit t))"

definition trace ::
  "'w app_env \<Rightarrow> string \<Rightarrow> string \<Rightarrow> string \<Rightarrow> ustr option \<Rightarrow> ustr option \<Rightarrow> ustr option \<Rightarrow>
     ustr option \<Rightarrow> (unit, 'w) act" where
  "trace env target action status e s u detail =
     act_bind next_tick (\<lambda>n st.
       (Inr (), st\<lparr>app_log := log_record
          \<lparr>log_timestamp = isoformat (log_now env n), log_source = lit ''APP'', log_target = lit target,
           log_action = lit action, log_status = lit status, log_event_id = e, log_seat_id = s,
           log_user_id = u, log_detail = detail\<rparr> (app_log st)\<rparr>))"

subsection \<open>Seats\<close>

definition find_event_seat :: "'w app_env \<Rightarrow> ustr \<Rightarrow> ustr \<Rightarrow> (SeatRow \<times> bool, 'w) act" where
  "find_event_seat env event_id seat_id =
     act_bind (on_world (db_list_event_seats (env_db env) event_id)) (\<lambda>all.
       case find (\<lambda>seat. st_seat_id (fst seat) = seat_id) all of
         Some seat \<Rightarrow> act_return seat
       | None \<Rightarrow> act_raise (AppServerError (NotFoundError
           (lit ''seat '' @ quote1 seat_id @ lit '' for event '' @ quote1 event_id @ lit '' was not found''))))"

record SeatView =
  view_seat :: SeatRow
  view_status :: ustr
  view_held_by :: "ustr option"
  view_hold_ttl :: "int option"

text \<open>The flag of a seat of the database says that it has a confirmed reservation.\<close>

definition seat_view :: "SeatRow \<times> bool \<Rightarrow> SeatStatus \<Rightarrow> SeatView" where
  "seat_view seat status =
     (if snd seat \<or> seat_state status = lit ''CONFIRMED''
      then \<lparr>view_seat = fst seat, view_status = lit ''CONFIRMED'', view_held_by = None, view_hold_ttl = None\<rparr>
      else if seat_state status = lit ''HELD''
      then \<lparr>view_seat = fst seat, view_status = lit ''HELD'', view_held_by = seat_user_id status,
            view_hold_ttl = Some (seat_ttl status)\<rparr>
      else \<lparr>view_seat = fst seat, view_status = lit ''AVAILABLE'', view_held_by = None, view_hold_ttl = None\<rparr>)"

fun seat_views :: "'w app_env \<Rightarrow> ustr \<Rightarrow> (SeatRow \<times> bool) list \<Rightarrow> (SeatView list, 'w) act" where
  "seat_views env event_id [] = act_return []"
| "seat_views env event_id (seat # rest) =
     act_bind (on_world (redis_seat_status (env_redis env) event_id (st_seat_id (fst seat)))) (\<lambda>status.
     act_bind (seat_views env event_id rest) (\<lambda>views. act_return (seat_view seat status # views)))"

definition app_list_event_seats :: "'w app_env \<Rightarrow> ustr \<Rightarrow> (SeatView list, 'w) act" where
  "app_list_event_seats env event_id =
     act_bind (on_world (db_list_event_seats (env_db env) event_id)) (seat_views env event_id)"

definition get_event_seat :: "'w app_env \<Rightarrow> ustr \<Rightarrow> ustr \<Rightarrow> (SeatView, 'w) act" where
  "get_event_seat env event_id seat_id =
     act_bind (find_event_seat env event_id seat_id) (\<lambda>seat.
     act_bind (on_world (redis_seat_status (env_redis env) event_id seat_id)) (\<lambda>status.
       act_return (seat_view seat status)))"

definition seat_conflict_message :: "SeatCommandResult \<Rightarrow> ustr \<Rightarrow> string" where
  "seat_conflict_message result requested_user_id =
     (if cmd_state result = lit ''CONFIRMED'' then ''seat is already confirmed''
      else if cmd_state result = lit ''HELD'' \<and> cmd_user_id result = Some requested_user_id
      then ''seat is already held by this user''
      else if cmd_state result = lit ''HELD'' then ''seat is already held by another user''
      else ''seat is not available'')"

subsection \<open>Compensation\<close>

definition safe_release :: "'w app_env \<Rightarrow> ustr \<Rightarrow> ustr \<Rightarrow> ustr \<Rightarrow> (unit, 'w) act" where
  "safe_release env event_id seat_id user_id =
     (let log = (\<lambda>status. trace env ''REDIS'' ''RELEASE_SEAT'' status (Some event_id) (Some seat_id) (Some user_id))
      in act_try
        (act_bind (log ''START'' None) (\<lambda>_.
         act_bind (on_world (redis_seat_status (env_redis env) event_id seat_id)) (\<lambda>status.
           if seat_state status = lit ''HELD'' \<and> seat_user_id status = Some user_id
           then act_bind (on_world (redis_release_seat (env_redis env) event_id seat_id user_id)) (\<lambda>_.
             log ''SUCCESS'' None)
           else log ''SKIP'' (Some (lit ''state='' @ seat_state status)))))
        (\<lambda>_. log ''FAIL'' None))"

definition safe_expire :: "'w app_env \<Rightarrow> ustr \<Rightarrow> (unit, 'w) act" where
  "safe_expire env reservation_id =
     (let log = (\<lambda>status. trace env ''DB'' ''EXPIRE_RESERVATION'' status None None None (Some reservation_id))
      in act_try
        (act_bind (log ''START'') (\<lambda>_.
         act_bind (on_world (db_expire (env_db env) reservation_id)) (\<lambda>_. log ''SUCCESS'')))
        (\<lambda>_. log ''FAIL''))"

definition safe_cancel :: "'w app_env \<Rightarrow> ustr \<Rightarrow> ustr \<Rightarrow> ustr \<Rightarrow> ustr \<Rightarrow> (unit, 'w) act" where
  "safe_cancel env reservation_id event_id seat_id user_id =
     act_bind
       (act_try (act_bind (on_world (db_cancel (env_db env) reservation_id)) (\<lambda>_. act_return ()))
         (\<lambda>_. act_return ()))
       (\<lambda>_. safe_release env event_id seat_id user_id)"

subsection \<open>Holding a seat\<close>

record HoldResult =
  hold_reservation_view :: reservation_view
  hold_seat :: SeatView
  hold_created :: bool

definition hold_reservation ::
  "'w app_env \<Rightarrow> ustr \<Rightarrow> ustr \<Rightarrow> ustr \<Rightarrow> int \<Rightarrow> (HoldResult, 'w) act" where
  "hold_reservation env event_id seat_id user_id hold_seconds =
     (let log = (\<lambda>target action status. trace env target action status (Some event_id) (Some seat_id) (Some user_id))
      in act_bind (find_event_seat env event_id seat_id) (\<lambda>_.
         act_bind (log ''REDIS'' ''RESERVE_SEAT'' ''START'' None) (\<lambda>_.
         act_bind (on_world (redis_reserve_seat (env_redis env) event_id seat_id user_id hold_seconds)) (\<lambda>result.
           if \<not> cmd_success result
           then act_bind (log ''REDIS'' ''RESERVE_SEAT'' ''FAIL''
                  (Some (lit (seat_conflict_message result user_id)))) (\<lambda>_.
                act_raise (conflict (seat_conflict_message result user_id)))
           else
             act_bind (log ''REDIS'' ''RESERVE_SEAT'' ''SUCCESS'' (Some (lit ''ttl='' @ int_str (cmd_ttl result)))) (\<lambda>_.
             act_bind next_tick (\<lambda>n1. act_bind next_tick (\<lambda>n2. act_bind next_tick (\<lambda>n3.
               case hold_deadline env n3 hold_seconds of
                 None \<Rightarrow> act_raise DateOverflowError
               | Some deadline \<Rightarrow>
                   (let reservation_id = lit ''res-'' @ uuid4_hex env n1
                    in act_bind
                      (act_try
                        (act_bind (log ''DB'' ''CREATE_HELD'' ''START'' (Some reservation_id)) (\<lambda>_.
                         on_world (db_create_held (env_db env)
                           \<lparr>hr_reservation_id = reservation_id, hr_event_id = event_id, hr_seat_id = seat_id,
                            hr_user_id = user_id, hr_hold_token = lit ''hold-'' @ uuid4_hex env n2,
                            hr_expires_at = deadline\<rparr>)))
                        (\<lambda>err.
                         act_bind (log ''DB'' ''CREATE_HELD'' ''FAIL'' (Some reservation_id)) (\<lambda>_.
                         act_bind (safe_release env event_id seat_id user_id) (\<lambda>_. act_raise err))))
                      (\<lambda>(reservation, created).
                       act_bind (log ''DB'' ''CREATE_HELD'' ''SUCCESS'' (Some (res_id (fst reservation)))) (\<lambda>_.
                       act_bind (get_event_seat env event_id seat_id) (\<lambda>seat.
                         act_return \<lparr>hold_reservation_view = reservation, hold_seat = seat,
                           hold_created = created\<rparr>)))))))))))) "

subsection \<open>Confirming a reservation\<close>

definition MOCK_PAYMENT_PROVIDER :: ustr where
  "MOCK_PAYMENT_PROVIDER = lit ''mock-pay''"

definition REDIS_CONFIRM_RETRY_ATTEMPTS :: nat where
  "REDIS_CONFIRM_RETRY_ATTEMPTS = 3"

definition build_mock_payment :: "'w app_env \<Rightarrow> int \<Rightarrow> (ConfirmReservationRequest, 'w) act" where
  "build_mock_payment env amount =
     act_bind next_tick (\<lambda>n.
       (let payment_id = lit ''pay-'' @ uuid4_hex env n
        in act_return \<lparr>cr_payment_id = payment_id, cr_amount = amount,
             cr_provider = MOCK_PAYMENT_PROVIDER, cr_provider_ref = payment_id\<rparr>))"

text \<open>The retry loop with the attempts that are left and the last error.\<close>

fun finalize_loop ::
  "'w app_env \<Rightarrow> ustr \<Rightarrow> ustr \<Rightarrow> ustr \<Rightarrow> nat \<Rightarrow> client_exn option \<Rightarrow> (SeatCommandResult, 'w) act" where
  "finalize_loop env event_id seat_id user_id 0 last_error =
     act_raise (case last_error of
       None \<Rightarrow> upstream (lit ''Redis did not finalize the confirmed seat'')
     | Some err \<Rightarrow> err)"
| "finalize_loop env event_id seat_id user_id (Suc n) last_error =
     (let log = trace env ''REDIS'' ''FORCE_CONFIRM_SEAT'';
          logged = (\<lambda>status. log status (Some event_id) (Some seat_id) (Some user_id))
      in act_bind (logged ''START'' None) (\<lambda>_ s.
         case on_world (redis_force_confirm_seat (env_redis env) event_id seat_id user_id) s of
           (Inl (AppServerError (UpstreamError t)), s1) \<Rightarrow>
             act_bind (logged ''FAIL'' (Some t)) (\<lambda>_.
               finalize_loop env event_id seat_id user_id n (Some (AppServerError (UpstreamError t)))) s1
         | (Inl err, s1) \<Rightarrow> (Inl err, s1)
         | (Inr result, s1) \<Rightarrow>
             if cmd_state result = lit ''CONFIRMED'' \<and> cmd_user_id result = Some user_id
             then act_bind (logged ''SUCCESS'' None) (\<lambda>_. act_return result) s1
             else act_bind (logged ''FAIL'' (Some (lit ''state='' @ cmd_state result))) (\<lambda>_.
               finalize_loop env event_id seat_id user_id n (Some (upstream
                 (lit ''Redis returned an unexpected seat state during confirmation finalization'')))) s1))"

definition finalize_confirmed_seat ::
  "'w app_env \<Rightarrow> ustr \<Rightarrow> ustr \<Rightarrow> ustr \<Rightarrow> (SeatCommandResult, 'w) act" where
  "finalize_confirmed_seat env event_id seat_id user_id =
     finalize_loop env event_id seat_id user_id REDIS_CONFIRM_RETRY_ATTEMPTS None"

record ConfirmResult =
  confirm_reservation_view :: reservation_view
  confirm_seat_view :: SeatView
  confirm_payment :: ConfirmReservationRequest

definition app_confirm_reservation ::
  "'w app_env \<Rightarrow> ustr \<Rightarrow> ustr \<Rightarrow> ustr \<Rightarrow> ustr \<Rightarrow> (ConfirmResult, 'w) act" where
  "app_confirm_reservation env reservation_id event_id seat_id user_id =
     (let log = (\<lambda>target action status. trace env target action status (Some event_id) (Some seat_id) (Some user_id))
      in act_bind (find_event_seat env event_id seat_id) (\<lambda>seat.
         act_bind (log ''REDIS'' ''SEAT_STATUS'' ''START'' None) (\<lambda>_.
         act_bind (on_world (redis_seat_status (env_redis env) event_id seat_id)) (\<lambda>status.
         act_bind (log ''REDIS'' ''SEAT_STATUS'' ''SUCCESS'' (Some (lit ''state='' @ seat_state status))) (\<lambda>_.
           if seat_state status = lit ''AVAILABLE''
           then act_bind (safe_expire env reservation_id) (\<lambda>_. act_raise (conflict ''seat hold has already expired''))
           else if seat_user_id status \<noteq> Some user_id
           then act_raise (conflict ''seat is held by another user'')
           else if seat_state status \<noteq> lit ''HELD''
           then act_raise (AppServerError (ConflictError
                  (lit ''seat cannot be confirmed from state '' @ seat_state status)))
           else
             act_bind (build_mock_payment env (st_price (fst seat))) (\<lambda>payment.
             act_bind (log ''PAYMENT'' ''MOCK_APPROVE'' ''SUCCESS'' (Some (cr_payment_id payment))) (\<lambda>_.
             act_bind (log ''DB'' ''CONFIRM_RESERVATION'' ''START'' (Some reservation_id)) (\<lambda>_.
             act_bind (on_world (db_confirm (env_db env) reservation_id payment)) (\<lambda>reservation.
             act_bind (log ''DB'' ''CONFIRM_RESERVATION'' ''SUCCESS'' (Some reservation_id)) (\<lambda>_.
             act_bind (finalize_confirmed_seat env event_id seat_id user_id) (\<lambda>result.
               if cmd_state result \<noteq> lit ''CONFIRMED'' \<or> cmd_user_id result \<noteq> Some user_id
               then act_raise (upstream
                      (lit ''DB confirmed the reservation but Redis could not finalize the seat''))
               else act_bind (get_event_seat env event_id seat_id) (\<lambda>view.
                 act_return \<lparr>confirm_reservation_view = reservation, confirm_seat_view = view,
                   confirm_payment = payment\<rparr>))))))))))))"

subsection \<open>Cancelling and purchasing\<close>

definition app_cancel_reservation ::
  "'w app_env \<Rightarrow> ustr \<Rightarrow> ustr \<Rightarrow> ustr \<Rightarrow> ustr \<Rightarrow> (reservation_view \<times> SeatView, 'w) act" where
  "app_cancel_reservation env reservation_id event_id seat_id user_id =
     (let log = (\<lambda>status. trace env ''DB'' ''CANCEL_RESERVATION'' status (Some event_id) (Some seat_id)
                  (Some user_id) (Some reservation_id))
      in act_bind (log ''START'') (\<lambda>_.
         act_bind (on_world (db_cancel (env_db env) reservation_id)) (\<lambda>reservation.
         act_bind (log ''SUCCESS'') (\<lambda>_.
         act_bind (safe_release env event_id seat_id user_id) (\<lambda>_.
         act_bind (get_event_seat env event_id seat_id) (\<lambda>view. act_return (reservation, view)))))))"

definition purchase_seat ::
  "'w app_env \<Rightarrow> ustr \<Rightarrow> ustr \<Rightarrow> ustr \<Rightarrow> int \<Rightarrow> (ConfirmResult \<times> bool, 'w) act" where
  "purchase_seat env event_id seat_id user_id hold_seconds =
     act_bind (hold_reservation env event_id seat_id user_id hold_seconds) (\<lambda>hold.
       (let reservation_id = res_id (fst (hold_reservation_view hold))
        in act_bind
          (act_try (app_confirm_reservation env reservation_id event_id seat_id user_id)
            (\<lambda>err. act_bind (safe_cancel env reservation_id event_id seat_id user_id) (\<lambda>_. act_raise err)))
          (\<lambda>confirmed. act_return (confirmed, hold_created hold))))"

subsection \<open>Queues, listings and the log\<close>

definition app_join_queue :: "'w app_env \<Rightarrow> ustr \<Rightarrow> ustr \<Rightarrow> (QueueJoinResult, 'w) act" where
  "app_join_queue env event_id user_id = on_world (redis_join_queue (env_redis env) event_id user_id)"

definition app_queue_position :: "'w app_env \<Rightarrow> ustr \<Rightarrow> ustr \<Rightarrow> (QueuePositionResult, 'w) act" where
  "app_queue_position env event_id user_id = on_world (redis_queue_position (env_redis env) event_id user_id)"

definition app_leave_queue :: "'w app_env \<Rightarrow> ustr \<Rightarrow> ustr \<Rightarrow> (QueueLeaveResult, 'w) act" where
  "app_leave_queue env event_id user_id = on_world (redis_leave_queue (env_redis env) event_id user_id)"

definition app_peek_queue :: "'w app_env \<Rightarrow> ustr \<Rightarrow> (QueueFrontResult, 'w) act" where
  "app_peek_queue env event_id = on_world (redis_peek_queue (env_redis env) event_id)"

definition app_list_events :: "'w app_env \<Rightarrow> (EventRow list, 'w) act" where
  "app_list_events env = on_world (db_list_events (env_db env))"

definition app_list_user_reservations :: "'w app_env \<Rightarrow> ustr \<Rightarrow> (reservation_view list, 'w) act" where
  "app_list_user_reservations env user_id = on_world (db_list_user_reservations (env_db env) user_id)"

definition list_orchestration_logs :: "int \<Rightarrow> (OrchestrationLogEntry list, 'w) act" where
  "list_orchestration_logs limit s = (Inr (log_list_entries limit (app_log s)), s)"

definition clear_orchestration_logs :: "(unit, 'w) act" where
  "clear_orchestration_logs s = (Inr (), s\<lparr>app_log := log_clear (app_log s)\<rparr>)"

end
