(* ===== verification/Reconciler.thy ===== *)
theory Reconciler
  imports App_Service
begin

section \<open>The reconciler (\<open>app_server/reconciler.py\<close>)\<close>

text \<open>
  One pass of the worker that repairs the seat store: stale holds of the database are expired
  and released, and every confirmed reservation is confirmed in the seat store. The database
  service is called directly; its errors end the pass. Errors of the seat store are written to
  the report, by their texts.
\<close>

record ReconciliationReport =
  expired_reservation_ids :: "ustr list"
  repaired_reservation_ids :: "ustr list"
  report_errors :: "ustr list"

definition new_report :: ReconciliationReport where
  "new_report = \<lparr>expired_reservation_ids = [], repaired_reservation_ids = [], report_errors = []\<rparr>"

datatype pass_error = PassServiceError svc_error | PassAttributeError

record 'w reconcile_env =
  rec_redis :: "'w redis_api"
  rec_expire_stale :: "int \<Rightarrow> 'w \<Rightarrow> (svc_error + reservation_view option list) \<times> 'w"
  rec_list_confirmed :: "int option \<Rightarrow> 'w \<Rightarrow> (svc_error + ReservationRow list) \<times> 'w"
  exn_text :: "client_exn \<Rightarrow> ustr"

text \<open>The body of the first loop inside its \<open>try\<close>.\<close>

definition release_stale :: "'w redis_api \<Rightarrow> ReservationRow \<Rightarrow> 'w \<Rightarrow> (client_exn + unit) \<times> 'w" where
  "release_stale api r w =
     (case redis_seat_status api (res_event_id r) (res_seat_id r) w of
        (Inl e, w1) \<Rightarrow> (Inl e, w1)
      | (Inr status, w1) \<Rightarrow>
          if seat_state status = lit ''HELD'' \<and> seat_user_id status = Some (res_user_id r)
          then (case redis_release_seat api (res_event_id r) (res_seat_id r) (res_user_id r) w1 of
                  (Inl e, w2) \<Rightarrow> (Inl e, w2)
                | (Inr _, w2) \<Rightarrow> (Inr (), w2))
          else (Inr (), w1))"

fun release_holds ::
  "'w reconcile_env \<Rightarrow> reservation_view option list \<Rightarrow> ReconciliationReport \<Rightarrow> 'w \<Rightarrow>
     (pass_error + ReconciliationReport) \<times> 'w" where
  "release_holds env [] report w = (Inr report, w)"
| "release_holds env (None # rest) report w = (Inl PassAttributeError, w)"
| "release_holds env (Some v # rest) report w =
     (let report1 = report\<lparr>expired_reservation_ids := expired_reservation_ids report @ [res_id (fst v)]\<rparr>
      in case release_stale (rec_redis env) (fst v) w of
           (Inl e, w1) \<Rightarrow>
             release_holds env rest
               (report1\<lparr>report_errors := report_errors report1 @
                  [lit ''expire release failed for '' @ res_id (fst v) @ lit '': '' @ exn_text env e]\<rparr>) w1
         | (Inr _, w1) \<Rightarrow> release_holds env rest report1 w1)"

definition expire_stale_holds ::
  "'w reconcile_env \<Rightarrow> int \<Rightarrow> ReconciliationReport \<Rightarrow> 'w \<Rightarrow> (pass_error + ReconciliationReport) \<times> 'w" where
  "expire_stale_holds env limit report w =
     (case rec_expire_stale env limit w of
        (Inl e, w1) \<Rightarrow> (Inl (PassServiceError e), w1)
      | (Inr expired, w1) \<Rightarrow> release_holds env expired report w1)"

text \<open>The body of the second loop: what it appends to the repaired identifiers and the errors.\<close>

definition repair_seat ::
  "'w reconcile_env \<Rightarrow> ReservationRow \<Rightarrow> ReconciliationReport \<Rightarrow> 'w \<Rightarrow> ReconciliationReport \<times> 'w" where
  "repair_seat env r report w =
     (let failed = (\<lambda>e. report\<lparr>report_errors := report_errors report @
            [lit ''confirm repair failed for '' @ res_id r @ lit '': '' @ exn_text env e]\<rparr>)
      in case redis_seat_status (rec_redis env) (res_event_id r) (res_seat_id r) w of
           (Inl e, w1) \<Rightarrow> (failed e, w1)
         | (Inr status, w1) \<Rightarrow>
             if seat_state status = lit ''CONFIRMED'' \<and> seat_user_id status = Some (res_user_id r)
             then (report, w1)
             else
               (case redis_force_confirm_seat (rec_redis env) (res_event_id r) (res_seat_id r) (res_user_id r) w1 of
                  (Inl e, w2) \<Rightarrow> (failed e, w2)
                | (Inr result, w2) \<Rightarrow>
                    if cmd_state result = lit ''CONFIRMED'' \<and> cmd_user_id result = Some (res_user_id r)
                    then (report\<lparr>repaired_reservation_ids := repaired_reservation_ids report @ [res_id r]\<rparr>, w2)
                    else (report\<lparr>report_errors := report_errors report @
                           [lit ''confirm repair returned unexpected state for '' @ res_id r]\<rparr>, w2)))"

fun repair_seats ::
  "'w reconcile_env \<Rightarrow> ReservationRow list \<Rightarrow> ReconciliationReport \<Rightarrow> 'w \<Rightarrow> ReconciliationReport \<times> 'w" where
  "repair_seats env [] report w = (report, w)"
| "repair_seats env (r # rest) report w =
     (case repair_seat env r report w of (report1, w1) \<Rightarrow> repair_seats env rest report1 w1)"

definition repair_confirmed_seats ::
  "'w reconcile_env \<Rightarrow> int \<Rightarrow> ReconciliationReport \<Rightarrow> 'w \<Rightarrow> (pass_error + ReconciliationReport) \<times> 'w" where
  "repair_confirmed_seats env limit report w =
     (case rec_list_confirmed env (Some limit) w of
        (Inl e, w1) \<Rightarrow> (Inl (PassServiceError e), w1)
      | (Inr confirmed, w1) \<Rightarrow>
          (case repair_seats env confirmed report w1 of (report1, w2) \<Rightarrow> (Inr report1, w2)))"

definition run_once :: "'w reconcile_env \<Rightarrow> int \<Rightarrow> 'w \<Rightarrow> (pass_error + ReconciliationReport) \<times> 'w" where
  "run_once env limit w =
     (case expire_stale_holds env limit new_report w of
        (Inl e, w1) \<Rightarrow> (Inl e, w1)
      | (Inr report, w1) \<Rightarrow> repair_confirmed_seats env limit report w1)"

end
