(* ===== verification/Seat_Service.thy ===== *)
theory Seat_Service
  imports Reconciler Remote_Calls Storage_Properties
begin

section \<open>The seat store as the application server sees it\<close>

text \<open>
  \<open>seat_service\<close> is what the flows and the reconciler rely on: a client whose seat calls
  behave like the abstract seat machine, one machine per seat, at times that do not decrease.
  The interpretation discharges it for the RESP client over the command handler.
\<close>

subsection \<open>The RESP client over the command handler\<close>

definition redis_of :: "'w executor \<Rightarrow> 'w redis_api" where
  "redis_of exec =
     \<lparr>redis_seat_status = client_seat_status exec, redis_reserve_seat = client_reserve_seat exec,
      redis_confirm_seat = client_confirm_seat exec, redis_force_confirm_seat = client_force_confirm_seat exec,
      redis_release_seat = client_release_seat exec, redis_join_queue = client_join_queue exec,
      redis_queue_position = client_queue_position exec, redis_leave_queue = client_leave_queue exec,
      redis_peek_queue = client_peek_queue exec\<rparr>"

text \<open>
  A call without the network: the handler runs at the next reading of the clock and the client
  sees its result (\<open>remote_exec_local\<close> relates it to the bytes on the wire).
\<close>

definition local_exec ::
  "(nat \<Rightarrow> rat) \<Rightarrow> (nat \<times> StorageEngine \<Rightarrow> ustr list \<Rightarrow> py_error \<Rightarrow> ustr) \<Rightarrow> (nat \<times> StorageEngine) executor" where
  "local_exec clock lib tokens w =
     (client_view (lib w tokens) (fst (handle_command (clock (fst w)) tokens (snd w))),
      Suc (fst w), snd (handle_command (clock (fst w)) tokens (snd w)))"

lemma remote_is_local:
  assumes "request_ok c" and "cuts chunk1" and "cuts chunk2" and "library_texts_ok lib"
    and "\<And>r. fst (handle_command (clock (fst w)) c (snd w)) = Inr r \<Longrightarrow> result_wire r"
  shows "remote_exec (Suc (Suc d)) chunk1 chunk2 clock lib c w = local_exec clock lib c w"
  using remote_exec_local [where clock = clock and k = "fst w" and s = "snd w", OF assms]
  by (simp add: local_exec_def)

subsection \<open>The contract\<close>

type_synonym seat_map = "ustr \<Rightarrow> ustr \<Rightarrow> seat"

definition put_seat :: "ustr \<Rightarrow> ustr \<Rightarrow> seat \<Rightarrow> seat_map \<Rightarrow> seat_map" where
  "put_seat e s a m = m(e := (m e)(s := a))"

lemma put_seat_get [simp]: "put_seat e s a m e' s' = (if e' = e \<and> s' = s then a else m e' s')"
  by (simp add: put_seat_def)

text \<open>The call of the client for an operation on a seat that answers with a command result.\<close>

fun seat_call ::
  "'w redis_api \<Rightarrow> ustr \<Rightarrow> ustr \<Rightarrow> seat_op \<Rightarrow> 'w \<Rightarrow> (client_exn + SeatCommandResult) \<times> 'w" where
  "seat_call api e s (OpReserve u h) = redis_reserve_seat api e s u h"
| "seat_call api e s (OpConfirm u) = redis_confirm_seat api e s u"
| "seat_call api e s (OpForce u) = redis_force_confirm_seat api e s u"
| "seat_call api e s (OpRelease u) = redis_release_seat api e s u"
| "seat_call api e s OpStatus = (\<lambda>w. (Inl RecursionError, w))"

fun call_ok :: "seat_op \<Rightarrow> bool" where
  "call_ok (OpReserve u h) = (user_ok u \<and> 0 < h \<and> printable (nat h))"
| "call_ok (OpConfirm u) = user_ok u"
| "call_ok (OpForce u) = user_ok u"
| "call_ok (OpRelease u) = user_ok u"
| "call_ok OpStatus = False"

text \<open>The seats after a list of reservations has been confirmed.\<close>

definition seat_id_of :: "ReservationRow \<Rightarrow> ustr \<times> ustr" where
  "seat_id_of r = (res_event_id r, res_seat_id r)"

fun confirm_all :: "ReservationRow list \<Rightarrow> seat_map \<Rightarrow> seat_map" where
  "confirm_all [] m = m"
| "confirm_all (r # rs) m = confirm_all rs (put_seat (res_event_id r) (res_seat_id r) (Confirmed (res_user_id r)) m)"

lemma confirm_all_other: "(e, s) \<notin> seat_id_of ` set rs \<Longrightarrow> confirm_all rs m e s = m e s"
  by (induction rs arbitrary: m) (auto simp: seat_id_of_def)

lemma confirm_all_member:
  assumes "distinct (map seat_id_of rs)" and "r \<in> set rs"
  shows "confirm_all rs m (res_event_id r) (res_seat_id r) = Confirmed (res_user_id r)"
  using assms
proof (induction rs arbitrary: m)
  case (Cons x rs)
  show ?case
  proof (cases "r = x")
    case True
    then have "(res_event_id r, res_seat_id r) \<notin> seat_id_of ` set rs"
      using Cons.prems(1) by (auto simp: seat_id_of_def)
    then show ?thesis using True by (simp add: confirm_all_other)
  next
    case False
    then show ?thesis using Cons by simp
  qed
qed simp

locale seat_service =
  fixes api :: "'w redis_api"
    and now :: "'w \<Rightarrow> rat"
    and shows_seats :: "'w \<Rightarrow> seat_map \<Rightarrow> bool"
    and named :: "ustr \<Rightarrow> bool"
  assumes status_call: "shows_seats w m \<Longrightarrow> named e \<Longrightarrow>
      \<exists>w'. redis_seat_status api e s w = (Inr (abs_status (now w) (age (now w) (m e s))), w') \<and> shows_seats w' m \<and>
           now w \<le> now w'"
    and op_call: "shows_seats w m \<Longrightarrow> named e \<Longrightarrow> call_ok oper \<Longrightarrow>
      fst (abs_step (now w) oper (m e s)) = Inr x \<Longrightarrow>
      \<exists>w'. seat_call api e s oper w = (Inr (seat_command_of x), w') \<and>
           shows_seats w' (put_seat e s (snd (abs_step (now w) oper (m e s))) m) \<and> now w \<le> now w'"
begin

lemma force_call:
  assumes "shows_seats w m" and "named e" and "user_ok u"
  shows "\<exists>w'. redis_force_confirm_seat api e s u w =
      (Inr \<lparr>cmd_success = True, cmd_state = lit ''CONFIRMED'', cmd_user_id = Some u, cmd_ttl = - 1\<rparr>, w') \<and>
    shows_seats w' (put_seat e s (Confirmed u) m)"
  using op_call [OF assms(1,2), of "OpForce u" s] assms(3)
  by (auto simp: abs_step_def seat_command_of_def SEAT_CONFIRMED_def)

lemma release_call:
  assumes "shows_seats w m" and "named e" and "user_ok u"
  shows "\<exists>r w' m'. redis_release_seat api e s u w = (Inr r, w') \<and> shows_seats w' m'"
proof -
  have "\<exists>x. fst (abs_step (now w) (OpRelease u) (m e s)) = Inr x"
    by (cases "age (now w) (m e s)") (simp_all add: abs_step_def ex_bool_eq)
  then obtain x where "fst (abs_step (now w) (OpRelease u) (m e s)) = Inr x" ..
  from op_call [OF assms(1,2) _ this] assms(3) show ?thesis by auto
qed

lemma release_one:
  assumes "shows_seats w m" and "named (res_event_id r)" and "user_ok (res_user_id r)"
  shows "\<exists>w' m'. release_stale api r w = (Inr (), w') \<and> shows_seats w' m'"
proof -
  obtain st w1 where st: "redis_seat_status api (res_event_id r) (res_seat_id r) w = (Inr st, w1)"
    and w1: "shows_seats w1 m" using status_call [OF assms(1,2)] by blast
  show ?thesis
    using st w1 release_call [OF w1 assms(2,3), of "res_seat_id r"] by (auto simp: release_stale_def)
qed

lemma release_all:
  assumes "shows_seats w m" and "\<forall>v\<in>set vs. named (res_event_id (fst v)) \<and> user_ok (res_user_id (fst v))"
    and "rec_redis env = api"
  shows "\<exists>report' w' m'. release_holds env (map Some vs) report w = (Inr report', w') \<and> shows_seats w' m' \<and>
    report_errors report' = report_errors report \<and>
    expired_reservation_ids report' = expired_reservation_ids report @ map (\<lambda>v. res_id (fst v)) vs \<and>
    repaired_reservation_ids report' = repaired_reservation_ids report"
  using assms(1,2)
proof (induction vs arbitrary: w m report)
  case Nil
  then show ?case by auto
next
  case (Cons v vs)
  obtain w1 m1 where one: "release_stale api (fst v) w = (Inr (), w1)" "shows_seats w1 m1"
    using release_one [OF Cons.prems(1), of "fst v"] Cons.prems(2) by (metis list.set_intros(1))
  have "\<forall>v\<in>set vs. named (res_event_id (fst v)) \<and> user_ok (res_user_id (fst v))" using Cons.prems(2) by simp
  from Cons.IH [OF one(2) this, of "report\<lparr>expired_reservation_ids := expired_reservation_ids report @ [res_id (fst v)]\<rparr>"]
  show ?case using one(1) by (auto simp: assms(3))
qed

lemma repair_one:
  assumes "shows_seats w m" and "named (res_event_id r)" and "user_ok (res_user_id r)"
    and "rec_redis env = api"
  shows "\<exists>w' report'. repair_seat env r report w = (report', w') \<and>
    shows_seats w' (put_seat (res_event_id r) (res_seat_id r) (Confirmed (res_user_id r)) m) \<and>
    report_errors report' = report_errors report \<and>
    repaired_reservation_ids report' = repaired_reservation_ids report @
      (if m (res_event_id r) (res_seat_id r) = Confirmed (res_user_id r) then [] else [res_id r])"
proof -
  let ?e = "res_event_id r" and ?s = "res_seat_id r" and ?u = "res_user_id r"
  obtain w1 where st: "redis_seat_status api ?e ?s w = (Inr (abs_status (now w) (age (now w) (m ?e ?s))), w1)"
    and w1: "shows_seats w1 m" using status_call [OF assms(1,2)] by blast
  have already: "seat_state (abs_status t (age t a)) = lit ''CONFIRMED'' \<and>
      seat_user_id (abs_status t (age t a)) = Some u \<longleftrightarrow> a = Confirmed u" for t a u
    by (cases a) (auto simp: seat_names)
  show ?thesis
  proof (cases "m ?e ?s = Confirmed ?u")
    case True
    then have "put_seat ?e ?s (Confirmed ?u) m = m" by (auto simp: fun_eq_iff)
    then show ?thesis
      using st w1 already [of "now w" "m ?e ?s" ?u] True by (simp add: repair_seat_def assms(4))
  next
    case False
    then show ?thesis
      using st force_call [OF w1 assms(2,3), of ?s] already [of "now w" "m ?e ?s" ?u]
      by (auto simp: repair_seat_def assms(4))
  qed
qed

lemma repair_all:
  assumes "shows_seats w m" and "\<forall>r\<in>set rs. named (res_event_id r) \<and> user_ok (res_user_id r)"
    and "rec_redis env = api" and "distinct (map seat_id_of rs)"
  shows "\<exists>w' report'. repair_seats env rs report w = (report', w') \<and> shows_seats w' (confirm_all rs m) \<and>
    report_errors report' = report_errors report \<and>
    repaired_reservation_ids report' = repaired_reservation_ids report @
      map res_id (filter (\<lambda>r. m (res_event_id r) (res_seat_id r) \<noteq> Confirmed (res_user_id r)) rs)"
  using assms(1,2,4)
proof (induction rs arbitrary: w m report)
  case Nil
  then show ?case by auto
next
  case (Cons r rs)
  let ?m = "put_seat (res_event_id r) (res_seat_id r) (Confirmed (res_user_id r)) m"
  obtain w1 report1 where one: "repair_seat env r report w = (report1, w1)" "shows_seats w1 ?m"
    "report_errors report1 = report_errors report"
    "repaired_reservation_ids report1 = repaired_reservation_ids report @
      (if m (res_event_id r) (res_seat_id r) = Confirmed (res_user_id r) then [] else [res_id r])"
    using repair_one [of w m r env report] Cons.prems assms(3) by auto
  have new: "seat_id_of x \<noteq> seat_id_of r" if "x \<in> set rs" for x using Cons.prems(3) that by (auto simp: image_iff)
  have same: "filter (\<lambda>x. ?m (res_event_id x) (res_seat_id x) \<noteq> Confirmed (res_user_id x)) rs =
      filter (\<lambda>x. m (res_event_id x) (res_seat_id x) \<noteq> Confirmed (res_user_id x)) rs"
    using new by (intro filter_cong) (auto simp: seat_id_of_def)
  obtain w' report' where rest: "repair_seats env rs report1 w1 = (report', w')" "shows_seats w' (confirm_all rs ?m)"
    "report_errors report' = report_errors report1"
    "repaired_reservation_ids report' = repaired_reservation_ids report1 @
      map res_id (filter (\<lambda>x. ?m (res_event_id x) (res_seat_id x) \<noteq> Confirmed (res_user_id x)) rs)"
  proof -
    have "\<forall>r\<in>set rs. named (res_event_id r) \<and> user_ok (res_user_id r)" "distinct (map seat_id_of rs)"
      using Cons.prems by simp_all
    from Cons.IH [OF one(2) this, of report1] that show ?thesis by blast
  qed
  show ?case using one rest unfolding same by auto
qed

end

subsection \<open>The contract holds for the RESP client\<close>

text \<open>Event names without a colon, so that the keys of different seats differ.\<close>

definition plain :: "ustr \<Rightarrow> bool" where
  "plain e \<longleftrightarrow> 58 \<notin> set e"

definition engine_shows :: "(nat \<Rightarrow> rat) \<Rightarrow> nat \<times> StorageEngine \<Rightarrow> seat_map \<Rightarrow> bool" where
  "engine_shows clock w m \<longleftrightarrow>
     mono clock \<and> (\<forall>e s. plain e \<longrightarrow> seat_rep e s (clock (fst w)) (snd w) (m e s))"

lemma seat_keys_differ: "plain e \<Longrightarrow> plain e' \<Longrightarrow> seat_key e s = seat_key e' s' \<Longrightarrow> e = e' \<and> s = s'"
  using split_at_colon [of e s e' s'] by (simp add: seat_key_expand plain_def)

lemma engine_clock: "engine_shows clock w m \<Longrightarrow> clock (fst w) \<le> clock (Suc (fst w))"
  by (simp add: engine_shows_def monoD)

lemma engine_shows_step:
  assumes "engine_shows clock (k, s) m" and "plain e" and "seat_sim e st (clock k) s c a"
  shows "engine_shows clock (Suc k, snd c) (put_seat e st (snd a) m)"
  unfolding engine_shows_def
proof (intro conjI allI impI)
  show "mono clock" using assms(1) by (simp add: engine_shows_def)
  then have later: "clock k \<le> clock (Suc k)" by (simp add: monoD)
  fix e' st' assume plain: "plain e'"
  have rep: "seat_rep e' st' (clock k) s (m e' st')" using assms(1) plain by (simp add: engine_shows_def)
  have "seat_rep e' st' (clock k) (snd c) (put_seat e st (snd a) m e' st')"
  proof (cases "e' = e \<and> st' = st")
    case True
    then show ?thesis using assms(3) by (simp add: seat_sim_def)
  next
    case False
    then have "seat_key e' st' \<noteq> seat_key e st" using seat_keys_differ [OF plain assms(2)] by blast
    then have "lookup_key (snd c) (seat_key e' st') = lookup_key s (seat_key e' st')"
      using assms(3) by (simp add: seat_sim_def)
    then have "live (clock k) (snd c) (seat_key e' st') = live (clock k) s (seat_key e' st')"
      by (simp add: live_def)
    then show ?thesis using rep False by (auto simp: seat_rep_def)
  qed
  then show "seat_rep e' st' (clock (fst (Suc k, snd c))) (snd (Suc k, snd c)) (put_seat e st (snd a) m e' st')"
    using seat_rep_later later by simp
qed

lemma handle_seat_op:
  assumes "call_ok oper"
  shows "seat_call (redis_of exec) e st oper =
    call_for_array exec
      (case oper of
         OpReserve u h \<Rightarrow> [lit ''RESERVE_SEAT'', e, st, u, int_str h]
       | OpConfirm u \<Rightarrow> [lit ''CONFIRM_SEAT'', e, st, u]
       | OpForce u \<Rightarrow> [lit ''FORCE_CONFIRM_SEAT'', e, st, u]
       | OpRelease u \<Rightarrow> [lit ''RELEASE_SEAT'', e, st, u]
       | OpStatus \<Rightarrow> []) 4 decode_seat_command"
  using assms
  by (cases oper) (simp_all add: redis_of_def client_reserve_seat_def client_confirm_seat_def
      client_force_confirm_seat_def client_release_seat_def)

lemma handled_seat_op:
  assumes "call_ok oper"
  shows "handle_command now
      (case oper of
         OpReserve u h \<Rightarrow> [lit ''RESERVE_SEAT'', e, st, u, int_str h]
       | OpConfirm u \<Rightarrow> [lit ''CONFIRM_SEAT'', e, st, u]
       | OpForce u \<Rightarrow> [lit ''FORCE_CONFIRM_SEAT'', e, st, u]
       | OpRelease u \<Rightarrow> [lit ''RELEASE_SEAT'', e, st, u]
       | OpStatus \<Rightarrow> []) s =
    answer seat_operation_result (engine_seat_op e st now oper s)"
  using assms handle_reserve
  by (cases oper) (simp_all add: handle_confirm handle_dispatch(8) [OF validate_seat(3)]
      handle_dispatch(9) [OF validate_seat(4)])

lemma local_seat_call:
  assumes "call_ok oper" and "fst (engine_seat_op e st (clock k) oper s) = Inr x"
  shows "seat_call (redis_of (local_exec clock lib)) e st oper (k, s) =
    (Inr (seat_command_of x), Suc k, snd (engine_seat_op e st (clock k) oper s))"
  using decode_seat_reply [of x] assms
  by (simp add: handle_seat_op call_for_array_def local_exec_def handled_seat_op client_view_def answer_def
      and_then_def)

lemma local_status_call:
  assumes "fst (seat_status (clock k) e st s) = Inr x"
  shows "redis_seat_status (redis_of (local_exec clock lib)) e st (k, s) =
    (Inr x, Suc k, snd (seat_status (clock k) e st s))"
  using decode_status_reply [of x] assms handle_dispatch(10) [OF validate_seat(5), of "clock k" e st s]
  by (simp add: redis_of_def client_seat_status_def call_for_array_def local_exec_def client_view_def answer_def
      and_then_def)

interpretation engine_seats: seat_service "redis_of (local_exec clock lib)" "\<lambda>w. clock (fst w)" "engine_shows clock" plain
  for clock lib
proof
  fix w m e s
  assume shown: "engine_shows clock w m" and plain: "plain e"
  obtain k st where w: "w = (k, st)" by (cases w)
  have rep: "seat_rep e s (clock k) st (m e s)" using shown plain w by (simp add: engine_shows_def)
  let ?r = "seat_status (clock k) e s st"
  have q: "seat_status_by_key (clock k) (seat_key e s) st = (fst ?r, snd ?r)" by (simp add: seat_status_def)
  note step = status_step [OF rep q]
  have "seat_sim e s (clock k) st (Inr (False, abs_status 0 Available), snd ?r) (Inr (False, abs_status 0 Available), m e s)"
    using step(2,3) rep unfolding seat_sim_def by (auto simp: seat_rep_def)
  from engine_shows_step [OF shown [unfolded w] plain this]
  have "engine_shows clock (Suc k, snd ?r) (put_seat e s (m e s) m)" by simp
  moreover have "put_seat e s (m e s) m = m" by (simp add: put_seat_def)
  ultimately show "\<exists>w'. redis_seat_status (redis_of (local_exec clock lib)) e s w =
      (Inr (abs_status (clock (fst w)) (age (clock (fst w)) (m e s))), w') \<and> engine_shows clock w' m \<and>
      clock (fst w) \<le> clock (fst w')"
    using local_status_call [of clock k e s st _ lib] step(1) w engine_clock [OF shown] by auto
next
  fix w m e oper s x
  assume shown: "engine_shows clock w m" and plain: "plain e" and ok: "call_ok oper"
    and res: "fst (abs_step (clock (fst w)) oper (m e s)) = Inr x"
  obtain k st where w: "w = (k, st)" by (cases w)
  have rep: "seat_rep e s (clock k) st (m e s)" using shown plain w by (simp add: engine_shows_def)
  have "op_wf oper" using ok by (cases oper) simp_all
  then have sim: "seat_sim e s (clock k) st (engine_seat_op e s (clock k) oper st) (abs_step (clock k) oper (m e s))"
    using seat_op_sim [OF rep] by (simp add: abs_step_def)
  then have "fst (engine_seat_op e s (clock k) oper st) = Inr x" using res w by (simp add: seat_sim_def)
  from local_seat_call [where clock = clock and k = k and lib = lib, OF ok this] engine_shows_step [OF shown [unfolded w] plain sim]
  show "\<exists>w'. seat_call (redis_of (local_exec clock lib)) e s oper w = (Inr (seat_command_of x), w') \<and>
      engine_shows clock w' (put_seat e s (snd (abs_step (clock (fst w)) oper (m e s))) m) \<and>
      clock (fst w) \<le> clock (fst w')"
    using w engine_clock [OF shown] by simp
qed

end
