(* ===== verification/Db_Client.thy ===== *)
theory Db_Client
  imports Ticketing_Service Redis_Client
begin

section \<open>The database over HTTP (\<open>app_server/db_client.py\<close>, \<open>ticketing_api/app.py\<close>)\<close>

text \<open>
  The database service answers with JSON: its exception handlers turn \<open>NotFoundError\<close> and
  \<open>ConflictError\<close> into the statuses 404 and 409 with the message as the detail. The client
  turns the statuses back into exceptions. How the web framework renders JSON, and how it
  answers an exception that no handler catches, are arguments.
\<close>

record http_response =
  status_code :: nat
  resp_text :: ustr
  resp_json :: "json option"

record web_framework =
  render_json :: "json \<Rightarrow> ustr"
  unhandled_response :: http_response

text \<open>\<open>JSONResponse(status_code=..., content={"detail": str(exc)})\<close>.\<close>

definition detail_response :: "web_framework \<Rightarrow> nat \<Rightarrow> ustr \<Rightarrow> http_response" where
  "detail_response web code t =
     (let body = JObj [(lit ''detail'', JStr t)]
      in \<lparr>status_code = code, resp_text = render_json web body, resp_json = Some body\<rparr>)"

definition service_response :: "web_framework \<Rightarrow> svc_error \<Rightarrow> http_response" where
  "service_response web err =
     (case err of
        SvcNotFound t \<Rightarrow> detail_response web 404 t
      | SvcConflict t \<Rightarrow> detail_response web 409 t
      | SvcIntegrityError \<Rightarrow> unhandled_response web)"

definition extract_detail :: "http_response \<Rightarrow> ustr" where
  "extract_detail response =
     (let fallback = (if py_strip (resp_text response) = [] then lit ''unknown DB error''
                      else py_strip (resp_text response))
      in case resp_json response of
           Some (JObj kvs) \<Rightarrow>
             (case json_get kvs (lit ''detail'') of JStr t \<Rightarrow> t | _ \<Rightarrow> fallback)
         | _ \<Rightarrow> fallback)"

text \<open>\<open>_request\<close> after the HTTP call, which may fail with an exception of the given text.\<close>

definition db_request :: "ustr + http_response \<Rightarrow> client_exn + http_response" where
  "db_request outcome =
     (case outcome of
        Inl t \<Rightarrow> Inl (upstream (lit ''DB request failed: '' @ t))
      | Inr response \<Rightarrow>
          if status_code response \<in> {200, 201} then Inr response
          else if status_code response = 404
          then Inl (AppServerError (NotFoundError (extract_detail response)))
          else if status_code response = 409
          then Inl (AppServerError (ConflictError (extract_detail response)))
          else Inl (upstream (lit ''DB request failed with status '' @ nat_str (status_code response) @
                 lit '': '' @ extract_detail response)))"

text \<open>The exception that reaches the application server for an error of the service.\<close>

definition client_error :: "web_framework \<Rightarrow> svc_error \<Rightarrow> client_exn" where
  "client_error web err =
     (case db_request (Inr (service_response web err)) of Inl e \<Rightarrow> e | Inr _ \<Rightarrow> upstream [])"

lemma client_error_simps [simp]:
  "client_error web (SvcNotFound t) = AppServerError (NotFoundError t)"
  "client_error web (SvcConflict t) = AppServerError (ConflictError t)"
  by (simp_all add: client_error_def service_response_def db_request_def detail_response_def
      extract_detail_def json_get_def Let_def)

end
