(* ===== verification/Ticketing_System.thy ===== *)
theory Ticketing_System
  imports Seat_Service Db_Client Ticketing_Sweep
begin

section \<open>The application server over both stores\<close>

text \<open>
  The flows and the reconciler are run on the models of the seat store and of the database
  service. Each store has its own clock; the counter of a clock advances by the readings that a
  call can make. A flow is run without calls of other clients in between. Identifiers are taken
  to travel unchanged in the paths of the HTTP requests: the client does not escape them.
\<close>

record system =
  sys_redis :: "nat \<times> StorageEngine"
  sys_db :: TicketingDb
  sys_db_ticks :: nat

record system_env =
  redis_clock :: "nat \<Rightarrow> rat"
  redis_texts :: "nat \<times> StorageEngine \<Rightarrow> ustr list \<Rightarrow> py_error \<Rightarrow> ustr"
  db_clock :: "nat \<Rightarrow> ustr"
  web :: web_framework

definition on_redis :: "(nat \<times> StorageEngine \<Rightarrow> 'a \<times> (nat \<times> StorageEngine)) \<Rightarrow> system \<Rightarrow> 'a \<times> system" where
  "on_redis f w = (case f (sys_redis w) of (r, w1) \<Rightarrow> (r, w\<lparr>sys_redis := w1\<rparr>))"

definition system_redis :: "system_env \<Rightarrow> system redis_api" where
  "system_redis env =
     redis_of (\<lambda>tokens. on_redis (local_exec (redis_clock env) (redis_texts env) tokens))"

text \<open>A call of the database service that reads the clock \<open>n\<close> times.\<close>

definition on_db ::
  "nat \<Rightarrow> (nat \<Rightarrow> TicketingDb \<Rightarrow> (svc_error + 'a) \<times> TicketingDb) \<Rightarrow> system \<Rightarrow> (svc_error + 'a) \<times> system" where
  "on_db n f w =
     (case f (sys_db_ticks w) (sys_db w) of
        (r, d) \<Rightarrow> (r, w\<lparr>sys_db := d, sys_db_ticks := sys_db_ticks w + n\<rparr>))"

definition over_http :: "system_env \<Rightarrow> (svc_error + 'a) \<times> system \<Rightarrow> (client_exn + 'a) \<times> system" where
  "over_http env r = (case fst r of Inl e \<Rightarrow> Inl (client_error (web env) e) | Inr x \<Rightarrow> Inr x, snd r)"

text \<open>A reservation that is missing from the answer is not a valid response.\<close>

definition some_view :: "system_env \<Rightarrow> (client_exn + 'a option) \<times> system \<Rightarrow> (client_exn + 'a) \<times> system" where
  "some_view env r =
     (case fst r of
        Inl e \<Rightarrow> Inl e
      | Inr None \<Rightarrow> Inl (client_error (web env) SvcIntegrityError)
      | Inr (Some v) \<Rightarrow> Inr v, snd r)"

definition no_payment :: CancelReservationRequest where
  "no_payment = \<lparr>cx_payment_id = None, cx_payment_status = None, cx_amount = None, cx_provider = None,
     cx_provider_ref = None\<rparr>"

definition system_db :: "system_env \<Rightarrow> system db_api" where
  "system_db env =
     (let t = db_clock env
      in \<lparr>db_list_events = (\<lambda>w. (Inr (list_events (sys_db w)), w)),
          db_list_event_seats = (\<lambda>e w. over_http env (on_db 1 (\<lambda>k. list_event_seats (t k) e) w)),
          db_create_held = (\<lambda>req w.
            (case over_http env (on_db 3 (\<lambda>k. svc_create_held (t k) (t (k + 1)) (t (k + 2)) req) w) of
               (Inl e, w1) \<Rightarrow> (Inl e, w1)
             | (Inr (None, _), w1) \<Rightarrow> (Inl (client_error (web env) SvcIntegrityError), w1)
             | (Inr (Some v, created), w1) \<Rightarrow> (Inr (v, created), w1))),
          db_confirm = (\<lambda>i req w.
            some_view env (over_http env (on_db 2 (\<lambda>k. svc_confirm (t k) (t (k + 1)) i req) w))),
          db_cancel = (\<lambda>i w.
            some_view env (over_http env (on_db 2 (\<lambda>k. svc_cancel (t k) (t (k + 1)) i no_payment) w))),
          db_expire = (\<lambda>i w.
            some_view env (over_http env (on_db 2 (\<lambda>k. svc_expire (t k) (t (k + 1)) i) w))),
          db_list_user_reservations = (\<lambda>u w. over_http env (on_db 1 (\<lambda>k. svc_list_user_reservations (t k) u) w))\<rparr>)"

text \<open>The readings of the sweep: one for the list, then two per reservation.\<close>

definition system_reconciler :: "system_env \<Rightarrow> (client_exn \<Rightarrow> ustr) \<Rightarrow> system reconcile_env" where
  "system_reconciler env texts =
     \<lparr>rec_redis = system_redis env,
      rec_expire_stale = (\<lambda>limit w.
        on_db (Suc (2 * length (list_stale_held_reservations (db_clock env (sys_db_ticks w)) limit (sys_db w))))
          (\<lambda>k. svc_expire_stale_reservations (db_clock env k)
             (\<lambda>n. (db_clock env (k + 1 + 2 * n), db_clock env (k + 2 + 2 * n))) limit) w),
      rec_list_confirmed = (\<lambda>limit w. (Inr (list_confirmed_reservations limit (sys_db w)), w)),
      exn_text = texts\<rparr>"

subsection \<open>Seats of the system\<close>

definition system_shows :: "system_env \<Rightarrow> system \<Rightarrow> seat_map \<Rightarrow> bool" where
  "system_shows env w m \<longleftrightarrow> engine_shows (redis_clock env) (sys_redis w) m"

definition system_now :: "system_env \<Rightarrow> system \<Rightarrow> rat" where
  "system_now env w = redis_clock env (fst (sys_redis w))"

lemma system_shows_redis: "sys_redis w' = sys_redis w \<Longrightarrow> system_shows env w' m = system_shows env w m"
  by (simp add: system_shows_def)

lemma call_on_redis:
  "call_for_array (\<lambda>tokens. on_redis (exec tokens)) c n decode = on_redis (call_for_array exec c n decode)"
  by (rule ext) (simp add: call_for_array_def on_redis_def split: prod.split)

lemma system_redis_calls:
  "redis_seat_status (system_redis env) e s =
     on_redis (redis_seat_status (redis_of (local_exec (redis_clock env) (redis_texts env))) e s)"
  "seat_call (system_redis env) e s oper w =
     (if oper = OpStatus then (Inl RecursionError, w)
      else on_redis (seat_call (redis_of (local_exec (redis_clock env) (redis_texts env))) e s oper) w)"
  by (cases oper; simp add: system_redis_def redis_of_def client_seat_status_def client_reserve_seat_def
      client_confirm_seat_def client_force_confirm_seat_def client_release_seat_def call_on_redis)+

interpretation sys: seat_service "system_redis env" "system_now env" "system_shows env" plain for env
proof
  fix w m e s
  assume "system_shows env w m" and "plain e"
  then show "\<exists>w'. redis_seat_status (system_redis env) e s w =
      (Inr (abs_status (system_now env w) (age (system_now env w) (m e s))), w') \<and> system_shows env w' m \<and>
      system_now env w \<le> system_now env w'"
    using engine_seats.status_call [of "redis_clock env" "sys_redis w" m e "redis_texts env" s]
    by (auto simp: system_redis_calls(1) on_redis_def system_shows_def system_now_def)
next
  fix w m e oper s x
  assume *: "system_shows env w m" "plain e" "call_ok oper" "fst (abs_step (system_now env w) oper (m e s)) = Inr x"
  have "oper \<noteq> OpStatus" using *(3) by auto
  moreover obtain w1 where
    "seat_call (redis_of (local_exec (redis_clock env) (redis_texts env))) e s oper (sys_redis w) =
       (Inr (seat_command_of x), w1)"
    "engine_shows (redis_clock env) w1 (put_seat e s (snd (abs_step (system_now env w) oper (m e s))) m)"
    "system_now env w \<le> redis_clock env (fst w1)"
    using engine_seats.op_call [of "redis_clock env" "sys_redis w" m e oper s x "redis_texts env"] *
    by (auto simp: system_shows_def system_now_def)
  ultimately show "\<exists>w'. seat_call (system_redis env) e s oper w = (Inr (seat_command_of x), w') \<and>
      system_shows env w' (put_seat e s (snd (abs_step (system_now env w) oper (m e s))) m) \<and>
      system_now env w \<le> system_now env w'"
    unfolding system_redis_calls(2) by (auto simp: on_redis_def system_shows_def system_now_def)
qed

subsection \<open>Calls of the seat store leave the database alone\<close>

definition same_db :: "system \<Rightarrow> system \<Rightarrow> bool" where
  "same_db w w' \<longleftrightarrow> sys_db w' = sys_db w \<and> sys_db_ticks w' = sys_db_ticks w"

lemma same_db_trans: "same_db a b \<Longrightarrow> same_db b c \<Longrightarrow> same_db a c"
  by (simp add: same_db_def)

lemma on_redis_same_db: "on_redis f w = (r, w') \<Longrightarrow> same_db w w'"
  by (auto simp: on_redis_def same_db_def split: prod.splits)

lemma redis_same_db:
  "redis_seat_status (system_redis env) e s w = (r, w') \<Longrightarrow> same_db w w'"
  "redis_reserve_seat (system_redis env) e s u h w = (x, w') \<Longrightarrow> same_db w w'"
  "redis_force_confirm_seat (system_redis env) e s u w = (x, w') \<Longrightarrow> same_db w w'"
  "redis_release_seat (system_redis env) e s u w = (x, w') \<Longrightarrow> same_db w w'"
  by (simp_all add: system_redis_def redis_of_def client_seat_status_def client_reserve_seat_def
      client_force_confirm_seat_def client_release_seat_def call_on_redis on_redis_same_db)

lemma repair_seat_same_db:
  "rec_redis env' = system_redis env \<Longrightarrow> repair_seat env' r report w = (report', w') \<Longrightarrow> same_db w w'"
  by (auto simp: repair_seat_def Let_def split: prod.splits sum.splits if_splits
      dest!: redis_same_db intro: same_db_trans)

lemma repair_seats_same_db:
  "rec_redis env' = system_redis env \<Longrightarrow> repair_seats env' rs report w = (report', w') \<Longrightarrow> same_db w w'"
proof (induction rs arbitrary: report w)
  case Nil
  then show ?case by (simp add: same_db_def)
next
  case (Cons r rs)
  obtain report1 w1 where one: "repair_seat env' r report w = (report1, w1)" by fastforce
  from repair_seat_same_db [OF Cons.prems(1) one] Cons.IH [OF Cons.prems(1), of report1 w1] Cons.prems(2) one
  show ?case by (auto intro: same_db_trans)
qed

lemma release_stale_same_db: "release_stale (system_redis env) r w = (x, w') \<Longrightarrow> same_db w w'"
  by (auto simp: release_stale_def split: prod.splits sum.splits if_splits
      dest!: redis_same_db intro: same_db_trans)

lemma release_holds_same_db:
  "rec_redis env' = system_redis env \<Longrightarrow> release_holds env' vs report w = (x, w') \<Longrightarrow> same_db w w'"
proof (induction env' vs report w rule: release_holds.induct)
  case (3 env' v rest report w)
  obtain y w1 where one: "release_stale (rec_redis env') (fst v) w = (y, w1)" by fastforce
  then have "same_db w w1" using release_stale_same_db 3(3) by simp
  then show ?case
    using 3 one by (auto simp: Let_def split: sum.splits intro: same_db_trans)
qed (simp_all add: same_db_def)

text \<open>The second loop of the reconciler leaves the list of expired reservations alone.\<close>

lemma repair_seats_expired:
  "repair_seats env rs report w = (report', w') \<Longrightarrow> expired_reservation_ids report' = expired_reservation_ids report"
proof (induction rs arbitrary: report w)
  case (Cons r rs)
  obtain report1 w1 where one: "repair_seat env r report w = (report1, w1)" by fastforce
  then have "expired_reservation_ids report1 = expired_reservation_ids report"
    by (auto simp: repair_seat_def Let_def split: prod.splits sum.splits if_splits)
  then show ?case using Cons one by simp
qed simp

end
