(* ===== verification/Flow_Calculus.thy ===== *)
theory Flow_Calculus
  imports App_Service
begin

section \<open>A calculus for the flows of the orchestration service\<close>

text \<open>
  A flow is run for what it returns and what it does to the two stores; its log entries and the
  counters of its clocks and identifiers do not matter then. \<open>flow m Q w\<close> says that the
  action \<open>m\<close>, started on the world \<open>w\<close> with any log and counters, ends in an outcome and a
  world with \<open>Q\<close>. The rules of the collection \<open>flow\<close> follow the code.
\<close>

named_theorems flow_rules

definition flow :: "('a, 'w) act \<Rightarrow> (client_exn + 'a \<Rightarrow> 'w \<Rightarrow> bool) \<Rightarrow> 'w \<Rightarrow> bool" where
  "flow m Q w \<longleftrightarrow> (\<forall>s. app_world s = w \<longrightarrow> Q (fst (m s)) (app_world (snd (m s))))"

lemma flowD: "flow m Q (app_world s) \<Longrightarrow> m s = (r, s') \<Longrightarrow> Q r (app_world s')"
  by (auto simp: flow_def)

lemma flow_mono: "flow m P w \<Longrightarrow> (\<And>r w'. P r w' \<Longrightarrow> Q r w') \<Longrightarrow> flow m Q w"
  by (auto simp: flow_def)

lemma flow_return [flow_rules]: "Q (Inr x) w \<Longrightarrow> flow (act_return x) Q w"
  by (simp add: flow_def act_return_def)

lemma flow_raise [flow_rules]: "Q (Inl e) w \<Longrightarrow> flow (act_raise e) Q w"
  by (simp add: flow_def act_raise_def)

lemma flow_world [flow_rules]: "Q (fst (f w)) (snd (f w)) \<Longrightarrow> flow (on_world f) Q w"
  by (auto simp: flow_def on_world_def split: prod.split)

lemma flow_tick [flow_rules]: "(\<And>n. Q (Inr n) w) \<Longrightarrow> flow next_tick Q w"
  by (simp add: flow_def next_tick_def)

lemma flow_bind [flow_rules]:
  fixes w :: 'w
  assumes "flow m (\<lambda>r w'. case r of Inl e \<Rightarrow> Q (Inl e) w' | Inr x \<Rightarrow> flow (f x) Q w') w"
  shows "flow (act_bind m f) Q w"
  unfolding flow_def
proof (intro allI impI)
  fix s :: "'w app_state"
  assume s: "app_world s = w"
  obtain r s1 where m: "m s = (r, s1)" by fastforce
  have "case r of Inl e \<Rightarrow> Q (Inl e) (app_world s1) | Inr x \<Rightarrow> flow (f x) Q (app_world s1)"
    using flowD [OF assms [folded s] m] .
  then show "Q (fst (act_bind m f s)) (app_world (snd (act_bind m f s)))"
    using m by (cases r) (auto simp: act_bind_def flow_def)
qed

lemma flow_try [flow_rules]:
  fixes w :: 'w
  assumes "flow m (\<lambda>r w'. case r of Inl e \<Rightarrow> flow (h e) Q w' | Inr x \<Rightarrow> Q (Inr x) w') w"
  shows "flow (act_try m h) Q w"
  unfolding flow_def
proof (intro allI impI)
  fix s :: "'w app_state"
  assume s: "app_world s = w"
  obtain r s1 where m: "m s = (r, s1)" by fastforce
  have "case r of Inl e \<Rightarrow> flow (h e) Q (app_world s1) | Inr x \<Rightarrow> Q (Inr x) (app_world s1)"
    using flowD [OF assms [folded s] m] .
  then show "Q (fst (act_try m h s)) (app_world (snd (act_try m h s)))"
    using m by (cases r) (auto simp: act_try_def flow_def)
qed

lemma flow_trace [flow_rules]: "Q (Inr ()) w \<Longrightarrow> flow (trace env target action status e s u detail) Q w"
  by (auto simp: flow_def trace_def act_bind_def next_tick_def)

text \<open>Steps that only write to the log or draw an identifier.\<close>

lemma flow_log: "flow (f ()) Q w \<Longrightarrow> flow (act_bind (trace env target action status e s u detail) f) Q w"
  by (rule flow_bind, rule flow_trace) simp

lemma flow_draw: "(\<And>n. flow (f n) Q w) \<Longrightarrow> flow (act_bind next_tick f) Q w"
  by (rule flow_bind, rule flow_tick) simp

lemma flow_call: "f w = (r, w1) \<Longrightarrow> Q r w1 \<Longrightarrow> flow (on_world f) Q w"
  by (rule flow_world) simp

lemma flow_any: "(\<And>r w1. f w = (r, w1) \<Longrightarrow> Q r w1) \<Longrightarrow> flow (on_world f) Q w"
  by (rule flow_world) simp

text \<open>A flow always ends: the outcome and the world it leaves are values of the functions.\<close>

lemma flow_ends: "flow m Q (app_world s) \<Longrightarrow> \<exists>r s'. m s = (r, s') \<and> Q r (app_world s')"
  by (metis flowD prod.exhaust)

lemma flow_cases:
  assumes "\<And>r w'. f w = (r, w') \<Longrightarrow> flow (g r) Q w'"
  shows "flow (\<lambda>s. case on_world f s of (r, s1) \<Rightarrow> g r s1) Q w"
  using assms by (auto simp: flow_def on_world_def split: prod.split)

subsection \<open>The retry loop\<close>

text \<open>
  An attempt is repeated when the client reports an upstream error or when the answer does not
  show the seat as confirmed for the user; \<open>retry_error\<close> is what the loop remembers of it.
\<close>

definition confirmed_answer :: "ustr \<Rightarrow> SeatCommandResult \<Rightarrow> bool" where
  "confirmed_answer u x \<longleftrightarrow> cmd_state x = lit ''CONFIRMED'' \<and> cmd_user_id x = Some u"

definition retried :: "ustr \<Rightarrow> client_exn + SeatCommandResult \<Rightarrow> bool" where
  "retried u r =
     (case r of Inl (AppServerError (UpstreamError t)) \<Rightarrow> True | Inl _ \<Rightarrow> False | Inr x \<Rightarrow> \<not> confirmed_answer u x)"

definition retry_error :: "client_exn + SeatCommandResult \<Rightarrow> client_exn" where
  "retry_error r =
     (case r of
        Inl e \<Rightarrow> e
      | Inr _ \<Rightarrow> upstream (lit ''Redis returned an unexpected seat state during confirmation finalization''))"

text \<open>The outcome of \<open>n\<close> attempts at most, after the error of an earlier one.\<close>

fun attempts ::
  "('w \<Rightarrow> (client_exn + SeatCommandResult) \<times> 'w) \<Rightarrow> ustr \<Rightarrow> nat \<Rightarrow> client_exn \<Rightarrow> 'w \<Rightarrow>
     (client_exn + SeatCommandResult) \<times> 'w" where
  "attempts f u 0 err w = (Inl err, w)"
| "attempts f u (Suc n) err w =
     (case f w of (r, w1) \<Rightarrow> if retried u r then attempts f u n (retry_error r) w1 else (r, w1))"

lemma flow_pair [flow_rules]: "Q r w \<Longrightarrow> flow (Pair r) Q w"
  by (simp add: flow_def)

lemma flow_finalize_loop:
  "flow (finalize_loop env e s u n last_error)
     (\<lambda>r w'. attempts (redis_force_confirm_seat (env_redis env) e s u) u n
        (case last_error of None \<Rightarrow> upstream (lit ''Redis did not finalize the confirmed seat'') | Some err \<Rightarrow> err) w = (r, w')) w"
proof (induction n arbitrary: last_error w)
  case 0
  then show ?case by (simp add: flow_def act_raise_def)
next
  case (Suc n)
  show ?case
    unfolding finalize_loop.simps Let_def
    apply (rule flow_log, rule flow_cases)
    subgoal for r w1
      using Suc.IH [of "Some (retry_error r)" w1]
      by (auto simp: retried_def retry_error_def confirmed_answer_def upstream_def intro!: flow_log flow_return flow_pair
          split: sum.splits client_exn.splits app_error.splits if_splits)
    done
qed

primrec after_calls :: "('w \<Rightarrow> 'a \<times> 'w) \<Rightarrow> nat \<Rightarrow> 'w \<Rightarrow> 'w" where
  "after_calls f 0 w = w"
| "after_calls f (Suc n) w = after_calls f n (snd (f w))"

lemma attempts_bounded:
  assumes "attempts f u (Suc n) err w = (r, w')"
  shows "\<exists>k\<le>n. (\<forall>j<k. retried u (fst (f (after_calls f j w)))) \<and> w' = after_calls f (Suc k) w \<and>
    (if retried u (fst (f (after_calls f k w))) then k = n \<and> r = Inl (retry_error (fst (f (after_calls f k w))))
     else r = fst (f (after_calls f k w)))"
  using assms
proof (induction n arbitrary: err w)
  case 0
  then show ?case by (auto split: prod.splits if_splits)
next
  case (Suc n)
  obtain x w1 where f: "f w = (x, w1)" by fastforce
  show ?case
  proof (cases "retried u x")
    case True
    then have "attempts f u (Suc n) (retry_error x) w1 = (r, w')" using Suc.prems f by simp
    from Suc.IH [OF this] obtain k where k: "k \<le> n" "\<forall>j<k. retried u (fst (f (after_calls f j w1)))"
      "w' = after_calls f (Suc k) w1"
      "if retried u (fst (f (after_calls f k w1))) then k = n \<and> r = Inl (retry_error (fst (f (after_calls f k w1))))
       else r = fst (f (after_calls f k w1))" by blast
    show ?thesis
    proof (intro exI [of _ "Suc k"] conjI)
      show "\<forall>j<Suc k. retried u (fst (f (after_calls f j w)))"
        using k(2) True f by (auto simp: less_Suc_eq_0_disj)
    qed (use k f in \<open>auto split: if_splits\<close>)
  next
    case False
    then show ?thesis using Suc.prems f by (intro exI [of _ 0]) auto
  qed
qed

end
