(* ===== verification/System_Flows.thy ===== *)
theory System_Flows
  imports Ticketing_System Ticketing_Seed Flow_Calculus
begin

section \<open>The calls of the flows on both stores\<close>

text \<open>
  Rules of the flow calculus for every call a flow makes, when its two clients are the models of
  the seat store and of the database service. A rule asks for its continuation at every world
  the call can leave.
\<close>

definition runs_on :: "system_env \<Rightarrow> system app_env \<Rightarrow> bool" where
  "runs_on env app \<longleftrightarrow> env_redis app = system_redis env \<and> env_db app = system_db env"

lemma runs_on_sel [simp]: "runs_on env app \<Longrightarrow> env_redis app = system_redis env" "runs_on env app \<Longrightarrow> env_db app = system_db env"
  by (simp_all add: runs_on_def)

subsection \<open>Calls of the database\<close>

definition after_listing :: "system_env \<Rightarrow> system \<Rightarrow> system" where
  "after_listing env w =
     w\<lparr>sys_db := svc_expire_stale (db_clock env (sys_db_ticks w)) (sys_db w), sys_db_ticks := Suc (sys_db_ticks w)\<rparr>"

lemma redis_part [simp]:
  "system_shows env (w\<lparr>sys_db := d\<rparr>) m = system_shows env w m"
  "system_shows env (w\<lparr>sys_db_ticks := k\<rparr>) m = system_shows env w m"
  "system_now env (w\<lparr>sys_db := d\<rparr>) = system_now env w"
  "system_now env (w\<lparr>sys_db_ticks := k\<rparr>) = system_now env w"
  by (simp_all add: system_shows_def system_now_def)

lemma after_listing_sel [simp]:
  "sys_db (after_listing env w) = svc_expire_stale (db_clock env (sys_db_ticks w)) (sys_db w)"
  "sys_db_ticks (after_listing env w) = Suc (sys_db_ticks w)"
  "system_shows env (after_listing env' w) m = system_shows env w m"
  "system_now env (after_listing env' w) = system_now env w"
  by (simp_all add: after_listing_def system_shows_def system_now_def)

lemma seats_expire_stale [simp]: "seats (svc_expire_stale now db) = seats db"
  by (simp add: svc_expire_stale_def repo_expire_stale_def)

lemma list_seats_call:
  assumes "get_event e (sys_db w) \<noteq> None"
  shows "db_list_event_seats (system_db env) e w =
    (Inr (list_seats e (sys_db (after_listing env w))), after_listing env w)"
  using assms
  by (auto simp: system_db_def Let_def over_http_def on_db_def list_event_seats_def require_event_def after_listing_def)

lemma find_listed:
  assumes "get_seat e s db \<noteq> None"
  shows "\<exists>row. find (\<lambda>seat. st_seat_id (fst seat) = s) (list_seats e db) = Some (row, has_confirmed_reservation e s db) \<and>
    row \<in> set (seats db) \<and> st_event_id row = e \<and> st_seat_id row = s"
proof -
  obtain row0 where "row0 \<in> set (seats db)" "st_event_id row0 = e" "st_seat_id row0 = s"
    using assms by (auto simp: get_seat_None)
  then have "find (\<lambda>seat. st_seat_id (fst seat) = s) (list_seats e db) \<noteq> None"
    by (auto simp: find_None_iff list_seats_def)
  then obtain row c where f: "find (\<lambda>seat. st_seat_id (fst seat) = s) (list_seats e db) = Some (row, c)" by auto
  then have "(row, c) \<in> set (list_seats e db)" "st_seat_id row = s"
    by (auto simp: find_Some_iff) (metis fst_conv)
  then have "row \<in> set (seats db)" "st_event_id row = e" "c = has_confirmed_reservation e s db"
    by (auto simp: list_seats_def has_confirmed_reservation_def)
  then show ?thesis using f \<open>st_seat_id row = s\<close> by blast
qed

lemma flow_find_seat:
  assumes "runs_on env app" and "get_event e (sys_db w) \<noteq> None" and "get_seat e s (sys_db w) \<noteq> None"
    and "\<And>row. row \<in> set (seats (sys_db w)) \<Longrightarrow> st_event_id row = e \<Longrightarrow> st_seat_id row = s \<Longrightarrow>
      Q (Inr (row, has_confirmed_reservation e s (sys_db w))) (after_listing env w)"
  shows "flow (find_event_seat app e s) Q w"
proof -
  have "get_seat e s (sys_db (after_listing env w)) \<noteq> None" using assms(3) by simp
  from find_listed [OF this] obtain row where
    row: "find (\<lambda>seat. st_seat_id (fst seat) = s) (list_seats e (sys_db (after_listing env w))) =
        Some (row, has_confirmed_reservation e s (sys_db w))"
      "row \<in> set (seats (sys_db w))" "st_event_id row = e" "st_seat_id row = s"
    by auto
  have "Q (Inr (row, has_confirmed_reservation e s (sys_db w))) (after_listing env w)"
    by (rule assms(4) [OF row(2-4)])
  then show ?thesis
    unfolding find_event_seat_def
    using row(1) by (auto intro!: flow_rules simp: list_seats_call [OF assms(2)] runs_on_sel [OF assms(1)])
qed

subsection \<open>Calls of the seat store\<close>

lemma flow_status:
  assumes "runs_on env app" and "system_shows env w m" and "plain e"
    and "\<And>w'. system_shows env w' m \<Longrightarrow> same_db w w' \<Longrightarrow> system_now env w \<le> system_now env w' \<Longrightarrow>
      Q (Inr (abs_status (system_now env w) (age (system_now env w) (m e s)))) w'"
  shows "flow (on_world (redis_seat_status (env_redis app) e s)) Q w"
proof -
  obtain w' where w': "redis_seat_status (system_redis env) e s w =
      (Inr (abs_status (system_now env w) (age (system_now env w) (m e s))), w')"
    "system_shows env w' m" "system_now env w \<le> system_now env w'"
    using sys.status_call [OF assms(2,3)] by blast
  show ?thesis
    using assms(4) [OF w'(2) redis_same_db(1) [OF w'(1)] w'(3)] w'(1) assms(1) by (auto intro!: flow_rules)
qed

lemma seat_call_same_db: "seat_call (system_redis env) e s oper w = (r, w') \<Longrightarrow> same_db w w'"
  by (cases "oper = OpStatus") (auto simp: system_redis_calls(2) same_db_def dest: on_redis_same_db)

lemma flow_seat_call:
  assumes "runs_on env app" and "system_shows env w m" and "plain e" and "call_ok oper"
    and "abs_step (system_now env w) oper (m e s) = (Inr x, a)"
    and "\<And>w'. system_shows env w' (put_seat e s a m) \<Longrightarrow> same_db w w' \<Longrightarrow> system_now env w \<le> system_now env w' \<Longrightarrow>
      Q (Inr (seat_command_of x)) w'"
  shows "flow (on_world (seat_call (env_redis app) e s oper)) Q w"
proof -
  obtain w' where w': "seat_call (system_redis env) e s oper w = (Inr (seat_command_of x), w')"
    "system_shows env w' (put_seat e s a m)" "system_now env w \<le> system_now env w'"
    using sys.op_call [OF assms(2-4), of s x] assms(5) by auto
  show ?thesis
    using assms(6) [OF w'(2) seat_call_same_db [OF w'(1)] w'(3)] w'(1) assms(1) by (auto intro!: flow_rules)
qed

lemma flow_finalize:
  assumes "runs_on env app" and "system_shows env w m" and "plain e" and "user_ok u"
    and "\<And>w'. system_shows env w' (put_seat e s (Confirmed u) m) \<Longrightarrow> same_db w w' \<Longrightarrow>
      system_now env w \<le> system_now env w' \<Longrightarrow>
      Q (Inr \<lparr>cmd_success = True, cmd_state = lit ''CONFIRMED'', cmd_user_id = Some u, cmd_ttl = - 1\<rparr>) w'"
  shows "flow (finalize_confirmed_seat app e s u) Q w"
proof -
  obtain w' where w': "seat_call (system_redis env) e s (OpForce u) w =
      (Inr (seat_command_of (True, abs_status (system_now env w) (Confirmed u))), w')"
    "system_shows env w' (put_seat e s (Confirmed u) m)" "system_now env w \<le> system_now env w'"
    using sys.op_call [OF assms(2,3), of "OpForce u" s] assms(4) by (auto simp: abs_step_def)
  note Q = assms(5) [OF w'(2) seat_call_same_db [OF w'(1)] w'(3)]
  have call: "redis_force_confirm_seat (env_redis app) e s u w =
      (Inr \<lparr>cmd_success = True, cmd_state = lit ''CONFIRMED'', cmd_user_id = Some u, cmd_ttl = - 1\<rparr>, w')"
    using w'(1) assms(1) by (simp add: seat_command_of_def seat_names)
  have three: "REDIS_CONFIRM_RETRY_ATTEMPTS = Suc 2" by (simp add: REDIS_CONFIRM_RETRY_ATTEMPTS_def)
  show ?thesis
    unfolding finalize_confirmed_seat_def three finalize_loop.simps Let_def
    apply (rule flow_bind, rule flow_trace, simp)
    apply (rule flow_cases)
    using Q by (auto simp: call intro!: flow_rules)
qed

lemma flow_get_seat:
  assumes "runs_on env app" and "get_event e (sys_db w) \<noteq> None" and "get_seat e s (sys_db w) \<noteq> None"
    and "system_shows env w m" and "plain e"
    and "\<And>row w'. row \<in> set (seats (sys_db w)) \<Longrightarrow> st_event_id row = e \<Longrightarrow> st_seat_id row = s \<Longrightarrow>
      system_shows env w' m \<Longrightarrow> same_db (after_listing env w) w' \<Longrightarrow> system_now env w \<le> system_now env w' \<Longrightarrow>
      Q (Inr (seat_view (row, has_confirmed_reservation e s (sys_db w))
                (abs_status (system_now env w) (age (system_now env w) (m e s))))) w'"
  shows "flow (get_event_seat app e s) Q w"
  unfolding get_event_seat_def
  apply (rule flow_bind, rule flow_find_seat [OF assms(1-3)], simp)
  apply (rule flow_bind, rule flow_status [OF assms(1) _ assms(5), of _ m])
  using assms(4,6) by (auto intro!: flow_rules)

subsection \<open>Confirming\<close>

definition confirmed_db :: "ustr \<Rightarrow> ustr \<Rightarrow> ustr \<Rightarrow> ConfirmReservationRequest \<Rightarrow> TicketingDb \<Rightarrow> TicketingDb" where
  "confirmed_db now1 now2 i req db =
     (update_reservation i (confirm_row now2) (svc_expire_stale now1 db))\<lparr>payments := payments db @ [paid now2 i req]\<rparr>"

lemma confirm_call:
  assumes "db_inv (sys_db w)" and "find_reservation i (sys_db w) = Some r" and "res_status r = HELD"
    and "\<not> is_stale (db_clock env (sys_db_ticks w)) r"
    and "\<not> has_confirmed_reservation (res_event_id r) (res_seat_id r) (sys_db w)"
    and "cr_payment_id req \<notin> pay_id ` set (payments (sys_db w))"
  shows "db_confirm (system_db env) i req w =
    (Inr (confirm_row (db_clock env (sys_db_ticks w + 1)) r, Some (paid (db_clock env (sys_db_ticks w + 1)) i req)),
     w\<lparr>sys_db := confirmed_db (db_clock env (sys_db_ticks w)) (db_clock env (sys_db_ticks w + 1)) i req (sys_db w),
       sys_db_ticks := sys_db_ticks w + 2\<rparr>)"
  using svc_confirm_held [OF assms(1-4), of "db_clock env (sys_db_ticks w + 1)" req] assms(5,6)
  by (simp add: system_db_def Let_def over_http_def on_db_def some_view_def confirmed_db_def)

lemma confirmed_db_sel [simp]:
  "get_event e (confirmed_db now1 now2 i req db) = get_event e db"
  "get_seat e s (confirmed_db now1 now2 i req db) = get_seat e s db"
  "seats (confirmed_db now1 now2 i req db) = seats db"
  by (simp_all add: confirmed_db_def get_event_def get_seat_def update_reservation_def svc_expire_stale_def
      repo_expire_stale_def)

lemma confirmed_not_stale: "\<not> is_stale now (confirm_row now2 r)"
  by (simp add: is_stale_def confirm_row_def)

lemma find_confirmed_db:
  assumes "find_reservation i db = Some r" and "\<not> is_stale now1 r"
  shows "find_reservation i (confirmed_db now1 now2 i req db) = Some (confirm_row now2 r)"
proof -
  have "find_reservation i (svc_expire_stale now1 db) = Some r" using assms by (simp add: find_expire_stale aged_def)
  then have "find_reservation i (update_reservation i (confirm_row now2) (svc_expire_stale now1 db)) = Some (confirm_row now2 r)"
    by (simp add: find_update confirm_row_def)
  then show ?thesis by (simp add: confirmed_db_def find_reservation_def)
qed

text \<open>
  The flow of a confirmation that finds the seat held by the user and the reservation alive.
  Nothing relates the reservation to the event, the seat and the user.
\<close>

lemma flow_confirm:
  fixes env w
  defines "t \<equiv> db_clock env" and "k \<equiv> sys_db_ticks w"
  assumes on: "runs_on env app" and plain: "plain e" and user: "user_ok u"
    and shown: "system_shows env w m" and held: "age (system_now env w) (m e s) = Held u d"
    and seat: "get_event e (sys_db w) \<noteq> None" "get_seat e s (sys_db w) \<noteq> None"
    and inv: "db_inv (sys_db w)" and r: "find_reservation i (sys_db w) = Some r" "res_status r = HELD"
    and alive: "\<not> is_stale (t k) r" "\<not> is_stale (t (k + 1)) r"
    and free: "\<not> has_confirmed_reservation (res_event_id r) (res_seat_id r) (sys_db w)"
    and new: "\<And>n. lit ''pay-'' @ uuid4_hex app n \<notin> pay_id ` set (payments (sys_db w))"
    and Q: "\<And>res row w'. fst (confirm_reservation_view res) = confirm_row (t (k + 2)) r \<Longrightarrow>
       view_status (confirm_seat_view res) = lit ''CONFIRMED'' \<Longrightarrow>
       row \<in> set (seats (sys_db w)) \<Longrightarrow> st_event_id row = e \<Longrightarrow> st_seat_id row = s \<Longrightarrow>
       cr_amount (confirm_payment res) = st_price row \<Longrightarrow>
       find_reservation i (sys_db w') = Some (confirm_row (t (k + 2)) r) \<Longrightarrow>
       system_shows env w' (put_seat e s (Confirmed u) m) \<Longrightarrow> Q (Inr res) w'"
  shows "flow (app_confirm_reservation app i e s u) Q w"
proof -
  let ?db1 = "svc_expire_stale (t k) (sys_db w)"
  have r1: "find_reservation i ?db1 = Some r" using r(1) alive(1) by (simp add: find_expire_stale aged_def)
  have confirm: "db_confirm (env_db app) i req w1 =
      (Inr (confirm_row (t (k + 2)) r, Some (paid (t (k + 2)) i req)),
       w1\<lparr>sys_db := confirmed_db (t (k + 1)) (t (k + 2)) i req ?db1, sys_db_ticks := k + 3\<rparr>)"
    if "same_db (after_listing env w) w1" "cr_payment_id req \<notin> pay_id ` set (payments (sys_db w))" for w1 req
  proof -
    have w1: "sys_db w1 = ?db1" "sys_db_ticks w1 = k + 1" using that(1) by (simp_all add: same_db_def t_def k_def)
    show ?thesis
      using confirm_call [of w1 i r env req] w1 expire_stale_inv [OF inv] r1 r(2) alive(2) free that(2)
      by (simp add: t_def runs_on_sel [OF on])
  qed
  have final: "find_reservation i (svc_expire_stale now3 (confirmed_db (t (Suc k)) now2 i req ?db1)) = Some (confirm_row now2 r)"
    for now2 now3 req
    using find_confirmed_db [OF r1, of "t (Suc k)"] alive(2) by (simp add: find_expire_stale confirmed_not_stale)
  show ?thesis
    unfolding app_confirm_reservation_def Let_def
    apply (rule flow_bind, rule flow_find_seat [OF on seat], simp)
    apply (rule flow_log, rule flow_bind, rule flow_status [OF on _ plain, of _ m])
     apply (simp add: shown)
    apply (simp add: held seat_names)
    apply (rule flow_log)
    apply (simp add: build_mock_payment_def Let_def)
    apply (rule flow_bind, rule flow_draw, rule flow_return, simp)
    apply (rule flow_log, rule flow_log, rule flow_bind, rule flow_call, rule confirm, assumption)
     apply (simp add: new)
    apply simp
    apply (rule flow_log, rule flow_bind, rule flow_finalize [OF on _ plain user, of _ m])
     apply simp
    apply simp
    apply (rule flow_bind, rule flow_get_seat [OF on _ _ _ plain])
       apply (simp_all add: same_db_def seat)
    apply (rule flow_return, rule Q)
           apply (simp_all add: final seat_view_def seat_names mk_status_def)
    done
qed

subsection \<open>Holding\<close>

lemma ensure_user_tables:
  "ensure_user now u db = (x, db2) \<Longrightarrow>
    reservations db2 = reservations db \<and> events db2 = events db \<and> seats db2 = seats db"
  by (auto simp: ensure_user_def create_user_def Let_def split: option.splits if_splits)

lemma expire_stale_tables [simp]: "events (svc_expire_stale now db) = events db"
  by (simp add: svc_expire_stale_def repo_expire_stale_def)

lemma repo_create_held_outcome:
  assumes "repo_create_held i e s u token expires now db = (x, db1)"
  shows "case x of
      Inl _ \<Rightarrow> db1 = db
    | Inr v \<Rightarrow> \<exists>row p. v = Some (row, p) \<and> find_reservation i db1 = Some row \<and> res_status row = HELD \<and>
        res_event_id row = e \<and> res_seat_id row = s \<and> res_user_id row = u \<and>
        res_hold_token row = Some token \<and> res_expires_at row = Some expires"
    and "events db1 = events db \<and> seats db1 = seats db"
proof -
  have "find_reservation i db = None" if "\<not> list_ex (\<lambda>x. res_id x = i) (reservations db)"
    using that by (auto simp: find_reservation_None list_ex_iff)
  then show "case x of
      Inl _ \<Rightarrow> db1 = db
    | Inr v \<Rightarrow> \<exists>row p. v = Some (row, p) \<and> find_reservation i db1 = Some row \<and> res_status row = HELD \<and>
        res_event_id row = e \<and> res_seat_id row = s \<and> res_user_id row = u \<and>
        res_hold_token row = Some token \<and> res_expires_at row = Some expires"
    and "events db1 = events db \<and> seats db1 = seats db"
    using assms
    by (auto simp: repo_create_held_def insert_reservation_def get_reservation_def find_reservation_def find_append
        with_payment_def split: if_splits)
qed

lemma svc_create_held_outcome:
  assumes "svc_create_held now1 now2 now3 req db = (x, db')"
  shows "case x of
      Inl _ \<Rightarrow> reservations db' = reservations (svc_expire_stale now1 db)
    | Inr (v, created) \<Rightarrow> \<exists>row p. v = Some (row, p) \<and> find_reservation (hr_reservation_id req) db' = Some row \<and>
        held_request_matches row req \<and> (created \<longrightarrow> res_status row = HELD)"
    and "events db' = events db \<and> seats db' = seats db"
proof -
  obtain y db2 where user: "ensure_user now2 (hr_user_id req) (svc_expire_stale now1 db) = (y, db2)" by fastforce
  obtain z db3 where make: "repo_create_held (hr_reservation_id req) (hr_event_id req) (hr_seat_id req)
      (hr_user_id req) (hr_hold_token req) (hr_expires_at req) now3 db2 = (z, db3)" by fastforce
  note facts = ensure_user_tables [OF user] repo_create_held_outcome [OF make] get_reservation_def
  show "case x of
      Inl _ \<Rightarrow> reservations db' = reservations (svc_expire_stale now1 db)
    | Inr (v, created) \<Rightarrow> \<exists>row p. v = Some (row, p) \<and> find_reservation (hr_reservation_id req) db' = Some row \<and>
        held_request_matches row req \<and> (created \<longrightarrow> res_status row = HELD)"
    and "events db' = events db \<and> seats db' = seats db"
    using assms facts
    by (auto simp: svc_create_held_def Let_def user make with_payment_def held_request_matches_def
        split: sum.splits option.splits if_splits)
qed

lemma get_tables: "events db' = events db \<Longrightarrow> get_event e db' = get_event e db" "seats db' = seats db \<Longrightarrow> get_seat e s db' = get_seat e s db"
  by (simp_all add: get_event_def get_seat_def)

lemma create_call:
  assumes "db_create_held (system_db env) req w = (x, w')"
  shows "sys_redis w' = sys_redis w" and "events (sys_db w') = events (sys_db w)" and "seats (sys_db w') = seats (sys_db w)"
    and "case x of
      Inl _ \<Rightarrow> reservations (sys_db w') = reservations (svc_expire_stale (db_clock env (sys_db_ticks w)) (sys_db w))
    | Inr (v, created) \<Rightarrow> find_reservation (hr_reservation_id req) (sys_db w') = Some (fst v) \<and>
        held_request_matches (fst v) req \<and> (created \<longrightarrow> res_status (fst v) = HELD)"
proof -
  let ?t = "db_clock env" and ?k = "sys_db_ticks w"
  obtain y db1 where run: "svc_create_held (?t ?k) (?t (?k + 1)) (?t (?k + 2)) req (sys_db w) = (y, db1)" by fastforce
  note out = svc_create_held_outcome [OF run]
  have "db_create_held (system_db env) req w =
      (case y of
         Inl e \<Rightarrow> (Inl (client_error (web env) e), w\<lparr>sys_db := db1, sys_db_ticks := ?k + 3\<rparr>)
       | Inr (None, _) \<Rightarrow> (Inl (client_error (web env) SvcIntegrityError), w\<lparr>sys_db := db1, sys_db_ticks := ?k + 3\<rparr>)
       | Inr (Some v, created) \<Rightarrow> (Inr (v, created), w\<lparr>sys_db := db1, sys_db_ticks := ?k + 3\<rparr>))"
    using run by (auto simp: system_db_def Let_def over_http_def on_db_def split: sum.split option.split)
  then have "(x, w') = \<dots>" using assms by simp
  then show "sys_redis w' = sys_redis w" "events (sys_db w') = events (sys_db w)" "seats (sys_db w') = seats (sys_db w)"
    "case x of
      Inl _ \<Rightarrow> reservations (sys_db w') = reservations (svc_expire_stale (?t ?k) (sys_db w))
    | Inr (v, created) \<Rightarrow> find_reservation (hr_reservation_id req) (sys_db w') = Some (fst v) \<and>
        held_request_matches (fst v) req \<and> (created \<longrightarrow> res_status (fst v) = HELD)"
    using out by (auto split: sum.splits)
qed

lemma age_later_available: "age now a = Available \<Longrightarrow> now \<le> now' \<Longrightarrow> age now' a = Available"
  by (metis age_later age.simps(2))

lemma put_seat_same [simp]: "m e s = a \<Longrightarrow> put_seat e s a m = m"
  by (auto simp: put_seat_def)

lemma flow_release:
  assumes on: "runs_on env app" and plain: "plain e" and user: "user_ok u"
    and shown: "system_shows env w m" and held: "m e s = Held u d"
    and Q: "\<And>w' a. system_shows env w' (put_seat e s a m) \<Longrightarrow> age (system_now env w') a = Available \<Longrightarrow>
      same_db w w' \<Longrightarrow> Q (Inr ()) w'"
  shows "flow (safe_release app e s u) Q w"
proof (cases "is_expired d (system_now env w)")
  case True
  show ?thesis
    unfolding safe_release_def Let_def
    apply (rule flow_try, rule flow_log, rule flow_bind, rule flow_status [OF on shown plain])
    apply (simp add: held True seat_names)
    apply (rule flow_trace, simp, rule Q [of _ "Held u d"])
      apply (simp_all add: held)
    using True by (simp add: is_expired_def)
next
  case False
  have step: "abs_step now (OpRelease u) (m e s) =
      (Inr (\<not> is_expired d now, abs_status now Available), Available)" for now
    by (simp add: abs_step_def held)
  note call = flow_seat_call [OF on _ plain, where oper = "OpRelease u", unfolded seat_call.simps]
  show ?thesis
    unfolding safe_release_def Let_def
    apply (rule flow_try, rule flow_log, rule flow_bind, rule flow_status [OF on shown plain])
    apply (simp add: held False seat_names)
    apply (rule flow_bind, rule call [where m = m and s = s], assumption)
      apply (simp add: user)
     apply (rule step)
    apply simp
    apply (rule flow_trace, simp, rule Q [of _ Available])
      apply simp_all
    apply (erule same_db_trans, assumption)
    done
qed

text \<open>
  The flow of a hold on a free seat: either both stores have the hold, or the seat is free again
  and no reservation has been added.
\<close>

lemma keys_expire_stale [simp]: "map row_key (reservations (svc_expire_stale now db)) = map row_key (reservations db)"
  by (simp add: reservations_expire_stale)

lemma found_key:
  "find_reservation i db = Some r \<Longrightarrow> \<exists>x. find_reservation i (svc_expire_stale now db) = Some x \<and> row_key x = row_key r"
  by (simp add: find_expire_stale)

lemma flow_hold:
  assumes on: "runs_on env app" and plain: "plain e" and user: "user_ok u"
    and shown: "system_shows env w m" and free: "age (system_now env w) (m e s) = Available"
    and seat: "get_event e (sys_db w) \<noteq> None" "get_seat e s (sys_db w) \<noteq> None"
    and h: "0 < h" "printable (nat h)" "compute_deadline (system_now env w) h = Inr d"
    and date: "\<And>n. hold_deadline app n h \<noteq> None"
    and held: "\<And>res row w'. fst (hold_reservation_view res) = row \<Longrightarrow>
      res_event_id row = e \<Longrightarrow> res_seat_id row = s \<Longrightarrow> res_user_id row = u \<Longrightarrow>
      (hold_created res \<Longrightarrow> res_status row = HELD) \<Longrightarrow>
      (\<exists>x. find_reservation (res_id row) (sys_db w') = Some x \<and> row_key x = row_key row) \<Longrightarrow>
      system_shows env w' (put_seat e s (Held u d) m) \<Longrightarrow> Q (Inr res) w'"
    and failed: "\<And>err w' a. system_shows env w' (put_seat e s a m) \<Longrightarrow> age (system_now env w') a = Available \<Longrightarrow>
      map row_key (reservations (sys_db w')) = map row_key (reservations (sys_db w)) \<Longrightarrow> Q (Inl err) w'"
  shows "flow (hold_reservation app e s u h) Q w"
proof -
  note call = flow_seat_call [OF on _ plain, where oper = "OpReserve u h", unfolded seat_call.simps]
  have step: "abs_step (system_now env w) (OpReserve u h) (m e s) =
      (Inr (True, mk_status SEAT_HELD (Some u) h), Held u d)"
    using h by (simp add: abs_step_def free hold_or_fail_def)
  have undo: "flow (act_bind (safe_release app e s u) (\<lambda>_. act_raise err))
      (\<lambda>r w'. case r of Inl e \<Rightarrow> Q (Inl e) w' | Inr x \<Rightarrow> R x w') w2"
    if "system_shows env w2 (put_seat e s (Held u d) m)"
      "map row_key (reservations (sys_db w2)) = map row_key (reservations (sys_db w))" for err R w2
    apply (rule flow_bind, rule flow_release [OF on plain user that(1)], simp)
    apply (simp, rule flow_raise, simp, rule failed)
    using that(2) by (simp_all add: put_seat_def same_db_def)
  have view: "flow (act_bind (get_event_seat app e s) (\<lambda>view. act_return
        \<lparr>hold_reservation_view = v, hold_seat = view, hold_created = created\<rparr>)) Q w2"
    if "system_shows env w2 (put_seat e s (Held u d) m)"
      "events (sys_db w2) = events (sys_db w)" "seats (sys_db w2) = seats (sys_db w)"
      "find_reservation (res_id (fst v)) (sys_db w2) = Some (fst v)"
      "res_event_id (fst v) = e" "res_seat_id (fst v) = s" "res_user_id (fst v) = u"
      "created \<longrightarrow> res_status (fst v) = HELD" for v created w2
    apply (rule flow_bind, rule flow_get_seat [OF on _ _ that(1) plain])
      apply (simp add: get_tables(1) [OF that(2)] seat)
     apply (simp add: get_tables(2) [OF that(3)] seat)
    apply (unfold sum.case, rule flow_return, rule held)
    using that(4-8) found_key by (auto simp: same_db_def)
  show ?thesis
    unfolding hold_reservation_def Let_def
    apply (rule flow_bind, rule flow_find_seat [OF on seat], simp)
    apply (rule flow_log, rule flow_bind, rule call [where m = m and s = s])
       apply (simp add: shown)
      apply (simp add: user h)
     apply (simp add: step)
    apply (simp add: seat_command_of_def)
    apply (rule flow_log, rule flow_draw, rule flow_draw, rule flow_draw)
    subgoal premises here for row w1 n1 n2 n3
    proof -
      obtain deadline where "hold_deadline app n3 h = Some deadline" using date by blast
      moreover have w1: "sys_db w1 = svc_expire_stale (db_clock env (sys_db_ticks w)) (sys_db w)"
        using here(5) by (simp add: same_db_def)
      moreover have shown2: "system_shows env w2 (put_seat e s (Held u d) m)"
        if "db_create_held (env_db app) req w1 = (r, w2)" for req r w2
        using create_call(1) [OF that [unfolded runs_on_sel [OF on]]] here(4) system_shows_redis by metis
      moreover have "map row_key (reservations (sys_db w2)) = map row_key (reservations (sys_db w))"
        if "db_create_held (env_db app) req w1 = (Inl err, w2)" for req err w2
        using create_call(4) [OF that [unfolded runs_on_sel [OF on]]] w1 by simp
      moreover have "flow (act_bind (get_event_seat app e s) (\<lambda>view. act_return
          \<lparr>hold_reservation_view = v, hold_seat = view, hold_created = created\<rparr>)) Q w2"
        if "db_create_held (env_db app) req w1 = (Inr (v, created), w2)"
          "hr_event_id req = e" "hr_seat_id req = s" "hr_user_id req = u" for req v created w2
      proof -
        note made = create_call(2-4) [OF that(1) [unfolded runs_on_sel [OF on]]]
        have "res_id (fst v) = hr_reservation_id req" using made(3) find_reservation_Some by auto
        then show ?thesis
          using view [OF shown2 [OF that(1)]] made w1 that(2-4) by (auto simp: held_request_matches_def)
      qed
      ultimately show ?thesis
        apply (simp only: option.case)
        apply (rule flow_bind, rule flow_try, rule flow_log, rule flow_any)
        subgoal for r w2
          by (cases r) (auto intro!: flow_log undo)
        done
    qed
    done
qed

text \<open>A hold that the seat store refuses, and one whose deadline is no date.\<close>

lemma flow_hold_refused:
  assumes on: "runs_on env app" and plain: "plain e" and user: "user_ok u"
    and shown: "system_shows env w m"
    and taken: "age (system_now env w) (m e s) = a" "a = Held v d \<and> v \<noteq> u \<or> a = Confirmed v"
    and seat: "get_event e (sys_db w) \<noteq> None" "get_seat e s (sys_db w) \<noteq> None"
    and h: "0 < h" "printable (nat h)"
    and Q: "\<And>w'. system_shows env w' (put_seat e s a m) \<Longrightarrow>
      sys_db w' = svc_expire_stale (db_clock env (sys_db_ticks w)) (sys_db w) \<Longrightarrow>
      Q (Inl (conflict (if a = Confirmed v then ''seat is already confirmed'' else ''seat is already held by another user''))) w'"
  shows "flow (hold_reservation app e s u h) Q w"
proof -
  note call = flow_seat_call [OF on _ plain, where oper = "OpReserve u h", unfolded seat_call.simps]
  have step: "abs_step (system_now env w) (OpReserve u h) (m e s) = (Inr (False, abs_status (system_now env w) a), a)"
    using h taken by (auto simp: abs_step_def)
  have msg: "seat_conflict_message (seat_command_of (False, abs_status (system_now env w) a)) u =
      (if a = Confirmed v then ''seat is already confirmed'' else ''seat is already held by another user'')"
    using taken(2) by (auto simp: seat_conflict_message_def seat_command_of_def seat_names mk_status_def)
  have no: "\<not> cmd_success (seat_command_of (False, x))" for x by (simp add: seat_command_of_def)
  show ?thesis
    unfolding hold_reservation_def Let_def
    apply (rule flow_bind, rule flow_find_seat [OF on seat], unfold sum.case)
    apply (rule flow_log, rule flow_bind, rule call [where m = m and s = s])
       apply (simp add: shown)
      apply (simp add: user h)
     apply (simp add: step)
    apply (simp only: sum.case no msg not_False_eq_True if_True)
    apply (rule flow_log, rule flow_raise, rule Q)
    by (simp_all add: same_db_def)
qed

lemma flow_hold_overflow:
  assumes on: "runs_on env app" and plain: "plain e" and user: "user_ok u"
    and shown: "system_shows env w m" and free: "age (system_now env w) (m e s) = Available"
    and seat: "get_event e (sys_db w) \<noteq> None" "get_seat e s (sys_db w) \<noteq> None"
    and h: "0 < h" "printable (nat h)" "compute_deadline (system_now env w) h = Inr d"
    and date: "\<And>n. hold_deadline app n h = None"
    and Q: "\<And>w'. system_shows env w' (put_seat e s (Held u d) m) \<Longrightarrow>
      sys_db w' = svc_expire_stale (db_clock env (sys_db_ticks w)) (sys_db w) \<Longrightarrow> Q (Inl DateOverflowError) w'"
  shows "flow (hold_reservation app e s u h) Q w"
proof -
  note call = flow_seat_call [OF on _ plain, where oper = "OpReserve u h", unfolded seat_call.simps]
  have step: "abs_step (system_now env w) (OpReserve u h) (m e s) =
      (Inr (True, mk_status SEAT_HELD (Some u) h), Held u d)"
    using h by (simp add: abs_step_def free hold_or_fail_def)
  show ?thesis
    unfolding hold_reservation_def Let_def
    apply (rule flow_bind, rule flow_find_seat [OF on seat], simp)
    apply (rule flow_log, rule flow_bind, rule call [where m = m and s = s])
       apply (simp add: shown)
      apply (simp add: user h)
     apply (simp add: step)
    apply (simp add: seat_command_of_def)
    apply (rule flow_log, rule flow_draw, rule flow_draw, rule flow_draw)
    apply (simp add: date, rule flow_raise, rule Q)
    by (simp_all add: same_db_def)
qed

end
