(* ===== verification/System_Properties.thy ===== *)
theory System_Properties
  imports System_Flows Ticketing_Properties
begin

section \<open>Properties of the application server over both stores\<close>

text \<open>
  The reconciler and the flows of the orchestration service, run on the models of the seat
  store and of the database service.
\<close>

subsection \<open>A pass of the reconciler\<close>

definition rows_named :: "TicketingDb \<Rightarrow> bool" where
  "rows_named db \<longleftrightarrow> (\<forall>r\<in>set (reservations db). plain (res_event_id r) \<and> user_ok (res_user_id r))"

lemma rows_named_keys:
  assumes "rows_named db" and "row_key r \<in> row_key ` set (reservations db)"
  shows "plain (res_event_id r) \<and> user_ok (res_user_id r)"
  using assms by (auto simp: rows_named_def row_key_def)

lemma rows_named_same:
  assumes "rows_named db" and "map row_key (reservations db') = map row_key (reservations db)"
  shows "rows_named db'"
proof -
  have "row_key ` set (reservations db') = row_key ` set (reservations db)"
    using arg_cong [OF assms(2), of set] by simp
  then have "row_key r \<in> row_key ` set (reservations db)" if "r \<in> set (reservations db')" for r
    using that by blast
  then show ?thesis using rows_named_keys [OF assms(1)] unfolding rows_named_def by blast
qed

lemma swept_named:
  assumes "rows_named db" and "map (\<lambda>v. row_key (fst v)) vs = map row_key (list_stale_held_reservations now limit db)"
    and "v \<in> set vs"
  shows "plain (res_event_id (fst v)) \<and> user_ok (res_user_id (fst v))"
proof (rule rows_named_keys [OF assms(1)])
  have "row_key (fst v) \<in> row_key ` set (list_stale_held_reservations now limit db)"
    using arg_cong [OF assms(2), of set] assms(3) by auto
  then show "row_key (fst v) \<in> row_key ` set (reservations db)" using stale_listed by blast
qed

text \<open>
  A pass looks at the earliest confirmations up to its limit; a negative limit is none. A limit
  reaches all of them when the table has at most that many confirmed rows.
\<close>

definition within_limit :: "int \<Rightarrow> TicketingDb \<Rightarrow> bool" where
  "within_limit limit db \<longleftrightarrow>
     limit < 0 \<or> length (filter (\<lambda>r. res_status r = CONFIRMED) (reservations db)) \<le> nat limit"

lemma limited_confirmed:
  "list_confirmed_reservations (Some limit) db = sql_limit limit (list_confirmed_reservations (Some (- 1)) db)"
  by (simp add: list_confirmed_reservations_def sql_limit_def)

lemma all_confirmed:
  "set (list_confirmed_reservations (Some (- 1)) db) = {r \<in> set (reservations db). res_status r = CONFIRMED}"
  by (simp add: list_confirmed_reservations_def sql_limit_def)

lemma listed_confirmed:
  assumes "r \<in> set (list_confirmed_reservations (Some limit) db)"
  shows "r \<in> set (reservations db) \<and> res_status r = CONFIRMED"
proof -
  have "r \<in> set (list_confirmed_reservations (Some (- 1)) db)"
    using assms by (auto simp: limited_confirmed [of limit] sql_limit_def dest: in_set_takeD split: if_splits)
  then show ?thesis by (simp add: all_confirmed)
qed

lemma within_limit_listed:
  assumes "within_limit limit db" and "r \<in> set (reservations db)" and "res_status r = CONFIRMED"
  shows "r \<in> set (list_confirmed_reservations (Some limit) db)"
  using assms by (auto simp: list_confirmed_reservations_def sql_limit_def within_limit_def)

lemma distinct_mapI: "distinct (map f xs) \<Longrightarrow> (\<And>x y. x \<in> set xs \<Longrightarrow> y \<in> set xs \<Longrightarrow> g x = g y \<Longrightarrow> f x = f y) \<Longrightarrow> distinct (map g xs)"
  by (induction xs) auto

lemma limited_distinct:
  assumes "db_inv db"
  shows "distinct (map seat_id_of (list_confirmed_reservations (Some limit) db))"
proof -
  let ?rs = "list_confirmed_reservations (Some (- 1)) db"
  have ids: "distinct (map res_id ?rs)"
    using assms by (simp add: list_confirmed_reservations_def sql_limit_def distinct_map db_inv_def inj_on_def)
  have "distinct (map seat_id_of ?rs)"
    using ids
  proof (rule distinct_mapI)
    fix x y
    assume in_rs: "x \<in> set ?rs" "y \<in> set ?rs" and same: "seat_id_of x = seat_id_of y"
    then have "x \<in> set (reservations db)" "y \<in> set (reservations db)"
      "confirmed_for (res_event_id x) (res_seat_id x) x" "confirmed_for (res_event_id x) (res_seat_id x) y"
      by (simp_all add: all_confirmed confirmed_for_def seat_id_of_def)
    then show "res_id x = res_id y"
      using assms unfolding db_inv_def confirmed_unique_def by blast
  qed
  then show ?thesis
    unfolding limited_confirmed [of limit] by (simp add: sql_limit_def take_map [symmetric])
qed

lemma sweep_of_system:
  assumes "db_inv (sys_db w)"
  shows "\<exists>vs w1. rec_expire_stale (system_reconciler env texts) limit w = (Inr (map Some vs), w1) \<and>
    sys_redis w1 = sys_redis w \<and> db_inv (sys_db w1) \<and> rows_follow (sys_db w) (sys_db w1) \<and>
    map row_key (reservations (sys_db w1)) = map row_key (reservations (sys_db w)) \<and>
    map (\<lambda>v. row_key (fst v)) vs =
      map row_key (list_stale_held_reservations (db_clock env (sys_db_ticks w)) limit (sys_db w))"
proof -
  let ?now = "db_clock env (sys_db_ticks w)"
  let ?ts = "\<lambda>n. (db_clock env (sys_db_ticks w + 1 + 2 * n), db_clock env (sys_db_ticks w + 2 + 2 * n))"
  obtain vs where vs: "fst (svc_expire_stale_reservations ?now ?ts limit (sys_db w)) = Inr (map Some vs)"
    "map (\<lambda>v. row_key (fst v)) vs = map row_key (list_stale_held_reservations ?now limit (sys_db w))"
    using sweep_views [OF assms] by blast
  have inv: "db_inv (snd (svc_expire_stale_reservations ?now ?ts limit (sys_db w)))"
    "rows_follow (sys_db w) (snd (svc_expire_stale_reservations ?now ?ts limit (sys_db w)))"
    using expire_each_inv [OF assms] expire_each_follow [OF assms] by (simp_all add: svc_expire_stale_reservations_def)
  show ?thesis
    using vs inv sweep_keys [of ?now ?ts limit "sys_db w"]
    by (intro exI [of _ vs]) (auto simp: system_reconciler_def on_db_def split: prod.split)
qed

lemma system_reconciler_sel [simp]:
  "rec_redis (system_reconciler env texts) = system_redis env"
  "rec_list_confirmed (system_reconciler env texts) limit w = (Inr (list_confirmed_reservations limit (sys_db w)), w)"
  by (simp_all add: system_reconciler_def)

lemma pass_restores:
  assumes "system_shows env w m" and "db_inv (sys_db w)" and "rows_named (sys_db w)"
  shows "\<exists>report w' m'. run_once (system_reconciler env texts) limit w = (Inr report, w') \<and>
    report_errors report = [] \<and>
    map res_id (list_stale_held_reservations (db_clock env (sys_db_ticks w)) limit (sys_db w)) =
      expired_reservation_ids report \<and>
    db_inv (sys_db w') \<and> rows_follow (sys_db w) (sys_db w') \<and> rows_named (sys_db w') \<and>
    map row_key (reservations (sys_db w')) = map row_key (reservations (sys_db w)) \<and> system_shows env w' m' \<and>
    (\<forall>r\<in>set (list_confirmed_reservations (Some limit) (sys_db w')).
       m' (res_event_id r) (res_seat_id r) = Confirmed (res_user_id r))"
proof -
  let ?env = "system_reconciler env texts"
  let ?stale = "list_stale_held_reservations (db_clock env (sys_db_ticks w)) limit (sys_db w)"
  obtain vs w1 where sweep: "rec_expire_stale ?env limit w = (Inr (map Some vs), w1)"
    and w1: "sys_redis w1 = sys_redis w" "db_inv (sys_db w1)"
      "map row_key (reservations (sys_db w1)) = map row_key (reservations (sys_db w))"
    and follow: "rows_follow (sys_db w) (sys_db w1)"
    and vs: "map (\<lambda>v. row_key (fst v)) vs = map row_key ?stale"
    using sweep_of_system [OF assms(2)] by blast
  obtain report1 w2 m2 where rel: "release_holds ?env (map Some vs) new_report w1 = (Inr report1, w2)"
    and w2: "system_shows env w2 m2" and e1: "report_errors report1 = report_errors new_report"
    and x1: "expired_reservation_ids report1 = expired_reservation_ids new_report @ map (\<lambda>v. res_id (fst v)) vs"
    using sys.release_all [of env w1 m vs ?env new_report] swept_named [OF assms(3) vs] assms(1) system_shows_redis [OF w1(1)]
    by auto
  have db2: "sys_db w2 = sys_db w1" using release_holds_same_db [OF _ rel, of env] by (simp add: same_db_def)
  let ?rs = "list_confirmed_reservations (Some limit) (sys_db w2)"
  have named: "rows_named (sys_db w2)" using rows_named_same [OF assms(3) w1(3)] db2 by simp
  have inv: "db_inv (sys_db w2)" using w1(2) db2 by simp
  have dist: "distinct (map seat_id_of ?rs)" by (rule limited_distinct [OF inv])
  have rs_named: "\<forall>r\<in>set ?rs. plain (res_event_id r) \<and> user_ok (res_user_id r)"
    using named listed_confirmed by (auto simp: rows_named_def)
  obtain w' report where fin: "repair_seats ?env ?rs report1 w2 = (report, w')"
    and w': "system_shows env w' (confirm_all ?rs m2)" and e2: "report_errors report = report_errors report1"
    using sys.repair_all [OF w2 rs_named _ dist, of ?env report1] by auto
  have db': "sys_db w' = sys_db w2" using repair_seats_same_db [OF _ fin, of env] by (simp add: same_db_def)
  have x2: "expired_reservation_ids report = expired_reservation_ids report1" by (rule repair_seats_expired [OF fin])
  have "map fst (map (\<lambda>v. row_key (fst v)) vs) = map fst (map row_key ?stale)" by (simp only: vs)
  then have ids: "map (\<lambda>v. res_id (fst v)) vs = map res_id ?stale" by (simp add: row_key_def comp_def)
  have "run_once ?env limit w = (Inr report, w')"
    using sweep rel fin by (simp add: run_once_def expire_stale_holds_def repair_confirmed_seats_def)
  moreover have "confirm_all ?rs m2 (res_event_id r) (res_seat_id r) = Confirmed (res_user_id r)"
    if "r \<in> set (list_confirmed_reservations (Some limit) (sys_db w'))" for r
    using confirm_all_member [OF dist] that by (simp add: db')
  moreover have "report_errors report = []" "map res_id ?stale = expired_reservation_ids report"
    using e1 e2 x1 x2 ids by (simp_all add: new_report_def)
  moreover have "db_inv (sys_db w')" "rows_named (sys_db w')" "rows_follow (sys_db w) (sys_db w')"
    "map row_key (reservations (sys_db w')) = map row_key (reservations (sys_db w))"
    using inv named follow w1(3) db' db2 by simp_all
  ultimately show ?thesis using w' by blast
qed


text \<open>A system whose database has the booking and whose seat store has lost it.\<close>

definition small_env :: system_env where
  "small_env = \<lparr>redis_clock = (\<lambda>_. 0), redis_texts = (\<lambda>_ _ _. []), db_clock = (\<lambda>n. [11 + n]),
     web = \<lparr>render_json = (\<lambda>_. []),
            unhandled_response = \<lparr>status_code = 500, resp_text = [], resp_json = None\<rparr>\<rparr>\<rparr>"

definition lost_seat :: system where
  "lost_seat = \<lparr>sys_redis = (0, new_engine), sys_db = booked_db, sys_db_ticks = 0\<rparr>"

lemma new_engine_shows: "mono clock \<Longrightarrow> engine_shows clock (k, new_engine) (\<lambda>_ _. Available)"
  by (simp add: engine_shows_def seat_rep_def live_def lookup_key_def new_engine_def)

lemma lost_db: "sys_db lost_seat = booked_db"
  by (simp add: lost_seat_def)

lemma lost_shows: "system_shows small_env lost_seat (\<lambda>_ _. Available)"
  by (simp add: system_shows_def lost_seat_def small_env_def new_engine_shows mono_def)

lemma booked_ok: "db_inv booked_db"
  using svc_confirm_inv [OF held_inv, of "[11]" "[12]" "[4]" small_payment] by (simp add: booked_step)


subsection \<open>Holding and confirming\<close>

definition noon :: datetime where
  "noon = \<lparr>dt_year = 2026, dt_month = 3, dt_day = 18, dt_hour = 12, dt_minute = 0, dt_second = 0, dt_micro = 0, dt_offset = Some 0\<rparr>"

definition last_minute :: datetime where
  "last_minute = \<lparr>dt_year = 9999, dt_month = 12, dt_day = 31, dt_hour = 23, dt_minute = 59, dt_second = 0, dt_micro = 0, dt_offset = Some 0\<rparr>"

definition small_app :: "system app_env" where
  "small_app = \<lparr>env_redis = system_redis small_env, env_db = system_db small_env, log_now = (\<lambda>_. noon),
     now_provider = (\<lambda>_. noon), uuid4_hex = (\<lambda>n. [n])\<rparr>"

text \<open>The same a minute before the end of the calendar.\<close>

definition late_app :: "system app_env" where
  "late_app = small_app\<lparr>now_provider := \<lambda>_. last_minute\<rparr>"

definition start :: "system \<Rightarrow> system app_state" where
  "start w = \<lparr>app_world = w, app_log = [], app_ticks = 0\<rparr>"

definition free_seat :: "TicketingDb \<Rightarrow> system" where
  "free_seat d = \<lparr>sys_redis = (0, new_engine), sys_db = d, sys_db_ticks = 0\<rparr>"

text \<open>The same after user 9 has taken the seat in the seat store for a minute.\<close>

definition taken_seat :: "TicketingDb \<Rightarrow> system" where
  "taken_seat d = snd (redis_reserve_seat (system_redis small_env) [1] [3] [9] 60 (free_seat d))"

lemma small_runs: "runs_on small_env small_app"
  by (simp add: runs_on_def small_app_def)

lemma late_runs: "runs_on small_env late_app"
  by (simp add: runs_on_def late_app_def small_app_def)

lemma noon_micros: "field_micros noon = 63909518400000000" "field_micros last_minute = 315537983940000000"
  by (simp_all add: noon_def last_minute_def moment_eval)

lemma small_sums: "add_seconds noon 60 \<noteq> None" "add_seconds last_minute 500 = None"
  by (simp_all add: add_seconds_def datetime_at_None noon_micros day_micros_def max_ordinal_def del: not_None_eq)

lemma small_deadline: "hold_deadline small_app n 60 \<noteq> None" "hold_deadline late_app n 500 = None"
  using small_sums by (simp_all add: hold_deadline_def small_app_def late_app_def)

lemma start_world [simp]: "app_world (start w) = w"
  by (simp add: start_def)

lemma small_now [simp]: "system_now small_env w = 0"
  by (simp add: system_now_def small_env_def)

lemma free_shows: "system_shows small_env (free_seat d) (\<lambda>_ _. Available)"
  by (simp add: system_shows_def free_seat_def small_env_def new_engine_shows mono_def)

lemma free_db [simp]: "sys_db (free_seat d) = d" "sys_db_ticks (free_seat d) = 0"
  by (simp_all add: free_seat_def)

lemma small_names: "plain [1]" "user_ok [2]" "user_ok [9]"
  by (simp_all add: plain_def user_ok_def scalar_def)

lemma small_deadlines: "compute_deadline 0 60 = Inr 60" "compute_deadline 0 500 = Inr 500"
  using compute_deadline_exact [OF clock_ok_small, of 60] compute_deadline_exact [OF clock_ok_small, of 500]
  by simp_all

lemma small_seat [simp]:
  "\<exists>y. get_event [Suc 0] small_db = Some y" "\<exists>y. get_seat [Suc 0] [3] small_db = Some y"
  "\<exists>y. get_event [Suc 0] held_db = Some y" "\<exists>y. get_seat [Suc 0] [3] held_db = Some y"
  by (simp_all add: small_eval)

lemma small_rows: "reservations small_db = []"
  by (simp add: small_db_def)

lemma free_start: "system_shows small_env (app_world (start (free_seat d))) (\<lambda>_ _. Available)"
  by (simp add: free_shows)

lemma taken_ok:
  "system_shows small_env (taken_seat d) (put_seat [1] [3] (Held [9] 60) (\<lambda>_ _. Available))"
  "sys_db (taken_seat d) = d" "sys_db_ticks (taken_seat d) = 0"
proof -
  have step: "abs_step 0 (OpReserve [9] 60) Available = (Inr (True, mk_status SEAT_HELD (Some [9]) 60), Held [9] 60)"
    by (simp add: abs_step_def hold_or_fail_def small_deadlines)
  obtain w' where w': "redis_reserve_seat (system_redis small_env) [1] [3] [9] 60 (free_seat d) =
      (Inr (seat_command_of (True, mk_status SEAT_HELD (Some [9]) 60)), w')"
    "system_shows small_env w' (put_seat [1] [3] (Held [9] 60) (\<lambda>_ _. Available))"
    using sys.op_call [OF free_shows [of d] small_names(1), of "OpReserve [9] 60" _ "[3]"] small_names printable_60 step by auto
  show "system_shows small_env (taken_seat d) (put_seat [1] [3] (Held [9] 60) (\<lambda>_ _. Available))"
    "sys_db (taken_seat d) = d" "sys_db_ticks (taken_seat d) = 0"
    using w' redis_same_db(2) [OF w'(1)] by (simp_all add: taken_seat_def same_db_def)
qed


lemma taken_start:
  "system_shows small_env (app_world (start (taken_seat d))) (put_seat [1] [3] (Held [9] 60) (\<lambda>_ _. Available))"
  by (simp only: start_world taken_ok)

text \<open>
  Claim C6: a request to hold a free seat that exists, for a duration whose deadline both
  stores can represent, is all or nothing. When it succeeds, the seat store holds the seat for
  the user and the database has the reservation that is returned; when it fails for any reason
  (also when the database refuses it after the seat has been held), the seat is free again and
  no reservation has been added.
\<close>

theorem hold_is_all_or_nothing:
  assumes "runs_on env app" and "plain e" and "user_ok u"
    and "system_shows env (app_world st) m" and "age (system_now env (app_world st)) (m e s) = Available"
    and "get_event e (sys_db (app_world st)) \<noteq> None" and "get_seat e s (sys_db (app_world st)) \<noteq> None"
    and "0 < h" and "printable (nat h)" and "compute_deadline (system_now env (app_world st)) h = Inr d"
    and "\<And>n. hold_deadline app n h \<noteq> None"
    and run: "hold_reservation app e s u h st = (r, st')"
  shows "\<exists>a. system_shows env (app_world st') (put_seat e s a m) \<and>
    (case r of
       Inr res \<Rightarrow>
         (let row = fst (hold_reservation_view res)
          in a = Held u d \<and> res_event_id row = e \<and> res_seat_id row = s \<and> res_user_id row = u \<and>
             (hold_created res \<longrightarrow> res_status row = HELD) \<and>
             (\<exists>x. find_reservation (res_id row) (sys_db (app_world st')) = Some x \<and> row_key x = row_key row))
     | Inl err \<Rightarrow>
         age (system_now env (app_world st')) a = Available \<and>
         map row_key (reservations (sys_db (app_world st'))) = map row_key (reservations (sys_db (app_world st))))"
    (is "?P r (app_world st')")
proof -
  have "flow (hold_reservation app e s u h) ?P (app_world st)"
    by (rule flow_hold [OF assms(1-11)]) (fastforce simp: Let_def)+
  from flowD [OF this run] show ?thesis .
qed

theorem hold_is_all_or_nothing_witness:
  "\<exists>a. system_shows small_env (app_world (snd (hold_reservation small_app [1] [3] [2] 60 (start (free_seat small_db)))))
          (put_seat [1] [3] a (\<lambda>_ _. Available)) \<and>
     (case fst (hold_reservation small_app [1] [3] [2] 60 (start (free_seat small_db))) of
        Inr res \<Rightarrow> a = Held [2] 60 \<and> res_user_id (fst (hold_reservation_view res)) = [2]
      | Inl err \<Rightarrow> age 0 a = Available)"
proof -
  obtain r st' where run: "hold_reservation small_app [1] [3] [2] 60 (start (free_seat small_db)) = (r, st')" by fastforce
  from hold_is_all_or_nothing [OF small_runs small_names(1,2) free_start _ _ _ _ _ _ small_deadline(1) run, of 60]
  obtain a where "system_shows small_env (app_world st') (put_seat [1] [3] a (\<lambda>_ _. Available))"
    "case r of Inr res \<Rightarrow> a = Held [2] 60 \<and> res_user_id (fst (hold_reservation_view res)) = [2]
     | Inl err \<Rightarrow> age 0 a = Available"
    by (cases r) (auto simp: small_deadlines Let_def)
  then show ?thesis unfolding run fst_conv snd_conv by blast
qed

text \<open>
  Claim C24: when the duration of a hold is so long that its deadline is no date, the request
  fails with \<open>OverflowError\<close> after the seat has been held: no reservation is created and the
  seat stays held in the seat store, since the deadline is computed outside of the block that
  releases the seat on errors.
\<close>

theorem hold_overflow_leaks_the_seat:
  assumes "runs_on env app" and "plain e" and "user_ok u"
    and "system_shows env (app_world st) m" and "age (system_now env (app_world st)) (m e s) = Available"
    and "get_event e (sys_db (app_world st)) \<noteq> None" and "get_seat e s (sys_db (app_world st)) \<noteq> None"
    and "0 < h" and "printable (nat h)" and "compute_deadline (system_now env (app_world st)) h = Inr d"
    and "\<And>n. hold_deadline app n h = None"
  shows "\<exists>st'. hold_reservation app e s u h st = (Inl DateOverflowError, st') \<and>
    system_shows env (app_world st') (put_seat e s (Held u d) m) \<and>
    map row_key (reservations (sys_db (app_world st'))) = map row_key (reservations (sys_db (app_world st)))"
proof -
  have "flow (hold_reservation app e s u h)
      (\<lambda>r w'. r = Inl DateOverflowError \<and> system_shows env w' (put_seat e s (Held u d) m) \<and>
        map row_key (reservations (sys_db w')) = map row_key (reservations (sys_db (app_world st)))) (app_world st)"
    by (rule flow_hold_overflow [OF assms]) simp
  from flow_ends [OF this] show ?thesis by blast
qed

theorem hold_overflow_leaks_the_seat_witness:
  "\<exists>st'. hold_reservation late_app [1] [3] [2] 500 (start (free_seat small_db)) = (Inl DateOverflowError, st') \<and>
     system_shows small_env (app_world st') (put_seat [1] [3] (Held [2] 500) (\<lambda>_ _. Available)) \<and>
     reservations (sys_db (app_world st')) = []"
proof -
  have "printable 500" by (rule printable_small) simp
  then show ?thesis
    using small_deadline(2) hold_overflow_leaks_the_seat [OF late_runs small_names(1,2), of "start (free_seat small_db)" "\<lambda>_ _. Available" "[3]" 500 500]
    by (auto simp: free_shows small_deadlines small_rows)
qed

text \<open>
  Claim C23: a request to hold a seat that is confirmed, or held by another user, fails with the
  conflict that says so. The seat stays as it is, and the database only expires stale holds.
\<close>

theorem taken_seat_is_refused:
  assumes "runs_on env app" and "plain e" and "user_ok u"
    and "system_shows env (app_world st) m"
    and "age (system_now env (app_world st)) (m e s) = a" and "a = Held v d \<and> v \<noteq> u \<or> a = Confirmed v"
    and "get_event e (sys_db (app_world st)) \<noteq> None" and "get_seat e s (sys_db (app_world st)) \<noteq> None"
    and "0 < h" and "printable (nat h)"
  shows "\<exists>st'. hold_reservation app e s u h st =
      (Inl (conflict (if a = Confirmed v then ''seat is already confirmed'' else ''seat is already held by another user'')), st') \<and>
    system_shows env (app_world st') (put_seat e s a m) \<and>
    sys_db (app_world st') = svc_expire_stale (db_clock env (sys_db_ticks (app_world st))) (sys_db (app_world st))"
proof -
  have "flow (hold_reservation app e s u h)
      (\<lambda>r w'. r = Inl (conflict (if a = Confirmed v then ''seat is already confirmed'' else ''seat is already held by another user'')) \<and>
        system_shows env w' (put_seat e s a m) \<and>
        sys_db w' = svc_expire_stale (db_clock env (sys_db_ticks (app_world st))) (sys_db (app_world st))) (app_world st)"
    by (rule flow_hold_refused [OF assms]) simp
  from flow_ends [OF this] show ?thesis by blast
qed

theorem taken_seat_is_refused_witness:
  "\<exists>st'. hold_reservation small_app [1] [3] [2] 60 (start (taken_seat small_db)) =
     (Inl (conflict ''seat is already held by another user''), st')"
  using taken_seat_is_refused [OF small_runs small_names(1,2) taken_start [of small_db], of "[3]" "Held [9] 60" "[9]" 60 60]
  by (auto simp: taken_ok is_expired_def)



text \<open>
  Finalizing a confirmed seat calls the seat store at most three times, for any client.
  It calls again only after an upstream error or an answer that does not show the seat as
  confirmed for the user; it returns the first other outcome, and after three failures raises the
  error of the last one.
\<close>

lemma finalization_is_bounded:
  fixes app :: "'w app_env"
  assumes "finalize_confirmed_seat app e s u st = (r, st')"
    and "f = redis_force_confirm_seat (env_redis app) e s u"
  shows "\<exists>k<3. (\<forall>j<k. retried u (fst (f (after_calls f j (app_world st))))) \<and>
    app_world st' = after_calls f (Suc k) (app_world st) \<and>
    (if retried u (fst (f (after_calls f k (app_world st))))
     then k = 2 \<and> r = Inl (retry_error (fst (f (after_calls f k (app_world st)))))
     else r = fst (f (after_calls f k (app_world st))))"
proof -
  have three: "REDIS_CONFIRM_RETRY_ATTEMPTS = Suc 2" by (simp add: REDIS_CONFIRM_RETRY_ATTEMPTS_def)
  have "attempts f u (Suc 2) (upstream (lit ''Redis did not finalize the confirmed seat'')) (app_world st) =
      (r, app_world st')"
    using flowD [OF flow_finalize_loop assms(1) [unfolded finalize_confirmed_seat_def three]] assms(2) by simp
  from attempts_bounded [OF this] show ?thesis by (auto simp: less_Suc_eq_le eval_nat_numeral)
qed

end
