(* ===== verification/Load_Reader.thy ===== *)
theory Load_Reader
  imports Session_Laws
begin

section \<open>The load client's side of the protocol (\<open>client/auto_ticketing.py\<close>)\<close>

text \<open>
  The load client has its own encoder and reads replies from a blocking stream. The stream is
  the bytes that are still to come before the server closes the connection; a reading function
  returns what it has read and the rest. The recursion on nested arrays is bounded by the
  interpreter, as an argument.
\<close>

datatype load_exn =
    RespError ustr
  | LoadConnectionError
  | LoadValueError
  | LoadUnicodeError
  | LoadRecursionError

subsection \<open>Requests\<close>

fun resp_chunks :: "ustr list \<Rightarrow> bytes option" where
  "resp_chunks [] = Some []"
| "resp_chunks (token # tokens) =
     (case utf8_encode token of
        None \<Rightarrow> None
      | Some encoded \<Rightarrow>
          (case resp_chunks tokens of
             None \<Rightarrow> None
           | Some rest \<Rightarrow> Some (''$'' @ digits_bytes (length encoded) @ [CR, LF] @ encoded @ [CR, LF] @ rest)))"

definition encode_resp_command :: "ustr list \<Rightarrow> bytes option" where
  "encode_resp_command tokens =
     map_option (\<lambda>chunks. ''*'' @ digits_bytes (length tokens) @ [CR, LF] @ chunks) (resp_chunks tokens)"

lemma resp_chunks_tokens: "resp_chunks tokens = encode_tokens tokens"
  by (induction tokens) (simp_all add: RESP_LINE_ENDING_def split: option.split)

text \<open>Both clients write the same bytes.\<close>

lemma load_request: "encode_resp_command tokens = encode_command tokens"
  by (simp add: encode_resp_command_def encode_command_def resp_chunks_tokens RESP_LINE_ENDING_def split: option.split)

subsection \<open>Replies\<close>

text \<open>\<open>reader.readline()\<close>: up to and with the next line feed, or everything.\<close>

fun stream_line :: "bytes \<Rightarrow> bytes \<times> bytes" where
  "stream_line [] = ([], [])"
| "stream_line (c # m) = (if c = LF then ([c], m) else (case stream_line m of (l, r) \<Rightarrow> (c # l, r)))"

definition load_readline :: "bytes \<Rightarrow> (load_exn + bytes) \<times> bytes" where
  "load_readline m =
     (case stream_line m of
        (line, rest) \<Rightarrow>
          if drop (length line - 2) line = [CR, LF] then (Inr (take (length line - 2) line), rest)
          else (Inl (RespError (lit ''Malformed RESP line from server'')), rest))"

definition read_text :: "bytes \<Rightarrow> (load_exn + ustr) \<times> bytes" where
  "read_text m =
     (case load_readline m of
        (Inl e, r) \<Rightarrow> (Inl e, r)
      | (Inr line, r) \<Rightarrow> (case utf8_decode line of None \<Rightarrow> Inl LoadUnicodeError | Some t \<Rightarrow> Inr t, r))"

definition read_number :: "bytes \<Rightarrow> (load_exn + int) \<times> bytes" where
  "read_number m =
     (case load_readline m of
        (Inl e, r) \<Rightarrow> (Inl e, r)
      | (Inr line, r) \<Rightarrow> (case py_int_bytes line of None \<Rightarrow> Inl LoadValueError | Some n \<Rightarrow> Inr n, r))"

text \<open>\<open>reader.read(n)\<close> with a negative number other than -1 raises \<open>ValueError\<close>.\<close>

definition read_bulk :: "bytes \<Rightarrow> (load_exn + resp_reply) \<times> bytes" where
  "read_bulk m =
     (case read_number m of
        (Inl e, r) \<Rightarrow> (Inl e, r)
      | (Inr n, r) \<Rightarrow>
          if n = - 1 then (Inr RNone, r)
          else if n < 0 then (Inl LoadValueError, r)
          else
            (let payload = take (nat n) r; rest = drop (nat n) r
             in if take 2 rest \<noteq> [CR, LF]
                then (Inl (RespError (lit ''Malformed RESP bulk string from server'')), drop 2 rest)
                else (case utf8_decode payload of None \<Rightarrow> Inl LoadUnicodeError | Some t \<Rightarrow> Inr (RStr t), drop 2 rest)))"

primrec read_values ::
  "(bytes \<Rightarrow> (load_exn + resp_reply) \<times> bytes) \<Rightarrow> nat \<Rightarrow> bytes \<Rightarrow> (load_exn + resp_reply list) \<times> bytes" where
  "read_values f 0 m = (Inr [], m)"
| "read_values f (Suc n) m =
     (case f m of
        (Inl e, r) \<Rightarrow> (Inl e, r)
      | (Inr v, r) \<Rightarrow>
          (case read_values f n r of
             (Inl e, r') \<Rightarrow> (Inl e, r')
           | (Inr vs, r') \<Rightarrow> (Inr (v # vs), r')))"

text \<open>\<open>repr\<close> of one byte.\<close>

definition hex_digit :: "nat \<Rightarrow> nat" where
  "hex_digit n = (if n < 10 then 48 + n else 87 + n)"

definition byte_repr :: "char \<Rightarrow> ustr" where
  "byte_repr c =
     (let n = (of_char c :: nat)
      in if n = 39 then [98, 34, 39, 34]
         else [98, 39] @
           (if n = 92 then [92, 92]
            else if n = 9 then [92, 116]
            else if n = 10 then [92, 110]
            else if n = 13 then [92, 114]
            else if 32 \<le> n \<and> n < 127 then [n]
            else [92, 120, hex_digit (n div 16), hex_digit (n mod 16)]) @ [39])"

primrec read_resp_value :: "nat \<Rightarrow> bytes \<Rightarrow> (load_exn + resp_reply) \<times> bytes" where
  "read_resp_value 0 m = (Inl LoadRecursionError, m)"
| "read_resp_value (Suc depth) m =
     (case m of
        [] \<Rightarrow> (Inl LoadConnectionError, [])
      | c # r \<Rightarrow>
          if c = CHR ''+''
          then (case read_text r of (Inl e, r') \<Rightarrow> (Inl e, r') | (Inr t, r') \<Rightarrow> (Inr (RStr t), r'))
          else if c = CHR ''-''
          then (case read_text r of (Inl e, r') \<Rightarrow> (Inl e, r') | (Inr t, r') \<Rightarrow> (Inl (RespError t), r'))
          else if c = CHR '':''
          then (case read_number r of (Inl e, r') \<Rightarrow> (Inl e, r') | (Inr n, r') \<Rightarrow> (Inr (RInt n), r'))
          else if c = CHR ''$'' then read_bulk r
          else if c = CHR ''*''
          then
            (case read_number r of
               (Inl e, r') \<Rightarrow> (Inl e, r')
             | (Inr n, r') \<Rightarrow>
                 if n = - 1 then (Inr RNone, r')
                 else
                   (case read_values (read_resp_value depth) (nat n) r' of
                      (Inl e, r'') \<Rightarrow> (Inl e, r'')
                    | (Inr vs, r'') \<Rightarrow> (Inr (RList vs), r'')))
          else (Inl (RespError (lit ''Unsupported RESP prefix: '' @ byte_repr c)), r))"

declare read_resp_value.simps [simp del]

subsection \<open>What the server writes is read back\<close>

lemma stream_line_end: "LF \<notin> set l \<Longrightarrow> stream_line (l @ CR # LF # r) = (l @ [CR, LF], r)"
  by (induction l) auto

lemma load_readline_line [wire_simps]:
  "LF \<notin> set l \<Longrightarrow> load_readline (l @ RESP_LINE_ENDING @ r) = (Inr l, r)"
  by (simp add: load_readline_def RESP_LINE_ENDING_def stream_line_end)

lemma LF_not_digits [simp]: "LF \<notin> set (digits_bytes n)"
proof
  assume "LF \<in> set (digits_bytes n)"
  then obtain c where c: "c \<in> set (nat_str n)" "LF = char_of c" by (auto simp: digits_bytes_def)
  have "of_char LF = (10 :: nat)" by simp
  moreover have "of_char (char_of c :: char) = c" using c nat_str_ascii [of n] by auto
  ultimately show False using c nat_str_ascii [of n] by auto
qed

lemma LF_not_int [simp]: "LF \<notin> set (int_bytes n)"
proof
  assume "LF \<in> set (int_bytes n)"
  then obtain c where c: "c \<in> set (int_str n)" "LF = char_of c" by (auto simp: int_bytes_def)
  have "of_char LF = (10 :: nat)" by simp
  moreover have "of_char (char_of c :: char) = c" using c int_str_bounds [of c n] by auto
  ultimately show False using c int_str_bounds [of c n] by auto
qed

lemma read_number_digits: "printable n \<Longrightarrow> read_number (digits_bytes n @ RESP_LINE_ENDING @ r) = (Inr (int n), r)"
  by (simp add: read_number_def wire_simps)

lemma read_bulk_bulk:
  assumes "utf8_decode b = Some t" and "printable (length b)"
  shows "read_resp_value (Suc d) (bulk b @ r) = (Inr (RStr t), r)"
proof -
  have "read_number (digits_bytes (length b) @ RESP_LINE_ENDING @ (b @ RESP_LINE_ENDING @ r)) =
      (Inr (int (length b)), b @ RESP_LINE_ENDING @ r)"
    by (rule read_number_digits [OF assms(2)])
  then show ?thesis
    using assms by (simp add: read_resp_value.simps bulk_def read_bulk_def Let_def RESP_LINE_ENDING_def)
qed

lemma read_item:
  assumes "scalar_wire v"
  shows "read_resp_value (Suc d) (item_bytes v @ r) = (Inr (reply_of_scalar v), r)"
proof (cases v)
  case (SStr s)
  then obtain b where b: "utf8_encode s = Some b" "printable (length b)" "utf8_decode b = Some s"
    using assms token_okD by (fastforce simp: scalar_wire_def)
  then show ?thesis using SStr read_bulk_bulk [OF b(3,2)] by (simp add: item_bytes_def reply_of_scalar_def)
next
  case (SInt n)
  have "read_number (int_bytes n @ RESP_LINE_ENDING @ r) = (Inr n, r)"
    using assms SInt py_int_int [of n] by (simp add: read_number_def wire_simps scalar_wire_def printable_iff)
  then show ?thesis using SInt by (simp add: item_bytes_def reply_of_scalar_def read_resp_value.simps)
next
  case SNone
  have "read_number (''-1'' @ RESP_LINE_ENDING @ r) = (Inr (- 1), r)"
    using load_readline_line [of "''-1''" r] by (simp add: read_number_def py_int_minus_one)
  then show ?thesis using SNone by (simp add: item_bytes_def reply_of_scalar_def read_resp_value.simps read_bulk_def)
qed

lemma read_items:
  "list_all scalar_wire vs \<Longrightarrow>
     read_values (read_resp_value (Suc d)) (length vs) (concat (map item_bytes vs) @ r) = (Inr (map reply_of_scalar vs), r)"
  by (induction vs) (simp_all add: read_item)

lemma read_result:
  assumes "result_wire x"
  shows "read_resp_value (Suc (Suc d)) (result_bytes x @ r) = (Inr (reply_of_result x), r)"
proof (cases x)
  case (Scalar v)
  then show ?thesis using assms read_item [of v] by (simp add: result_wire_def result_bytes_def reply_of_result_def)
next
  case (Items vs)
  have ok: "list_all scalar_wire vs" "printable (length vs)" using assms Items by (simp_all add: result_wire_def)
  show ?thesis
    using read_items [OF ok(1), of d r] read_number_digits [OF ok(2), of "concat (map item_bytes vs) @ r"] Items
    by (simp add: result_bytes_def reply_of_result_def read_resp_value.simps)
qed

lemma utf8_no_LF: "utf8_encode s = Some b \<Longrightarrow> 10 \<notin> set s \<Longrightarrow> LF \<notin> set b"
proof
  assume s: "utf8_encode s = Some b" "10 \<notin> set s" and "LF \<in> set b"
  then obtain c u where c: "c \<in> set s" "scalar c" "u \<in> set (utf8_cp c)" "char_of u = LF"
    by (force simp: utf8_encode_def list_all_iff split: if_splits)
  have "u = 10" using c(4) of_char_of [of u] utf8_cp_bytes [OF c(2,3)] by simp
  then have "c = 10" using c(3) by (auto simp: utf8_cp_def split: if_splits)
  then show False using c(1) s(2) by simp
qed

lemma read_line_text:
  assumes "single_line s" and "list_all scalar s" and "of_char c < (128 :: nat)"
  shows "\<exists>b. utf8_encode (lit [c] @ s @ ENCODER_LINE_ENDING) = Some ([c] @ b @ RESP_LINE_ENDING) \<and>
    read_text (b @ RESP_LINE_ENDING @ r) = (Inr s, r)"
proof -
  obtain b where b: "utf8_encode s = Some b" using utf8_encode_total [OF assms(2)] by blast
  then have "LF \<notin> set b" using utf8_no_LF assms(1) by (auto simp: single_line_def)
  then have "read_text (b @ RESP_LINE_ENDING @ r) = (Inr s, r)"
    using utf8_decode_encode [OF b] by (simp add: read_text_def load_readline_line)
  moreover have "utf8_encode (lit [c] @ s @ ENCODER_LINE_ENDING) = Some ([c] @ b @ RESP_LINE_ENDING)"
    by (intro utf8_encode_append utf8_char utf8_line_ending b assms(3))
  ultimately show ?thesis by blast
qed

lemma read_simple_string:
  assumes "single_line s" and "list_all scalar s"
  shows "\<exists>t b. encode_simple_string s = Inr t \<and> utf8_encode t = Some b \<and>
    read_resp_value (Suc d) (b @ r) = (Inr (RStr s), r)"
  using read_line_text [OF assms, of "CHR ''+''" r] assms(1)
  by (auto simp: encode_simple_string_def read_resp_value.simps)

lemma read_error_line:
  assumes "single_line s" and "list_all scalar s"
  shows "\<exists>t b. encode_error s = Inr t \<and> utf8_encode t = Some b \<and>
    read_resp_value (Suc d) (b @ r) = (Inl (RespError (lit ''ERR '' @ s)), r)"
proof -
  have "single_line (lit ''ERR '' @ s)" using assms by (auto simp: single_line_def lit_def)
  moreover have "list_all scalar (lit ''ERR '' @ s)" using assms(2) by (simp only: list_all_append scalar_lit)
  ultimately obtain b where
    "utf8_encode (lit ''-'' @ (lit ''ERR '' @ s) @ ENCODER_LINE_ENDING) = Some (''-'' @ b @ RESP_LINE_ENDING)"
    "read_text (b @ RESP_LINE_ENDING @ r) = (Inr (lit ''ERR '' @ s), r)"
    using read_line_text [of "lit ''ERR '' @ s" "CHR ''-''" r] by auto
  then show ?thesis using assms(1) by (auto simp: encode_error_def lit_def read_resp_value.simps)
qed

text \<open>What a command comes back as: its result, or the text of its error.\<close>

definition load_view :: "(py_error \<Rightarrow> ustr) \<Rightarrow> py_error + command_result \<Rightarrow> load_exn + resp_reply" where
  "load_view lib outcome =
     (case outcome of
        Inl e \<Rightarrow> Inl (RespError (lit ''ERR '' @ format_error_message (class_name e) (error_str lib e)))
      | Inr r \<Rightarrow> Inr (reply_of_result r))"

lemma load_reply_read:
  assumes tokens: "list_all (list_all scalar) c" and lib: "\<And>e. list_all scalar (lib e)"
    and wire: "\<And>r. fst (handle_command now c s) = Inr r \<Longrightarrow> result_wire r"
  shows "\<exists>b. send_response (command_response lib c (fst (handle_command now c s))) = Some b \<and>
    read_resp_value (Suc (Suc d)) (b @ x) = (load_view lib (fst (handle_command now c s)), x)"
proof (cases "fst (handle_command now c s)")
  case (Inl e)
  have ok: "error_ok lib e" using handle_error_text [OF tokens Inl] lib by (rule error_ok_lib)
  have "list_all scalar (class_name e)" using class_name_lit [of e] by auto
  then have "list_all scalar (format_error_message (class_name e) (error_str lib e))"
    using ok by (auto simp: error_ok_def intro: format_scalar)
  from read_error_line [OF format_single_line this, of "Suc d" x] show ?thesis
    using Inl by (auto simp: command_response_def error_response_def send_response_def load_view_def)
next
  case (Inr r)
  obtain name args where v: "validate_command c = Inr (name, args)"
    using Inr handle_rejected [of c _ now s] by (cases "validate_command c") auto
  then have c: "c \<noteq> []" "hd c \<noteq> []" by (auto simp: validate_command_def split: if_splits)
  show ?thesis
  proof (cases "py_upper (hd c) = lit ''SET''")
    case True
    then have "r = Scalar (SStr (lit ''OK''))" using set_result [OF Inr] by simp
    then show ?thesis
      using read_simple_string [OF lit_OK(1), of "Suc d" x] True Inr c
      by (auto simp: command_response_def encode_command_result_def send_response_def
          SIMPLE_STRING_COMMANDS_def load_view_def reply_of_result_def reply_of_scalar_def)
  next
    case False
    obtain t where "encode_result_value r = Inr t" "utf8_encode t = Some (result_bytes r)"
      using encode_result_bytes [OF wire [OF Inr]] by blast
    then show ?thesis
      using False Inr c read_result [OF wire [OF Inr], of d x]
      by (simp add: command_response_def encode_command_result_def send_response_def
          SIMPLE_STRING_COMMANDS_def load_view_def)
  qed
qed

end
