(* ===== verification/Load_Client.thy ===== *)
theory Load_Client
  imports Load_Reader Storage_Properties
begin

section \<open>The load client (\<open>client/auto_ticketing.py\<close>)\<close>

text \<open>
  The stress demo starts one thread per user; each picks a seat, takes the client-side lock of
  the seat, asks the server for the seat's owner, writes its own name if there is none, reads it
  back and counts the outcome. The threads interleave: a step is the acquisition of a lock, one
  exchange with the server, or the end of the waiting for a reply. A thread that stops waiting
  leaves the lock; its command may be lost, or the server may still execute it, at any later
  time. The seat of each user is an argument (the code draws it at random). Every user has a
  connection of its own, and the server executes one command at a time.
\<close>

record DemoStats =
  total_seats :: nat
  sold_seats :: "nat set"
  success_count :: nat
  fail_count :: nat
  connection_failures :: nat

definition new_stats :: "nat \<Rightarrow> DemoStats" where
  "new_stats n = \<lparr>total_seats = n, sold_seats = {}, success_count = 0, fail_count = 0, connection_failures = 0\<rparr>"

definition remaining_seats :: "DemoStats \<Rightarrow> int" where
  "remaining_seats st = int (total_seats st) - int (card (sold_seats st))"

definition record_success :: "nat \<Rightarrow> DemoStats \<Rightarrow> int \<times> DemoStats" where
  "record_success seat_no st =
     (let st1 = st\<lparr>sold_seats := insert seat_no (sold_seats st), success_count := success_count st + 1\<rparr>
      in (remaining_seats st1, st1))"

definition record_failure :: "DemoStats \<Rightarrow> DemoStats" where
  "record_failure st = st\<lparr>fail_count := fail_count st + 1\<rparr>"

definition record_connection_failure :: "DemoStats \<Rightarrow> DemoStats" where
  "record_connection_failure st =
     st\<lparr>connection_failures := connection_failures st + 1, fail_count := fail_count st + 1\<rparr>"

definition load_seat_key :: "nat \<Rightarrow> ustr" where
  "load_seat_key n = lit ''seat:'' @ nat_str n"

definition load_user :: "nat \<Rightarrow> ustr" where
  "load_user u = lit ''User_'' @ nat_str u"

text \<open>The commands of \<open>reset_seats\<close>, one per seat, each at its own time.\<close>

definition reset_seats :: "(nat \<Rightarrow> rat) \<Rightarrow> nat \<Rightarrow> StorageEngine \<Rightarrow> StorageEngine" where
  "reset_seats clock n s =
     fold (\<lambda>i s. snd (handle_command (clock i) [lit ''DEL'', load_seat_key i] s)) [1..<n + 1] s"

subsection \<open>One user\<close>

text \<open>
  Where a thread is: \<open>Asking\<close>, \<open>Writing\<close> and \<open>Verifying\<close> hold the lock of the seat. A thread
  that meets an exception it does not catch ends as \<open>Died\<close>, and is not counted.
\<close>

datatype demo_end = Bought | Refused | Broken | Died
datatype demo_phase = AtBarrier | Asking | Writing | Verifying | Finished demo_end

record demo =
  demo_store :: StorageEngine
  demo_time :: rat
  seat_locks :: "nat \<Rightarrow> nat option"
  phases :: "nat \<Rightarrow> demo_phase"
  demo_stats :: DemoStats
  late_requests :: "nat \<Rightarrow> ustr list option"

definition demo_request :: "(nat \<Rightarrow> nat) \<Rightarrow> nat \<Rightarrow> demo_phase \<Rightarrow> ustr list" where
  "demo_request seat_of u p =
     (if p = Writing then [lit ''SET'', load_seat_key (seat_of u), load_user u]
      else [lit ''GET'', load_seat_key (seat_of u)])"

definition demo_finish :: "(nat \<Rightarrow> nat) \<Rightarrow> nat \<Rightarrow> demo_end \<Rightarrow> DemoStats \<Rightarrow> demo \<Rightarrow> demo" where
  "demo_finish seat_of u e stats d =
     d\<lparr>phases := (phases d)(u := Finished e), seat_locks := (seat_locks d)(seat_of u := None), demo_stats := stats\<rparr>"

definition demo_broken :: "(nat \<Rightarrow> nat) \<Rightarrow> nat \<Rightarrow> demo \<Rightarrow> demo" where
  "demo_broken seat_of u d = demo_finish seat_of u Broken (record_connection_failure (demo_stats d)) d"

text \<open>The \<open>except\<close> clause names \<open>OSError\<close>, \<open>ConnectionError\<close> and \<open>RespError\<close> only.\<close>

definition demo_caught :: "load_exn \<Rightarrow> bool" where
  "demo_caught e = (case e of RespError _ \<Rightarrow> True | LoadConnectionError \<Rightarrow> True | _ \<Rightarrow> False)"

text \<open>What the thread does with the reply.\<close>

definition demo_react :: "(nat \<Rightarrow> nat) \<Rightarrow> nat \<Rightarrow> load_exn + resp_reply \<Rightarrow> demo \<Rightarrow> demo" where
  "demo_react seat_of u reply d =
     (case reply of
        Inl e \<Rightarrow> if demo_caught e then demo_broken seat_of u d else demo_finish seat_of u Died (demo_stats d) d
      | Inr v \<Rightarrow>
          (case phases d u of
             Asking \<Rightarrow>
               if v = RNone then d\<lparr>phases := (phases d)(u := Writing)\<rparr>
               else demo_finish seat_of u Refused (record_failure (demo_stats d)) d
           | Writing \<Rightarrow> d\<lparr>phases := (phases d)(u := Verifying)\<rparr>
           | Verifying \<Rightarrow>
               if v = RStr (load_user u)
               then demo_finish seat_of u Bought (snd (record_success (seat_of u) (demo_stats d))) d
               else demo_finish seat_of u Refused (record_failure (demo_stats d)) d
           | _ \<Rightarrow> d))"

definition demo_lock :: "(nat \<Rightarrow> nat) \<Rightarrow> nat \<Rightarrow> demo \<Rightarrow> demo" where
  "demo_lock seat_of u d = d\<lparr>phases := (phases d)(u := Asking), seat_locks := (seat_locks d)(seat_of u \<mapsto> u)\<rparr>"

definition demo_serve :: "rat \<Rightarrow> ustr list \<Rightarrow> demo \<Rightarrow> (py_error + command_result) \<times> demo" where
  "demo_serve now tokens d =
     (case handle_command now tokens (demo_store d) of (r, s) \<Rightarrow> (r, d\<lparr>demo_store := s, demo_time := now\<rparr>))"

definition in_exchange :: "demo_phase \<Rightarrow> bool" where
  "in_exchange p \<longleftrightarrow> p \<in> {Asking, Writing, Verifying}"

definition demo_exchange :: "(py_error \<Rightarrow> ustr) \<Rightarrow> (nat \<Rightarrow> nat) \<Rightarrow> nat \<Rightarrow> rat \<Rightarrow> demo \<Rightarrow> demo" where
  "demo_exchange lib seat_of u now d =
     (case demo_serve now (demo_request seat_of u (phases d u)) d of (r, d1) \<Rightarrow> demo_react seat_of u (load_view lib r) d1)"

inductive demo_step :: "(py_error \<Rightarrow> ustr) \<Rightarrow> nat set \<Rightarrow> (nat \<Rightarrow> nat) \<Rightarrow> demo \<Rightarrow> demo \<Rightarrow> bool"
  for lib users seat_of where
  Lock: "u \<in> users \<Longrightarrow> phases d u = AtBarrier \<Longrightarrow> seat_locks d (seat_of u) = None \<Longrightarrow>
    demo_step lib users seat_of d (demo_lock seat_of u d)"
| Exchange: "u \<in> users \<Longrightarrow> in_exchange (phases d u) \<Longrightarrow> demo_time d \<le> now \<Longrightarrow>
    demo_serve now (demo_request seat_of u (phases d u)) d = (r, d1) \<Longrightarrow>
    demo_step lib users seat_of d (demo_react seat_of u (load_view lib r) d1)"
| LostRequest: "u \<in> users \<Longrightarrow> in_exchange (phases d u) \<Longrightarrow>
    demo_step lib users seat_of d (demo_broken seat_of u d)"
| StopsWaiting: "u \<in> users \<Longrightarrow> in_exchange (phases d u) \<Longrightarrow>
    demo_step lib users seat_of d
      ((demo_broken seat_of u d)\<lparr>late_requests := (late_requests d)(u \<mapsto> demo_request seat_of u (phases d u))\<rparr>)"
| ServedLate: "late_requests d u = Some tokens \<Longrightarrow> demo_time d \<le> now \<Longrightarrow> demo_serve now tokens d = (r, d1) \<Longrightarrow>
    demo_step lib users seat_of d (d1\<lparr>late_requests := (late_requests d1)(u := None)\<rparr>)"

definition demo_start :: "nat \<Rightarrow> rat \<Rightarrow> StorageEngine \<Rightarrow> demo" where
  "demo_start n now s =
     \<lparr>demo_store = s, demo_time = now, seat_locks = (\<lambda>_. None), phases = (\<lambda>_. AtBarrier), demo_stats = new_stats n,
      late_requests = (\<lambda>_. None)\<rparr>"

inductive demo_reach ::
  "(py_error \<Rightarrow> ustr) \<Rightarrow> nat set \<Rightarrow> (nat \<Rightarrow> nat) \<Rightarrow> demo \<Rightarrow> demo \<Rightarrow> bool"
  for lib users seat_of d0 where
  Begin: "demo_reach lib users seat_of d0 d0"
| Next: "demo_reach lib users seat_of d0 d \<Longrightarrow> demo_step lib users seat_of d d' \<Longrightarrow> demo_reach lib users seat_of d0 d'"

lemma exchange_step:
  assumes "demo_reach lib users seat_of d0 d" and "u \<in> users" and "in_exchange (phases d u)" and "demo_time d \<le> now"
  shows "demo_reach lib users seat_of d0 (demo_exchange lib seat_of u now d)"
  using assms demo_step.Exchange [OF assms(2-4)]
  by (auto simp: demo_exchange_def split: prod.split intro: demo_reach.Next)

inductive_cases demo_stepE: "demo_step lib users seat_of d d'"

subsection \<open>The commands on the seats' keys\<close>

lemma demo_validate:
  "validate_command [lit ''GET'', k] = Inr (lit ''GET'', [k])"
  "validate_command [lit ''SET'', k, v] = Inr (lit ''SET'', [k, v])"
  "validate_command [lit ''DEL'', k] = Inr (lit ''DEL'', [k])"
  using validate_supported [of "lit ''GET''" 2 2 "[k]"] validate_supported [of "lit ''SET''" 3 3 "[k, v]"]
    validate_supported [of "lit ''DEL''" 2 2 "[k]"]
  by (simp_all add: SUPPORTED_COMMANDS_def command_arity_def COMMAND_ARITY_def)

lemma load_seat_key_eq [simp]: "load_seat_key m = load_seat_key n \<longleftrightarrow> m = n"
  by (metis load_seat_key_def append_same_eq same_append_eq nat_str_value)

lemma load_user_eq [simp]: "load_user m = load_user n \<longleftrightarrow> m = n"
  by (metis load_user_def same_append_eq nat_str_value)

end
