(* ===== verification/Load_Laws.thy ===== *)
theory Load_Laws
  imports Load_Client
begin

section \<open>The books of the load client\<close>

text \<open>
  The invariant of the demo has a ghost: the owner the server has for each seat. One part of it
  relates the ghost to the store, the other to the phases of the threads, the locks, the requests
  that are still on their way and the counters.
\<close>

definition store_shows :: "nat set \<Rightarrow> (nat \<Rightarrow> nat option) \<Rightarrow> demo \<Rightarrow> bool" where
  "store_shows seats own d \<longleftrightarrow>
     (\<forall>n\<in>seats. \<forall>t\<ge>demo_time d.
        live t (demo_store d) (load_seat_key n) = map_option (\<lambda>u. mk_entry (load_user u) None) (own n))"

definition ended :: "nat set \<Rightarrow> demo \<Rightarrow> demo_end \<Rightarrow> nat set" where
  "ended users d e = {u \<in> users. phases d u = Finished e}"

text \<open>A seat is spoilt when one of its users did not wait for its reply.\<close>

definition spoilt :: "nat set \<Rightarrow> (nat \<Rightarrow> nat) \<Rightarrow> demo \<Rightarrow> nat \<Rightarrow> bool" where
  "spoilt users seat_of d n \<longleftrightarrow> (\<exists>v\<in>users. seat_of v = n \<and> phases d v = Finished Broken)"

definition owners_ok :: "nat set \<Rightarrow> (nat \<Rightarrow> nat) \<Rightarrow> (nat \<Rightarrow> nat option) \<Rightarrow> demo \<Rightarrow> bool" where
  "owners_ok users seat_of own d \<longleftrightarrow>
     (\<forall>n u. own n = Some u \<longrightarrow>
        u \<in> users \<and> seat_of u = n \<and> (phases d u \<in> {Verifying, Finished Bought} \<or> spoilt users seat_of d n)) \<and>
     (\<forall>u\<in>users. phases d u \<in> {Verifying, Finished Bought, Finished Refused} \<longrightarrow> own (seat_of u) \<noteq> None) \<and>
     (\<forall>u\<in>users. phases d u \<in> {Verifying, Finished Bought} \<longrightarrow>
        own (seat_of u) = Some u \<or> spoilt users seat_of d (seat_of u)) \<and>
     (\<forall>u\<in>users. \<forall>v\<in>users. seat_of u = seat_of v \<longrightarrow> phases d u = Finished Bought \<longrightarrow>
        phases d v \<in> {Writing, Verifying, Finished Bought} \<longrightarrow> u = v)"

definition locks_ok :: "nat set \<Rightarrow> (nat \<Rightarrow> nat) \<Rightarrow> demo \<Rightarrow> bool" where
  "locks_ok users seat_of d \<longleftrightarrow>
     (\<forall>n u. seat_locks d n = Some u \<longleftrightarrow> u \<in> users \<and> seat_of u = n \<and> in_exchange (phases d u))"

definition late_ok :: "nat set \<Rightarrow> (nat \<Rightarrow> nat) \<Rightarrow> demo \<Rightarrow> bool" where
  "late_ok users seat_of d \<longleftrightarrow>
     (\<forall>u tokens. late_requests d u = Some tokens \<longrightarrow>
        u \<in> users \<and> phases d u = Finished Broken \<and>
        (tokens = [lit ''GET'', load_seat_key (seat_of u)] \<or>
         tokens = [lit ''SET'', load_seat_key (seat_of u), load_user u]))"

definition counts_ok :: "nat set \<Rightarrow> (nat \<Rightarrow> nat) \<Rightarrow> demo \<Rightarrow> bool" where
  "counts_ok users seat_of d \<longleftrightarrow>
     sold_seats (demo_stats d) = seat_of ` ended users d Bought \<and>
     success_count (demo_stats d) = card (ended users d Bought) \<and>
     fail_count (demo_stats d) = card (ended users d Refused) + card (ended users d Broken) \<and>
     connection_failures (demo_stats d) = card (ended users d Broken) \<and>
     ended users d Died = {}"

definition books_ok :: "nat set \<Rightarrow> (nat \<Rightarrow> nat) \<Rightarrow> (nat \<Rightarrow> nat option) \<Rightarrow> demo \<Rightarrow> bool" where
  "books_ok users seat_of own d \<longleftrightarrow>
     owners_ok users seat_of own d \<and> locks_ok users seat_of d \<and> late_ok users seat_of d \<and> counts_ok users seat_of d"

lemma same_seat_exchange:
  assumes "locks_ok users seat_of d" and "u \<in> users" and "v \<in> users" and "seat_of u = seat_of v"
    and "in_exchange (phases d u)" and "in_exchange (phases d v)"
  shows "u = v"
proof -
  have "seat_locks d (seat_of u) = Some u" "seat_locks d (seat_of u) = Some v"
    using assms by (simp_all add: locks_ok_def)
  then show ?thesis by simp
qed

lemma ended_going:
  assumes "\<forall>e. p \<noteq> Finished e" and "\<forall>e. phases d u \<noteq> Finished e"
  shows "ended users (d\<lparr>phases := (phases d)(u := p)\<rparr>) e = ended users d e"
  using assms by (auto simp: ended_def)

lemma ended_finish:
  assumes "u \<in> users" and "\<forall>e. phases d u \<noteq> Finished e"
  shows "ended users (d\<lparr>phases := (phases d)(u := Finished e)\<rparr>) e' =
    (if e' = e then insert u (ended users d e') else ended users d e')"
  using assms by (auto simp: ended_def)

lemma not_ended: "\<forall>e. phases d u \<noteq> Finished e \<Longrightarrow> u \<notin> ended users d e"
  by (auto simp: ended_def)

lemma exchange_going: "in_exchange p \<Longrightarrow> \<forall>e. p \<noteq> Finished e"
  by (auto simp: in_exchange_def)

text \<open>The parts of the books that look at a part of the state.\<close>

lemma owners_cong: "phases d' = phases d \<Longrightarrow> owners_ok users seat_of own d' = owners_ok users seat_of own d"
  by (simp add: owners_ok_def spoilt_def)

lemma late_cong: "phases d' = phases d \<Longrightarrow> late_requests d' = late_requests d \<Longrightarrow> late_ok users seat_of d' = late_ok users seat_of d"
  by (simp add: late_ok_def)

subsection \<open>The moves of a thread\<close>

text \<open>The owners, part by part.\<close>

lemma owners_okI:
  assumes "\<And>n u. own n = Some u \<Longrightarrow>
      u \<in> users \<and> seat_of u = n \<and> (phases d u = Verifying \<or> phases d u = Finished Bought \<or> spoilt users seat_of d n)"
    and "\<And>u. u \<in> users \<Longrightarrow> phases d u = Finished Refused \<Longrightarrow> own (seat_of u) \<noteq> None"
    and "\<And>u. u \<in> users \<Longrightarrow> phases d u = Verifying \<or> phases d u = Finished Bought \<Longrightarrow>
      own (seat_of u) = Some u \<or> own (seat_of u) \<noteq> None \<and> spoilt users seat_of d (seat_of u)"
    and "\<And>u v. u \<in> users \<Longrightarrow> v \<in> users \<Longrightarrow> u \<noteq> v \<Longrightarrow> seat_of u = seat_of v \<Longrightarrow> phases d u = Finished Bought \<Longrightarrow>
      phases d v \<noteq> Writing \<and> phases d v \<noteq> Verifying \<and> phases d v \<noteq> Finished Bought"
  shows "owners_ok users seat_of own d"
  using assms unfolding owners_ok_def by fast

lemma owners_okD:
  assumes "owners_ok users seat_of own d"
  shows "own n = Some u \<Longrightarrow> u \<in> users \<and> seat_of u = n \<and>
      (phases d u = Verifying \<or> phases d u = Finished Bought \<or> spoilt users seat_of d n)"
    and "u \<in> users \<Longrightarrow> phases d u = Finished Refused \<Longrightarrow> own (seat_of u) \<noteq> None"
    and "u \<in> users \<Longrightarrow> phases d u = Verifying \<or> phases d u = Finished Bought \<Longrightarrow>
      own (seat_of u) = Some u \<or> own (seat_of u) \<noteq> None \<and> spoilt users seat_of d (seat_of u)"
    and "u \<in> users \<Longrightarrow> v \<in> users \<Longrightarrow> u \<noteq> v \<Longrightarrow> seat_of u = seat_of v \<Longrightarrow> phases d u = Finished Bought \<Longrightarrow>
      phases d v \<noteq> Writing \<and> phases d v \<noteq> Verifying \<and> phases d v \<noteq> Finished Bought"
  using assms unfolding owners_ok_def by fast+

text \<open>A thread that goes on, on a seat that is not spoilt by it.\<close>

lemma spoilt_move:
  assumes "phases d u \<noteq> Finished Broken" and "p \<noteq> Finished Broken"
  shows "spoilt users seat_of (d\<lparr>phases := (phases d)(u := p)\<rparr>) n = spoilt users seat_of d n"
  using assms unfolding spoilt_def by (simp add: fun_upd_def) metis

lemma owners_move:
  assumes own: "owners_ok users seat_of own d" and "u \<in> users"
    and keep: "phases d u \<noteq> Finished Broken" "p \<noteq> Finished Broken"
    and legal: "own (seat_of u) = Some u \<Longrightarrow> p = Verifying \<or> p = Finished Bought \<or> spoilt users seat_of d (seat_of u)"
    and refused: "p = Finished Refused \<Longrightarrow> own (seat_of u) \<noteq> None"
    and winner: "p = Verifying \<or> p = Finished Bought \<Longrightarrow>
      own (seat_of u) = Some u \<or> own (seat_of u) \<noteq> None \<and> spoilt users seat_of d (seat_of u)"
    and bought: "\<And>v. p = Finished Bought \<Longrightarrow> v \<in> users \<Longrightarrow> u \<noteq> v \<Longrightarrow> seat_of u = seat_of v \<Longrightarrow>
      phases d v \<noteq> Writing \<and> phases d v \<noteq> Verifying \<and> phases d v \<noteq> Finished Bought"
    and late: "\<And>v. p = Writing \<or> p = Verifying \<Longrightarrow> v \<in> users \<Longrightarrow> u \<noteq> v \<Longrightarrow> seat_of u = seat_of v \<Longrightarrow>
      phases d v \<noteq> Finished Bought"
  shows "owners_ok users seat_of own (d\<lparr>phases := (phases d)(u := p)\<rparr>)"
proof (rule owners_okI)
  fix n w assume "own n = Some w"
  with owners_okD(1) [OF own this] legal
  show "w \<in> users \<and> seat_of w = n \<and> (phases (d\<lparr>phases := (phases d)(u := p)\<rparr>) w = Verifying \<or>
      phases (d\<lparr>phases := (phases d)(u := p)\<rparr>) w = Finished Bought \<or>
      spoilt users seat_of (d\<lparr>phases := (phases d)(u := p)\<rparr>) n)"
    by (cases "w = u") (simp_all add: spoilt_move [OF keep])
next
  fix w assume "w \<in> users" and "phases (d\<lparr>phases := (phases d)(u := p)\<rparr>) w = Finished Refused"
  then show "own (seat_of w) \<noteq> None" using refused owners_okD(2) [OF own] by (cases "w = u") simp_all
next
  fix w assume "w \<in> users" and "phases (d\<lparr>phases := (phases d)(u := p)\<rparr>) w = Verifying \<or>
      phases (d\<lparr>phases := (phases d)(u := p)\<rparr>) w = Finished Bought"
  then show "own (seat_of w) = Some w \<or> own (seat_of w) \<noteq> None \<and>
      spoilt users seat_of (d\<lparr>phases := (phases d)(u := p)\<rparr>) (seat_of w)"
    using winner owners_okD(3) [OF own, of w] unfolding spoilt_move [OF keep] by (cases "w = u") simp_all
next
  fix w v assume w: "w \<in> users" "v \<in> users" "w \<noteq> v" "seat_of w = seat_of v"
    "phases (d\<lparr>phases := (phases d)(u := p)\<rparr>) w = Finished Bought"
  let ?q = "phases (d\<lparr>phases := (phases d)(u := p)\<rparr>) v"
  consider "w = u" | "v = u" "w \<noteq> u" | "w \<noteq> u" "v \<noteq> u" by blast
  then show "?q \<noteq> Writing \<and> ?q \<noteq> Verifying \<and> ?q \<noteq> Finished Bought"
  proof cases
    case 1 then show ?thesis using w bought [of v] by simp
  next
    case 2 then show ?thesis using w bought [of w] late [of w] by auto
  next
    case 3 then show ?thesis using w owners_okD(4) [OF own, of w v] by simp
  qed
qed


lemma late_move:
  assumes "late_ok users seat_of d" and "\<forall>e. phases d u \<noteq> Finished e"
  shows "late_ok users seat_of (d\<lparr>phases := (phases d)(u := p)\<rparr>)"
  using assms by (force simp: late_ok_def)

lemma books_lock:
  assumes "books_ok users seat_of own d" and "u \<in> users" and "phases d u = AtBarrier" and "seat_locks d (seat_of u) = None"
  shows "books_ok users seat_of own (demo_lock seat_of u d)"
proof -
  have "owners_ok users seat_of own (d\<lparr>phases := (phases d)(u := Asking)\<rparr>)"
  proof (rule owners_move [OF _ assms(2)])
    show own: "owners_ok users seat_of own d" using assms(1) by (simp add: books_ok_def)
    show "Asking = Verifying \<or> Asking = Finished Bought \<or> spoilt users seat_of d (seat_of u)" if "own (seat_of u) = Some u"
      using owners_okD(1) [OF own that] assms(3) by simp
  qed (simp_all add: assms(3))
  then have "owners_ok users seat_of own (demo_lock seat_of u d)"
    using owners_cong [of "demo_lock seat_of u d" "d\<lparr>phases := (phases d)(u := Asking)\<rparr>"] by (simp add: demo_lock_def)
  moreover have "locks_ok users seat_of (demo_lock seat_of u d)"
    unfolding locks_ok_def
  proof (intro allI)
    fix n v
    have lock: "seat_locks d m = Some v \<longleftrightarrow> v \<in> users \<and> seat_of v = m \<and> in_exchange (phases d v)" for m
      using assms(1) by (simp add: books_ok_def locks_ok_def)
    show "seat_locks (demo_lock seat_of u d) n = Some v \<longleftrightarrow>
        v \<in> users \<and> seat_of v = n \<and> in_exchange (phases (demo_lock seat_of u d) v)"
      using lock [of n] lock [of "seat_of u"] assms(2-4) by (auto simp: demo_lock_def in_exchange_def)
  qed
  moreover have "counts_ok users seat_of (demo_lock seat_of u d)"
    using assms(1) ended_going [of Asking d u users] assms(3)
    by (simp add: books_ok_def counts_ok_def demo_lock_def ended_def)
  moreover have "late_ok users seat_of (demo_lock seat_of u d)"
    using late_move [of users seat_of d u Asking] assms(1,3) by (simp add: books_ok_def late_ok_def demo_lock_def)
  ultimately show ?thesis by (simp add: books_ok_def)
qed

lemma books_go:
  assumes "books_ok users seat_of own d" and "u \<in> users" and "in_exchange (phases d u)" and "in_exchange p"
    and "owners_ok users seat_of own' (d\<lparr>phases := (phases d)(u := p)\<rparr>)"
  shows "books_ok users seat_of own' (d\<lparr>phases := (phases d)(u := p)\<rparr>)"
proof -
  note going = exchange_going [OF assms(3)]
  have "locks_ok users seat_of (d\<lparr>phases := (phases d)(u := p)\<rparr>)"
    using assms(1-4) by (simp add: books_ok_def locks_ok_def)
  moreover have "counts_ok users seat_of (d\<lparr>phases := (phases d)(u := p)\<rparr>)"
    using assms(1) going exchange_going [OF assms(4)]
    by (simp add: books_ok_def counts_ok_def ended_going)
  ultimately show ?thesis using assms(1,5) late_move [OF _ going] by (simp add: books_ok_def)
qed

definition counted :: "demo_end \<Rightarrow> nat \<Rightarrow> DemoStats \<Rightarrow> DemoStats" where
  "counted e n st =
     (case e of Bought \<Rightarrow> snd (record_success n st) | Refused \<Rightarrow> record_failure st
      | Broken \<Rightarrow> record_connection_failure st | Died \<Rightarrow> st)"

lemma books_finish:
  assumes "books_ok users seat_of own d" and "u \<in> users" and "in_exchange (phases d u)" and "finite users"
    and "owners_ok users seat_of own' (d\<lparr>phases := (phases d)(u := Finished e)\<rparr>)" and "e \<noteq> Died"
  shows "books_ok users seat_of own' (demo_finish seat_of u e (counted e (seat_of u) (demo_stats d)) d)"
proof -
  let ?d = "demo_finish seat_of u e (counted e (seat_of u) (demo_stats d)) d"
  note going = exchange_going [OF assms(3)]
  have fin: "finite (ended users d e')" for e' using assms(4) by (simp add: ended_def)
  have ended: "ended users ?d e' = (if e' = e then insert u (ended users d e') else ended users d e')" for e'
    using ended_finish [OF assms(2) going, of e e'] by (simp add: ended_def demo_finish_def)
  have "counts_ok users seat_of ?d"
    using assms(1,6) not_ended [OF going, of users] fin unfolding counts_ok_def ended
    by (cases e) (simp_all add: books_ok_def counts_ok_def demo_finish_def counted_def record_success_def
        record_failure_def record_connection_failure_def Let_def)
  moreover have "locks_ok users seat_of ?d"
    unfolding locks_ok_def
  proof (intro allI)
    fix n v
    have lock: "seat_locks d n = Some v \<longleftrightarrow> v \<in> users \<and> seat_of v = n \<and> in_exchange (phases d v)"
      using assms(1) by (simp add: books_ok_def locks_ok_def)
    have "v = u" if "v \<in> users" "seat_of v = seat_of u" "in_exchange (phases d v)"
      using same_seat_exchange [of users seat_of d v u] assms(1-3) that by (simp add: books_ok_def)
    moreover have "\<not> in_exchange (Finished e)" by (simp add: in_exchange_def)
    ultimately show "seat_locks ?d n = Some v \<longleftrightarrow> v \<in> users \<and> seat_of v = n \<and> in_exchange (phases ?d v)"
      using lock by (auto simp: demo_finish_def)
  qed
  moreover have "late_ok users seat_of ?d"
    using late_move [OF _ going, of users seat_of "Finished e"] assms(1)
    by (simp add: books_ok_def late_ok_def demo_finish_def)
  moreover have "owners_ok users seat_of own' ?d"
    using assms(5) owners_cong [of ?d "d\<lparr>phases := (phases d)(u := Finished e)\<rparr>"] by (simp add: demo_finish_def)
  ultimately show ?thesis by (simp add: books_ok_def)
qed

subsection \<open>The owners after each move\<close>

lemma owners_go:
  assumes "owners_ok users seat_of own d" and "u \<in> users" and "phases d u = Asking" and "own (seat_of u) = None"
  shows "owners_ok users seat_of own (d\<lparr>phases := (phases d)(u := Writing)\<rparr>)"
proof (rule owners_move [OF assms(1,2)])
  fix v assume "v \<in> users" and "seat_of u = seat_of v"
  then show "phases d v \<noteq> Finished Bought" using owners_okD(3) [OF assms(1), of v] assms(4) by auto
qed (use assms in simp_all)

lemma owners_refuse:
  assumes "owners_ok users seat_of own d" and "u \<in> users" and "in_exchange (phases d u)"
    and "own (seat_of u) \<noteq> None" and "phases d u = Verifying \<longrightarrow> own (seat_of u) \<noteq> Some u"
  shows "owners_ok users seat_of own (d\<lparr>phases := (phases d)(u := Finished Refused)\<rparr>)"
proof (rule owners_move [OF assms(1,2)])
  show "Finished Refused = Verifying \<or> Finished Refused = Finished Bought \<or> spoilt users seat_of d (seat_of u)"
    if "own (seat_of u) = Some u"
    using owners_okD(1) [OF assms(1) that] assms(3,5) that by (auto simp: in_exchange_def)
qed (use assms(3,4) in \<open>auto simp: in_exchange_def\<close>)

lemma owners_buy:
  assumes "books_ok users seat_of own d" and "u \<in> users" and "phases d u = Verifying" and "own (seat_of u) = Some u"
  shows "owners_ok users seat_of own (d\<lparr>phases := (phases d)(u := Finished Bought)\<rparr>)"
proof -
  have own: "owners_ok users seat_of own d" and lock: "locks_ok users seat_of d"
    using assms(1) by (simp_all add: books_ok_def)
  show ?thesis
  proof (rule owners_move [OF own assms(2)])
    fix v assume v: "v \<in> users" "u \<noteq> v" "seat_of u = seat_of v"
    then have "\<not> in_exchange (phases d v)"
      using same_seat_exchange [OF lock assms(2)] assms(3) by (auto simp: in_exchange_def)
    moreover have "phases d v \<noteq> Finished Bought"
      using owners_okD(4) [OF own v(1) assms(2)] v assms(3) by auto
    ultimately show "phases d v \<noteq> Writing \<and> phases d v \<noteq> Verifying \<and> phases d v \<noteq> Finished Bought"
      by (auto simp: in_exchange_def)
  qed (use assms(3,4) in simp_all)
qed

lemma owners_break:
  assumes own: "owners_ok users seat_of own d" and "u \<in> users" and "in_exchange (phases d u)"
  shows "owners_ok users seat_of own (d\<lparr>phases := (phases d)(u := Finished Broken)\<rparr>)"
proof -
  let ?d = "d\<lparr>phases := (phases d)(u := Finished Broken)\<rparr>"
  have here: "spoilt users seat_of ?d (seat_of u)" using assms(2) by (auto simp: spoilt_def)
  have grows: "spoilt users seat_of ?d n" if "spoilt users seat_of d n" for n using that by (auto simp: spoilt_def)
  show ?thesis
  proof (rule owners_okI)
    fix n w assume "own n = Some w"
    from owners_okD(1) [OF own this] here grows
    show "w \<in> users \<and> seat_of w = n \<and> (phases ?d w = Verifying \<or> phases ?d w = Finished Bought \<or> spoilt users seat_of ?d n)"
      by (cases "w = u") auto
  next
    fix w assume "w \<in> users" and "phases ?d w = Finished Refused"
    then show "own (seat_of w) \<noteq> None" using owners_okD(2) [OF own] by (cases "w = u") simp_all
  next
    fix w assume "w \<in> users" and "phases ?d w = Verifying \<or> phases ?d w = Finished Bought"
    then show "own (seat_of w) = Some w \<or> own (seat_of w) \<noteq> None \<and> spoilt users seat_of ?d (seat_of w)"
      using owners_okD(3) [OF own, of w] grows [of "seat_of w"] by (cases "w = u") auto
  next
    fix w v assume "w \<in> users" "v \<in> users" "w \<noteq> v" "seat_of w = seat_of v" "phases ?d w = Finished Bought"
    then show "phases ?d v \<noteq> Writing \<and> phases ?d v \<noteq> Verifying \<and> phases ?d v \<noteq> Finished Bought"
      using owners_okD(4) [OF own, of w v] by (cases "w = u"; cases "v = u") simp_all
  qed
qed

text \<open>A write changes the owner: of a thread that waits for it, or of one that has given up.\<close>

lemma owners_late:
  assumes own: "owners_ok users seat_of own d" and "u \<in> users" and "phases d u = Finished Broken"
  shows "owners_ok users seat_of (own(seat_of u \<mapsto> u)) d"
proof -
  have "spoilt users seat_of d (seat_of u)" using assms(2,3) by (auto simp: spoilt_def)
  then show ?thesis using assms owners_okD [OF own] by (intro owners_okI) (auto split: if_splits)
qed

lemma owners_written:
  assumes "books_ok users seat_of own d" and "u \<in> users" and "phases d u = Writing"
  shows "owners_ok users seat_of (own(seat_of u \<mapsto> u)) (d\<lparr>phases := (phases d)(u := Verifying)\<rparr>)"
proof -
  have own: "owners_ok users seat_of own d" and lock: "locks_ok users seat_of d"
    using assms(1) by (simp_all add: books_ok_def)
  let ?own = "own(seat_of u \<mapsto> u)" and ?d = "d\<lparr>phases := (phases d)(u := Verifying)\<rparr>"
  have spoilt: "spoilt users seat_of ?d n = spoilt users seat_of d n" for n
    using spoilt_move [of d u Verifying] assms(3) by simp
  have alone: "phases d v \<noteq> Verifying \<and> phases d v \<noteq> Finished Bought"
    if "v \<in> users" "seat_of v = seat_of u" "v \<noteq> u" for v
    using same_seat_exchange [OF lock that(1) assms(2)] owners_okD(4) [OF own that(1) assms(2)] that assms(3)
    by (auto simp: in_exchange_def)
  show ?thesis
  proof (rule owners_okI)
    fix n w assume w: "?own n = Some w"
    show "w \<in> users \<and> seat_of w = n \<and> (phases ?d w = Verifying \<or> phases ?d w = Finished Bought \<or> spoilt users seat_of ?d n)"
      using w owners_okD(1) [OF own, of n w] assms(2) spoilt by (cases "n = seat_of u"; cases "w = u") auto
  next
    fix w assume "w \<in> users" and "phases ?d w = Finished Refused"
    then show "?own (seat_of w) \<noteq> None" using owners_okD(2) [OF own, of w] by (cases "w = u") simp_all
  next
    fix w assume "w \<in> users" and "phases ?d w = Verifying \<or> phases ?d w = Finished Bought"
    then show "?own (seat_of w) = Some w \<or> ?own (seat_of w) \<noteq> None \<and> spoilt users seat_of ?d (seat_of w)"
      using owners_okD(3) [OF own, of w] alone [of w] spoilt by (cases "w = u"; cases "seat_of w = seat_of u") auto
  next
    fix w v assume "w \<in> users" "v \<in> users" "w \<noteq> v" "seat_of w = seat_of v" "phases ?d w = Finished Bought"
    then show "phases ?d v \<noteq> Writing \<and> phases ?d v \<noteq> Verifying \<and> phases ?d v \<noteq> Finished Bought"
      using owners_okD(4) [OF own, of w v] alone [of w] by (cases "w = u"; cases "v = u") auto
  qed
qed

end
