(* ===== verification/Load_Runs.thy ===== *)
theory Load_Runs
  imports Load_Laws
begin

section \<open>The runs of the load client\<close>

text \<open>
  Every step of the demo keeps the books, whoever the ghost owners are; so do all runs from a
  store in which the seats have been reset. The number of steps a run still has is bounded by the
  phases of its threads.
\<close>

subsection \<open>An exchange with the server\<close>

lemma serve_get:
  assumes "store_shows seats own d" and "n \<in> seats" and "demo_time d \<le> now"
    and "demo_serve now [lit ''GET'', load_seat_key n] d = (r, d1)"
  shows "load_view lib r = Inr (case own n of None \<Rightarrow> RNone | Some v \<Rightarrow> RStr (load_user v))"
    and "store_shows seats own d1"
proof -
  let ?k = "load_seat_key n"
  have d1: "r = Inr (Scalar (opt_str (fst (eng_get now ?k (demo_store d)))))"
    "d1 = d\<lparr>demo_store := snd (eng_get now ?k (demo_store d)), demo_time := now\<rparr>"
    using assms(4) handle_dispatch(2) [OF demo_validate(1), of now ?k "demo_store d"]
    by (auto simp: demo_serve_def)
  have "live now (demo_store d) ?k = map_option (\<lambda>u. mk_entry (load_user u) None) (own n)"
    using assms(1-3) by (simp add: store_shows_def)
  then show "load_view lib r = Inr (case own n of None \<Rightarrow> RNone | Some v \<Rightarrow> RStr (load_user v))"
    by (simp add: d1 get_by_live(1) load_view_def reply_of_result_def reply_of_scalar_def opt_str_def split: option.split)
  show "store_shows seats own d1" using assms(1,3) by (auto simp: store_shows_def d1 get_by_live(2))
qed

lemma serve_set:
  assumes "store_shows seats own d" and "demo_time d \<le> now"
    and "demo_serve now [lit ''SET'', load_seat_key n, load_user u] d = (r, d1)"
  shows "load_view lib r = Inr (RStr (lit ''OK''))" and "store_shows seats (own(n \<mapsto> u)) d1"
proof -
  let ?k = "load_seat_key n"
  have d1: "r = Inr (Scalar (SStr (lit ''OK'')))"
    "d1 = d\<lparr>demo_store := eng_set ?k (load_user u) (demo_store d), demo_time := now\<rparr>"
    using assms(3) handle_dispatch(1) [OF demo_validate(2), of now ?k "load_user u" "demo_store d"]
    by (auto simp: demo_serve_def)
  show "load_view lib r = Inr (RStr (lit ''OK''))" by (simp add: d1 load_view_def reply_of_result_def reply_of_scalar_def)
  show "store_shows seats (own(n \<mapsto> u)) d1" using assms(1,2) by (auto simp: store_shows_def d1 eng_set_def dict_simps)
qed

lemma serve_frame:
  assumes "demo_serve now tokens d = (r, d1)"
  shows "phases d1 = phases d" and "demo_stats d1 = demo_stats d" and "late_requests d1 = late_requests d"
    and "books_ok users seat_of own d1 = books_ok users seat_of own d"
proof -
  obtain s where d1: "d1 = d\<lparr>demo_store := s, demo_time := now\<rparr>"
    using assms by (auto simp: demo_serve_def split: prod.splits)
  show "phases d1 = phases d" and "demo_stats d1 = demo_stats d" and "late_requests d1 = late_requests d"
    by (simp_all add: d1)
  show "books_ok users seat_of own d1 = books_ok users seat_of own d"
    by (simp add: d1 books_ok_def owners_ok_def spoilt_def locks_ok_def late_ok_def counts_ok_def ended_def)
qed

subsection \<open>Every step keeps the books\<close>

definition demo_inv :: "nat set \<Rightarrow> (nat \<Rightarrow> nat) \<Rightarrow> (nat \<Rightarrow> nat option) \<Rightarrow> demo \<Rightarrow> bool" where
  "demo_inv users seat_of own d \<longleftrightarrow> store_shows (seat_of ` users) own d \<and> books_ok users seat_of own d"

lemma shows_moved [simp]:
  "store_shows seats own (d\<lparr>phases := p\<rparr>) = store_shows seats own d"
  "store_shows seats own (d\<lparr>late_requests := l\<rparr>) = store_shows seats own d"
  "store_shows seats own (demo_finish seat_of u e stats d) = store_shows seats own d"
  "store_shows seats own (demo_lock seat_of u d) = store_shows seats own d"
  by (simp_all add: store_shows_def demo_finish_def demo_lock_def)

lemma books_late_requests:
  assumes "books_ok users seat_of own d" and "late_ok users seat_of (d\<lparr>late_requests := l\<rparr>)"
  shows "books_ok users seat_of own (d\<lparr>late_requests := l\<rparr>)"
  using assms by (simp add: books_ok_def owners_ok_def spoilt_def locks_ok_def counts_ok_def ended_def)

lemma inv_finish:
  assumes "demo_inv users seat_of own d" and "u \<in> users" and "in_exchange (phases d u)" and "finite users"
    and "owners_ok users seat_of own (d\<lparr>phases := (phases d)(u := Finished e)\<rparr>)" and "e \<noteq> Died"
  shows "demo_inv users seat_of own (demo_finish seat_of u e (counted e (seat_of u) (demo_stats d)) d)"
  using assms books_finish [of users seat_of own d u own e] by (simp add: demo_inv_def)

lemma inv_broken:
  assumes "demo_inv users seat_of own d" and "u \<in> users" and "in_exchange (phases d u)" and "finite users"
  shows "demo_inv users seat_of own (demo_broken seat_of u d)"
proof -
  have "owners_ok users seat_of own (d\<lparr>phases := (phases d)(u := Finished Broken)\<rparr>)"
    using assms(1-3) by (intro owners_break) (simp_all add: demo_inv_def books_ok_def)
  from inv_finish [OF assms this] show ?thesis by (simp add: demo_broken_def counted_def)
qed

lemma inv_stops_waiting:
  assumes "demo_inv users seat_of own d" and "u \<in> users" and "in_exchange (phases d u)" and "finite users"
  shows "demo_inv users seat_of own
    ((demo_broken seat_of u d)\<lparr>late_requests := (late_requests d)(u \<mapsto> demo_request seat_of u (phases d u))\<rparr>)"
proof -
  have inv: "demo_inv users seat_of own (demo_broken seat_of u d)" by (rule inv_broken [OF assms])
  then have "late_ok users seat_of (demo_broken seat_of u d)" by (simp add: demo_inv_def books_ok_def)
  then have "late_ok users seat_of
      ((demo_broken seat_of u d)\<lparr>late_requests := (late_requests d)(u \<mapsto> demo_request seat_of u (phases d u))\<rparr>)"
    using assms(2) by (auto simp: late_ok_def demo_broken_def demo_finish_def demo_request_def split: if_splits)
  with inv show ?thesis using books_late_requests by (simp add: demo_inv_def)
qed

lemma inv_get:
  assumes "demo_inv users seat_of own d" and "u \<in> users" and "demo_time d \<le> now"
    and "demo_serve now [lit ''GET'', load_seat_key (seat_of u)] d = (r, d1)"
  shows "demo_inv users seat_of own d1"
    and "load_view lib r = Inr (case own (seat_of u) of None \<Rightarrow> RNone | Some v \<Rightarrow> RStr (load_user v))"
proof -
  have store: "store_shows (seat_of ` users) own d" and books: "books_ok users seat_of own d" and u: "seat_of u \<in> seat_of ` users"
    using assms(1,2) by (simp_all add: demo_inv_def)
  show "demo_inv users seat_of own d1"
    using serve_get(2) [OF store u assms(3,4)] serve_frame(4) [OF assms(4)] books by (simp add: demo_inv_def)
  show "load_view lib r = Inr (case own (seat_of u) of None \<Rightarrow> RNone | Some v \<Rightarrow> RStr (load_user v))"
    by (rule serve_get(1) [OF store u assms(3,4)])
qed

lemma inv_set:
  assumes "demo_inv users seat_of own d" and "demo_time d \<le> now"
    and "demo_serve now [lit ''SET'', load_seat_key (seat_of u), load_user u] d = (r, d1)"
  shows "store_shows (seat_of ` users) (own(seat_of u \<mapsto> u)) d1" and "books_ok users seat_of own d1"
    and "load_view lib r = Inr (RStr (lit ''OK''))"
proof -
  have store: "store_shows (seat_of ` users) own d" and books: "books_ok users seat_of own d"
    using assms(1) by (simp_all add: demo_inv_def)
  show "store_shows (seat_of ` users) (own(seat_of u \<mapsto> u)) d1" and "load_view lib r = Inr (RStr (lit ''OK''))"
    by (rule serve_set [OF store assms(2,3)])+
  show "books_ok users seat_of own d1" using books serve_frame(4) [OF assms(3)] by simp
qed

lemma inv_exchange_get:
  assumes inv: "demo_inv users seat_of own d" and u: "u \<in> users" and going: "phases d u = Asking \<or> phases d u = Verifying"
    and fin: "finite users" and now: "demo_time d \<le> now"
    and serve: "demo_serve now (demo_request seat_of u (phases d u)) d = (r, d1)"
  shows "demo_inv users seat_of own (demo_react seat_of u (load_view lib r) d1)"
proof -
  have "demo_request seat_of u (phases d u) = [lit ''GET'', load_seat_key (seat_of u)]"
    using going by (auto simp: demo_request_def)
  note get = inv_get [OF inv u now serve [unfolded this]]
  have same: "phases d1 u = phases d u" using serve_frame(1) [OF serve] by simp
  then have going1: "in_exchange (phases d1 u)" using going by (auto simp: in_exchange_def)
  have books1: "books_ok users seat_of own d1" and own1: "owners_ok users seat_of own d1"
    using get(1) by (simp_all add: demo_inv_def books_ok_def)
  consider "phases d1 u = Asking" "own (seat_of u) = None" | "phases d1 u = Verifying" "own (seat_of u) = Some u"
    | "own (seat_of u) \<noteq> None" "phases d1 u = Verifying \<longrightarrow> own (seat_of u) \<noteq> Some u" "phases d1 u = Asking \<or> phases d1 u = Verifying"
    using going same owners_okD(3) [OF own1 u] by auto
  then show ?thesis
  proof cases
    case 1
    have "books_ok users seat_of own (d1\<lparr>phases := (phases d1)(u := Writing)\<rparr>)"
      using books_go [OF books1 u going1 _ owners_go [OF own1 u 1]] by (simp add: in_exchange_def)
    then show ?thesis using get 1 by (simp add: demo_inv_def demo_react_def)
  next
    case 2
    show ?thesis
      using inv_finish [OF get(1) u going1 fin owners_buy [OF books1 u 2]] get(2) 2
      by (simp add: demo_react_def counted_def)
  next
    case 3
    show ?thesis
      using inv_finish [OF get(1) u going1 fin owners_refuse [OF own1 u going1 3(1,2)]] get(2) 3
      by (auto simp: demo_react_def counted_def)
  qed
qed

lemma inv_exchange:
  assumes inv: "demo_inv users seat_of own d" and u: "u \<in> users" and going: "in_exchange (phases d u)"
    and fin: "finite users" and now: "demo_time d \<le> now"
    and serve: "demo_serve now (demo_request seat_of u (phases d u)) d = (r, d1)"
  shows "\<exists>own'. demo_inv users seat_of own' (demo_react seat_of u (load_view lib r) d1)"
proof (cases "phases d u = Writing")
  case True
  then have "demo_request seat_of u (phases d u) = [lit ''SET'', load_seat_key (seat_of u), load_user u]"
    by (simp add: demo_request_def)
  note set = inv_set [OF inv now serve [unfolded this]]
  have w: "phases d1 u = Writing" using True serve_frame(1) [OF serve] by simp
  have "books_ok users seat_of (own(seat_of u \<mapsto> u)) (d1\<lparr>phases := (phases d1)(u := Verifying)\<rparr>)"
    using books_go [OF set(2) u _ _ owners_written [OF set(2) u w]] w by (simp add: in_exchange_def)
  then have "demo_inv users seat_of (own(seat_of u \<mapsto> u)) (demo_react seat_of u (load_view lib r) d1)"
    using set(1,3) w by (simp add: demo_inv_def demo_react_def)
  then show ?thesis by blast
next
  case False
  then have "phases d u = Asking \<or> phases d u = Verifying" using going by (auto simp: in_exchange_def)
  from inv_exchange_get [OF inv u this fin now serve] show ?thesis by blast
qed

lemma inv_served_late:
  assumes inv: "demo_inv users seat_of own d" and late: "late_requests d u = Some tokens" and now: "demo_time d \<le> now"
    and serve: "demo_serve now tokens d = (r, d1)"
  shows "\<exists>own'. demo_inv users seat_of own' (d1\<lparr>late_requests := (late_requests d1)(u := None)\<rparr>)"
proof -
  note frame = serve_frame(1,3) [OF serve]
  have "late_ok users seat_of d" using inv by (simp add: demo_inv_def books_ok_def)
  then have u: "u \<in> users" "phases d u = Finished Broken"
    and tokens: "tokens = [lit ''GET'', load_seat_key (seat_of u)] \<or> tokens = [lit ''SET'', load_seat_key (seat_of u), load_user u]"
    and rest: "late_ok users seat_of (d1\<lparr>late_requests := (late_requests d1)(u := None)\<rparr>)"
    using late frame by (auto simp: late_ok_def)
  obtain own' where own': "store_shows (seat_of ` users) own' d1" "books_ok users seat_of own' d1"
    using tokens
  proof
    assume "tokens = [lit ''GET'', load_seat_key (seat_of u)]"
    from inv_get(1) [OF inv u(1) now serve [unfolded this]] that [of own] show thesis by (simp add: demo_inv_def)
  next
    assume "tokens = [lit ''SET'', load_seat_key (seat_of u), load_user u]"
    note set = inv_set [OF inv now serve [unfolded this]]
    have "owners_ok users seat_of (own(seat_of u \<mapsto> u)) d1"
      using owners_late [of users seat_of own d1 u] set(2) u frame(1) by (simp add: books_ok_def)
    then have "books_ok users seat_of (own(seat_of u \<mapsto> u)) d1" using set(2) by (simp add: books_ok_def)
    with set(1) that show thesis by blast
  qed
  then have "demo_inv users seat_of own' (d1\<lparr>late_requests := (late_requests d1)(u := None)\<rparr>)"
    using books_late_requests [OF own'(2) rest] by (simp add: demo_inv_def)
  then show ?thesis by blast
qed

lemma step_inv:
  assumes inv: "demo_inv users seat_of own d" and fin: "finite users" and "demo_step lib users seat_of d d'"
  shows "\<exists>own'. demo_inv users seat_of own' d'"
  using assms(3)
proof cases
  case (Lock u)
  then have "demo_inv users seat_of own d'" using inv books_lock by (simp add: demo_inv_def)
  then show ?thesis by blast
next
  case (Exchange u now r d1)
  then show ?thesis using inv_exchange [OF inv _ _ fin] by simp
next
  case (LostRequest u)
  then have "demo_inv users seat_of own d'" using inv_broken [OF inv _ _ fin] by simp
  then show ?thesis by blast
next
  case (StopsWaiting u)
  then have "demo_inv users seat_of own d'" using inv_stops_waiting [OF inv _ _ fin] by simp
  then show ?thesis by blast
next
  case (ServedLate u tokens now r d1)
  then show ?thesis using inv_served_late [OF inv] by simp
qed

lemma reach_inv:
  assumes "demo_reach lib users seat_of d0 d" and "demo_inv users seat_of own d0" and "finite users"
  shows "\<exists>own'. demo_inv users seat_of own' d"
  using assms(1)
proof induction
  case Begin
  show ?case using assms(2) by blast
next
  case (Next d d')
  then show ?case using step_inv [OF _ assms(3)] by blast
qed

subsection \<open>The start\<close>

lemma reset_reply:
  "snd (handle_command now [lit ''DEL'', k] s) = snd (eng_delete now k s)"
  using handle_dispatch(3) [OF demo_validate(3), of now k s] by simp

lemma reset_live:
  assumes "\<forall>i\<in>set is. clock i \<le> t"
  shows "live t (fold (\<lambda>i s. snd (handle_command (clock i) [lit ''DEL'', load_seat_key i] s)) is s) (load_seat_key n) =
    (if n \<in> set is then None else live t s (load_seat_key n))"
  using assms by (induction "is" arbitrary: s) (auto simp: reset_reply delete_by_live)

lemma start_inv:
  assumes "\<forall>u\<in>users. 1 \<le> seat_of u \<and> seat_of u \<le> n" and "\<forall>i\<in>{1..n}. clock i \<le> now"
  shows "demo_inv users seat_of (\<lambda>_. None) (demo_start n now (reset_seats clock n s))"
proof -
  have "store_shows (seat_of ` users) (\<lambda>_. None) (demo_start n now (reset_seats clock n s))"
    unfolding store_shows_def
  proof (intro ballI allI impI)
    fix m t assume m: "m \<in> seat_of ` users" and "demo_time (demo_start n now (reset_seats clock n s)) \<le> t"
    then have "\<forall>i\<in>set [1..<n + 1]. clock i \<le> t" using assms(2) by (auto simp: demo_start_def intro: order_trans)
    from reset_live [OF this, of s m] assms(1) m
    show "live t (demo_store (demo_start n now (reset_seats clock n s))) (load_seat_key m) =
        map_option (\<lambda>u. mk_entry (load_user u) None) None"
      by (auto simp: demo_start_def reset_seats_def)
  qed
  moreover have "books_ok users seat_of (\<lambda>_. None) (demo_start n now (reset_seats clock n s))"
    by (simp add: books_ok_def owners_ok_def locks_ok_def late_ok_def counts_ok_def ended_def demo_start_def new_stats_def
        in_exchange_def)
  ultimately show ?thesis by (simp add: demo_inv_def)
qed

text \<open>Everything that holds of the start and is kept by the steps holds of a run of the demo.\<close>

lemma demo_run_inv:
  assumes "finite users" and "\<forall>u\<in>users. 1 \<le> seat_of u \<and> seat_of u \<le> n" and "\<forall>i\<in>{1..n}. clock i \<le> now"
    and "demo_reach lib users seat_of (demo_start n now (reset_seats clock n s)) d"
  obtains own where "demo_inv users seat_of own d"
  using reach_inv [OF assms(4) start_inv [OF assms(2,3)] assms(1)] by blast

subsection \<open>The steps that are left\<close>

definition phase_rank :: "demo_phase \<Rightarrow> nat" where
  "phase_rank p = (case p of AtBarrier \<Rightarrow> 4 | Asking \<Rightarrow> 3 | Writing \<Rightarrow> 2 | Verifying \<Rightarrow> 1 | Finished _ \<Rightarrow> 0)"

definition demo_rank :: "nat set \<Rightarrow> demo \<Rightarrow> nat" where
  "demo_rank users d = 2 * (\<Sum>u\<in>users. phase_rank (phases d u)) + card {u \<in> users. late_requests d u \<noteq> None}"

lemma rank_move:
  assumes "finite users" and "u \<in> users" and "phase_rank p < phase_rank (phases d u)" and "phases d' = (phases d)(u := p)"
  shows "(\<Sum>v\<in>users. phase_rank (phases d' v)) < (\<Sum>v\<in>users. phase_rank (phases d v))"
  using assms by (intro sum_strict_mono_ex1) auto

lemma react_phase:
  assumes "in_exchange (phases d u)" and "d' = demo_react seat_of u v d"
  shows "phases d' = (phases d)(u := phases d' u)" and "phase_rank (phases d' u) < phase_rank (phases d u)"
    and "late_requests d' = late_requests d"
proof -
  consider "phases d u = Asking" | "phases d u = Writing" | "phases d u = Verifying" using assms by (auto simp: in_exchange_def)
  then have "phases d' = (phases d)(u := phases d' u) \<and> phase_rank (phases d' u) < phase_rank (phases d u) \<and>
      late_requests d' = late_requests d"
    unfolding assms(2)
    by cases (simp_all add: demo_react_def demo_broken_def demo_finish_def phase_rank_def split: sum.split)
  then show "phases d' = (phases d)(u := phases d' u)" and "phase_rank (phases d' u) < phase_rank (phases d u)"
    and "late_requests d' = late_requests d" by simp_all
qed

lemma broken_phase:
  assumes "in_exchange (phases d u)"
  shows "phases (demo_broken seat_of u d) = (phases d)(u := Finished Broken)"
    and "phase_rank (Finished Broken) < phase_rank (phases d u)"
    and "late_requests (demo_broken seat_of u d) = late_requests d"
  using assms by (auto simp: demo_broken_def demo_finish_def phase_rank_def in_exchange_def)

lemma step_rank:
  assumes "late_ok users seat_of d" and fin: "finite users" and "demo_step lib users seat_of d d'"
  shows "demo_rank users d' < demo_rank users d"
  using assms(3)
proof cases
  case (Lock u)
  then show ?thesis using rank_move [OF fin Lock(2), of Asking d d'] by (simp add: demo_rank_def demo_lock_def phase_rank_def)
next
  case (Exchange u now r d1)
  have same: "phases d1 = phases d" "late_requests d1 = late_requests d" using serve_frame(1,3) [OF Exchange(5)] by simp_all
  note react = react_phase [of d1 u d' seat_of "load_view lib r"]
  show ?thesis using rank_move [OF fin Exchange(2), of "phases d' u" d d'] react Exchange(1,3) same by (simp add: demo_rank_def)
next
  case (LostRequest u)
  then show ?thesis
    using rank_move [OF fin LostRequest(2), of "Finished Broken" d d'] broken_phase [OF LostRequest(3)]
    by (simp add: demo_rank_def)
next
  case (StopsWaiting u)
  have "{v \<in> users. late_requests d' v \<noteq> None} \<subseteq> insert u {v \<in> users. late_requests d v \<noteq> None}"
    using StopsWaiting(1) by (auto split: if_splits)
  then have "card {v \<in> users. late_requests d' v \<noteq> None} \<le> card (insert u {v \<in> users. late_requests d v \<noteq> None})"
    using fin by (intro card_mono) auto
  also have "\<dots> \<le> card {v \<in> users. late_requests d v \<noteq> None} + 1" by (simp add: card_insert_le_m1 card_insert_if fin)
  finally have "card {v \<in> users. late_requests d' v \<noteq> None} \<le> card {v \<in> users. late_requests d v \<noteq> None} + 1" .
  then show ?thesis
    using rank_move [OF fin StopsWaiting(2), of "Finished Broken" d d'] broken_phase [OF StopsWaiting(3)] StopsWaiting(1)
    by (simp add: demo_rank_def)
next
  case (ServedLate u tokens now r d1)
  have same: "phases d1 = phases d" "late_requests d1 = late_requests d" using serve_frame(1,3) [OF ServedLate(4)] by simp_all
  have "u \<in> users" using assms(1) ServedLate(2) by (simp add: late_ok_def)
  then have "{v \<in> users. late_requests d' v \<noteq> None} \<subset> {v \<in> users. late_requests d v \<noteq> None}"
    using ServedLate(1,2) same by auto
  then have "card {v \<in> users. late_requests d' v \<noteq> None} < card {v \<in> users. late_requests d v \<noteq> None}"
    using fin by (intro psubset_card_mono) auto
  then show ?thesis using ServedLate(1) same by (simp add: demo_rank_def)
qed

lemma start_rank: "demo_rank users (demo_start n now s) = 8 * card users"
  by (simp add: demo_rank_def demo_start_def phase_rank_def)

lemma runs_rank:
  assumes "demo_inv users seat_of own d0" and fin: "finite users"
  shows "(demo_step lib users seat_of ^^ k) d0 d \<Longrightarrow> demo_rank users d + k \<le> demo_rank users d0 \<and> demo_reach lib users seat_of d0 d"
proof (induction k arbitrary: d)
  case 0
  then show ?case by (simp add: demo_reach.Begin)
next
  case (Suc k)
  then obtain d1 where d1: "(demo_step lib users seat_of ^^ k) d0 d1" and step: "demo_step lib users seat_of d1 d" by auto
  obtain own1 where "demo_inv users seat_of own1 d1" using reach_inv [OF _ assms] Suc.IH [OF d1] by blast
  then have "late_ok users seat_of d1" by (simp add: demo_inv_def books_ok_def)
  from step_rank [OF this fin step] show ?case using Suc.IH [OF d1] demo_reach.Next [OF _ step] by simp
qed

subsection \<open>A run goes on until every thread has finished\<close>

lemma demo_goes_on:
  assumes "locks_ok users seat_of d" and "u \<in> users" and "\<forall>e. phases d u \<noteq> Finished e"
  shows "\<exists>d'. demo_step lib users seat_of d d'"
proof -
  have exchange: "\<exists>d'. demo_step lib users seat_of d d'" if "v \<in> users" "in_exchange (phases d v)" for v
    using demo_step.LostRequest [OF that] by blast
  show ?thesis
  proof (cases "phases d u = AtBarrier")
    case True
    show ?thesis
    proof (cases "seat_locks d (seat_of u)")
      case None
      then show ?thesis using demo_step.Lock [OF assms(2) True] by blast
    next
      case (Some v)
      then show ?thesis using exchange [of v] assms(1) by (simp add: locks_ok_def)
    qed
  next
    case False
    then have "in_exchange (phases d u)" using assms(3) by (cases "phases d u") (simp_all add: in_exchange_def)
    then show ?thesis using exchange assms(2) by blast
  qed
qed

end
