(* ===== verification/Load_Report.thy ===== *)
theory Load_Report
  imports Load_Laws
begin

section \<open>What the load client prints (\<open>client/auto_ticketing.py\<close>)\<close>

text \<open>
  The banner, the summary and the table of threads. Korean words are written as code points. The
  elapsed time is a text, \<open>"%.3f"\<close> of a difference of two clock readings; the seats that the
  random generator draws are an argument.
\<close>

definition style :: "string \<Rightarrow> ustr" where
  "style code = 27 # lit ''['' @ lit code @ lit ''m''"

abbreviation RESET :: ustr where "RESET \<equiv> style ''0''"
abbreviation BOLD :: ustr where "BOLD \<equiv> style ''1''"
abbreviation GREEN :: ustr where "GREEN \<equiv> style ''92''"
abbreviation RED :: ustr where "RED \<equiv> style ''91''"
abbreviation YELLOW :: ustr where "YELLOW \<equiv> style ''93''"
abbreviation CYAN :: ustr where "CYAN \<equiv> style ''96''"
abbreviation MAGENTA :: ustr where "MAGENTA \<equiv> style ''95''"
abbreviation DIM :: ustr where "DIM \<equiv> style ''2''"

text \<open>Seat numbers drawn for the users from 1 on.\<close>

definition build_threads :: "nat \<Rightarrow> (nat \<Rightarrow> nat) \<Rightarrow> (nat \<times> nat) list" where
  "build_threads total_users draw = map (\<lambda>user_index. (user_index, draw user_index)) [1..<total_users + 1]"

definition banner_lines :: "ustr \<Rightarrow> int \<Rightarrow> nat \<Rightarrow> nat \<Rightarrow> ustr list" where
  "banner_lines host port total_users seat_total =
     [BOLD @ CYAN @ lit ''=== Mini Redis Auto Ticketing Demo ==='' @ RESET,
      DIM @ lit ''Server: '' @ host @ lit '':'' @ int_str port @ RESET,
      DIM @ lit ''Seats : '' @ nat_str seat_total @ lit '' (seat:1 ~ seat:'' @ nat_str seat_total @ lit '')'' @ RESET,
      DIM @ lit ''Users : '' @ nat_str total_users @ lit '' virtual users / threads'' @ RESET,
      BOLD @ MAGENTA @ [49, 44, 48, 48, 48, 44060, 51032, 32, 49828, 47112, 46300, 44032, 32, 46041, 49884, 50640, 32, 47004, 45924, 32, 51340, 49437, 51012, 32, 54693, 54644, 32, 46028, 51652, 54633, 45768, 45796, 46, 46, 46] @ RESET]"

definition stats_snapshot :: "DemoStats \<Rightarrow> nat \<times> nat \<times> int" where
  "stats_snapshot st = (success_count st, fail_count st, remaining_seats st)"

definition sold_line :: "int \<Rightarrow> nat \<Rightarrow> ustr" where
  "sold_line sold_count seat_total = YELLOW @ [54032, 47588, 46108, 32, 51340, 49437, 32, 49688, 58, 32] @ int_str sold_count @ lit ''/'' @ nat_str seat_total @ RESET"

definition summary_lines :: "ustr \<Rightarrow> DemoStats \<Rightarrow> nat \<Rightarrow> ustr list" where
  "summary_lines elapsed st seat_total =
     (case stats_snapshot st of
        (success, fail, remaining) \<Rightarrow>
          [[],
           BOLD @ CYAN @ lit ''=== Ticketing Summary ==='' @ RESET,
           GREEN @ [49457, 44277, 58, 32] @ nat_str success @ RESET,
           RED @ [49892, 54056, 58, 32] @ nat_str fail @ RESET,
           sold_line (int seat_total - remaining) seat_total,
           MAGENTA @ [45224, 51008, 32, 51340, 49437, 32, 49688, 58, 32] @ int_str remaining @ lit ''/'' @ nat_str seat_total @ RESET,
           CYAN @ [52509, 32, 49548, 50836, 32, 49884, 44036, 58, 32] @ elapsed @ [52488] @ RESET] @
          (if connection_failures st = 0 then [] else [RED @ [53685, 49888, 32, 49892, 54056, 58, 32] @ nat_str (connection_failures st) @ RESET]))"

end
