(* ===== verification/Load_Properties.thy ===== *)
theory Load_Properties
  imports Load_Runs Load_Report
begin

section \<open>What the load client reports\<close>

text \<open>
  The properties of the stress demo, over all runs of its threads against the server's handler and
  store.
\<close>

lemma step_total:
  assumes "demo_step lib users seat_of d d'"
  shows "total_seats (demo_stats d') = total_seats (demo_stats d)"
  using assms
proof cases
  case (Exchange u now r d1)
  then show ?thesis
    using serve_frame(2) [OF Exchange(5)]
    by (auto simp: demo_react_def demo_broken_def demo_finish_def record_success_def record_failure_def
        record_connection_failure_def Let_def split: sum.splits demo_phase.splits)
next
  case (ServedLate u tokens now r d1)
  then show ?thesis using serve_frame(2) [OF ServedLate(4)] by simp
qed (simp_all add: demo_lock_def demo_broken_def demo_finish_def record_connection_failure_def)

lemma reach_total: "demo_reach lib users seat_of d0 d \<Longrightarrow> total_seats (demo_stats d) = total_seats (demo_stats d0)"
  by (induction rule: demo_reach.induct) (simp_all add: step_total)

lemma not_spoilt: "ended users d Broken = {} \<Longrightarrow> \<not> spoilt users seat_of d n"
  by (auto simp: ended_def spoilt_def)

text \<open>Without broken requests every seat somebody asked for is sold at the end.\<close>

lemma all_sold:
  assumes own: "owners_ok users seat_of own d" and none: "ended users d Broken = {}" "ended users d Died = {}"
    and all: "\<forall>u\<in>users. \<exists>e. phases d u = Finished e"
  shows "seat_of ` ended users d Bought = seat_of ` users" and "users = ended users d Bought \<union> ended users d Refused"
proof -
  have two: "phases d u = Finished Bought \<or> phases d u = Finished Refused" if u: "u \<in> users" for u
  proof -
    from all u obtain e where e: "phases d u = Finished e" by blast
    have "u \<notin> ended users d Broken" "u \<notin> ended users d Died" by (simp_all add: none)
    then have "e \<noteq> Broken" "e \<noteq> Died" using e u by (simp_all add: ended_def)
    then show ?thesis using e by (cases e) simp_all
  qed
  show "users = ended users d Bought \<union> ended users d Refused"
  proof (intro subset_antisym subsetI)
    fix u assume "u \<in> users"
    then show "u \<in> ended users d Bought \<union> ended users d Refused" using two [of u] by (simp add: ended_def)
  qed (auto simp: ended_def)
  have "seat_of u \<in> seat_of ` ended users d Bought" if u: "u \<in> users" for u
  proof (cases "phases d u = Finished Bought")
    case True
    then show ?thesis using u by (simp add: ended_def)
  next
    case False
    then obtain w where "own (seat_of u) = Some w" using two [OF u] owners_okD(2) [OF own u] by auto
    from owners_okD(1) [OF own this] not_spoilt [OF none(1)] have w: "w \<in> users" "seat_of w = seat_of u" "phases d w = Verifying \<or> phases d w = Finished Bought"
      by auto
    then have "w \<in> ended users d Bought" using two [OF w(1)] by (auto simp: ended_def)
    then show ?thesis using w(2) by (metis imageI)
  qed
  then have "seat_of ` users \<subseteq> seat_of ` ended users d Bought" by (rule image_subsetI)
  moreover have "seat_of ` ended users d Bought \<subseteq> seat_of ` users" by (rule image_mono) (simp add: ended_def)
  ultimately show "seat_of ` ended users d Bought = seat_of ` users" by (rule equalityI [rotated])
qed

lemma one_buyer: "owners_ok users seat_of own d \<Longrightarrow> inj_on seat_of (ended users d Bought)"
  using owners_okD(4) [of users seat_of own d] by (intro inj_onI) (auto simp: ended_def)

text \<open>
  Claim C26: in every run of the load client, however its threads and the server interleave and
  whichever requests are lost or executed late, a seat is sold to at most one user and the printed
  numbers are right: successes are the sold seats, failures the refused and the broken users, and
  the remaining seats the rest. The number of sold seats in the summary is that of the successes.
\<close>

theorem each_seat_is_sold_once:
  assumes "finite users" and "\<forall>u\<in>users. 1 \<le> seat_of u \<and> seat_of u \<le> n" and "\<forall>i\<in>{1..n}. clock i \<le> now"
    and "demo_reach lib users seat_of (demo_start n now (reset_seats clock n s)) d"
  shows "inj_on seat_of {u \<in> users. phases d u = Finished Bought} \<and>
    sold_seats (demo_stats d) = seat_of ` {u \<in> users. phases d u = Finished Bought} \<and>
    success_count (demo_stats d) = card (sold_seats (demo_stats d)) \<and>
    fail_count (demo_stats d) = card {u \<in> users. phases d u = Finished Refused} + connection_failures (demo_stats d) \<and>
    remaining_seats (demo_stats d) = int (n - success_count (demo_stats d)) \<and> success_count (demo_stats d) \<le> n \<and>
    summary_lines elapsed (demo_stats d) n ! 4 = sold_line (int (success_count (demo_stats d))) n"
proof -
  obtain own where "demo_inv users seat_of own d" by (rule demo_run_inv [OF assms])
  then have own: "owners_ok users seat_of own d" and counts: "counts_ok users seat_of d"
    by (simp_all add: demo_inv_def books_ok_def)
  have inj: "inj_on seat_of {u \<in> users. phases d u = Finished Bought}" using one_buyer [OF own] by (simp add: ended_def)
  have sold: "sold_seats (demo_stats d) = seat_of ` {u \<in> users. phases d u = Finished Bought}"
    using counts by (simp add: counts_ok_def ended_def)
  then have count: "success_count (demo_stats d) = card (sold_seats (demo_stats d))"
    using counts card_image [OF inj] by (simp add: counts_ok_def ended_def)
  have fail: "fail_count (demo_stats d) = card {u \<in> users. phases d u = Finished Refused} + connection_failures (demo_stats d)"
    using counts by (simp add: counts_ok_def ended_def)
  have "sold_seats (demo_stats d) \<subseteq> {1..n}" using sold assms(2) by auto
  then have le: "card (sold_seats (demo_stats d)) \<le> n" using card_mono [of "{1..n}"] by simp
  then have left: "remaining_seats (demo_stats d) = int (n - success_count (demo_stats d))"
    using reach_total [OF assms(4)] count by (simp add: remaining_seats_def demo_start_def new_stats_def of_nat_diff)
  then have "summary_lines elapsed (demo_stats d) n ! 4 = sold_line (int (success_count (demo_stats d))) n"
    using le count by (simp add: summary_lines_def stats_snapshot_def of_nat_diff)
  then show ?thesis using inj sold count fail le left by simp
qed

text \<open>A run of one user, computed.\<close>

lemma lock_step:
  assumes "u \<in> users" and "phases d0 u = AtBarrier" and "seat_locks d0 (seat_of u) = None"
  shows "demo_reach lib users seat_of d0 (demo_lock seat_of u d0)"
  using demo_step.Lock [of u users d0 seat_of lib] assms by (auto intro: demo_reach.intros)

abbreviation demo_start1 :: demo where
  "demo_start1 \<equiv> demo_start 3 5 (reset_seats (\<lambda>_. 4) 3 (eng_set (load_seat_key 2) (load_user 9) new_engine))"

abbreviation demo_sale :: demo where
  "demo_sale \<equiv> demo_exchange (\<lambda>_. []) (\<lambda>_. 2) 1 7 (demo_exchange (\<lambda>_. []) (\<lambda>_. 2) 1 6
     (demo_exchange (\<lambda>_. []) (\<lambda>_. 2) 1 5 (demo_lock (\<lambda>_. 2) 1 demo_start1)))"

lemma demo_sale_phases:
  "phases (demo_exchange (\<lambda>_. []) (\<lambda>_. 2) 1 5 (demo_lock (\<lambda>_. 2) 1 demo_start1)) 1 = Writing"
  "phases (demo_exchange (\<lambda>_. []) (\<lambda>_. 2) 1 6
     (demo_exchange (\<lambda>_. []) (\<lambda>_. 2) 1 5 (demo_lock (\<lambda>_. 2) 1 demo_start1))) 1 = Verifying"
  "phases demo_sale 1 = Finished Bought"
  "sold_seats (demo_stats demo_sale) = {2}"
  "connection_failures (demo_stats demo_sale) = 0"
  by code_simp+

lemma exchange_time [simp]: "demo_time (demo_exchange lib seat_of u now d) = now"
proof -
  obtain r d1 where d1: "demo_serve now (demo_request seat_of u (phases d u)) d = (r, d1)" by fastforce
  then have "demo_time d1 = now" by (auto simp: demo_serve_def split: prod.splits)
  then show ?thesis
    by (simp add: demo_exchange_def d1 demo_react_def demo_broken_def demo_finish_def split: sum.split demo_phase.split)
qed

lemma demo_sale_reach: "demo_reach (\<lambda>_. []) {1} (\<lambda>_. 2) demo_start1 demo_sale"
  using demo_sale_phases
  by (intro exchange_step lock_step) (simp_all add: demo_start_def demo_lock_def in_exchange_def)

theorem each_seat_is_sold_once_witness:
  "success_count (demo_stats demo_sale) = card {2 :: nat} \<and> remaining_seats (demo_stats demo_sale) = 2"
  using each_seat_is_sold_once [OF _ _ _ demo_sale_reach] demo_sale_phases by simp

text \<open>
  Claim C27: as long as no request of the load client has broken, the server shows the buyer's
  name under the key of a seat that was sold; and when all threads have finished, every seat that
  somebody asked for has been sold and every user has been counted.
\<close>

theorem demo_without_failures_sells_out:
  assumes "finite users" and "\<forall>u\<in>users. 1 \<le> seat_of u \<and> seat_of u \<le> n" and "\<forall>i\<in>{1..n}. clock i \<le> now"
    and "demo_reach lib users seat_of (demo_start n now (reset_seats clock n s)) d"
    and "connection_failures (demo_stats d) = 0"
  shows "(\<forall>u\<in>users. phases d u = Finished Bought \<longrightarrow>
      fst (eng_get (demo_time d) (load_seat_key (seat_of u)) (demo_store d)) = Some (load_user u)) \<and>
    ((\<forall>u\<in>users. \<exists>e. phases d u = Finished e) \<longrightarrow>
      sold_seats (demo_stats d) = seat_of ` users \<and> success_count (demo_stats d) + fail_count (demo_stats d) = card users)"
proof -
  obtain own where "demo_inv users seat_of own d" by (rule demo_run_inv [OF assms(1-4)])
  then have own: "owners_ok users seat_of own d" and counts: "counts_ok users seat_of d"
    and store: "store_shows (seat_of ` users) own d"
    by (simp_all add: demo_inv_def books_ok_def)
  have fin: "finite (ended users d e)" for e using assms(1) by (simp add: ended_def)
  have none: "ended users d Broken = {}" "ended users d Died = {}" using assms(5) counts fin by (simp_all add: counts_ok_def)
  have "fst (eng_get (demo_time d) (load_seat_key (seat_of u)) (demo_store d)) = Some (load_user u)"
    if "u \<in> users" "phases d u = Finished Bought" for u
  proof -
    have "own (seat_of u) = Some u" using owners_okD(3) [OF own that(1)] that(2) not_spoilt [OF none(1)] by simp
    then show ?thesis using store that(1) by (simp add: get_by_live(1) store_shows_def)
  qed
  moreover have "sold_seats (demo_stats d) = seat_of ` users \<and> success_count (demo_stats d) + fail_count (demo_stats d) = card users"
    if "\<forall>u\<in>users. \<exists>e. phases d u = Finished e"
  proof -
    note all = all_sold [OF own none that]
    have "ended users d Bought \<inter> ended users d Refused = {}" by (auto simp: ended_def)
    then have "card users = card (ended users d Bought) + card (ended users d Refused)"
      using card_Un_disjoint [OF fin fin, of Bought Refused] all(2) by simp
    then show ?thesis using counts all(1) none by (simp add: counts_ok_def)
  qed
  ultimately show ?thesis by blast
qed

theorem demo_without_failures_sells_out_witness:
  "fst (eng_get 7 (load_seat_key 2) (demo_store demo_sale)) = Some (load_user 1)"
  using demo_without_failures_sells_out [OF _ _ _ demo_sale_reach] demo_sale_phases by simp

text \<open>
  Claim C28: the load client ends. A run for \<open>k\<close> users has at most \<open>8 * k\<close> steps, late executions
  included, and it can go on as long as some thread has not finished: the locks of the seats never
  block each other.
\<close>

theorem demo_ends:
  assumes "finite users" and "\<forall>u\<in>users. 1 \<le> seat_of u \<and> seat_of u \<le> n" and "\<forall>i\<in>{1..n}. clock i \<le> now"
    and "(demo_step lib users seat_of ^^ k) (demo_start n now (reset_seats clock n s)) d"
  shows "k \<le> 8 * card users \<and>
    ((\<exists>u\<in>users. \<forall>e. phases d u \<noteq> Finished e) \<longrightarrow> (\<exists>d'. demo_step lib users seat_of d d'))"
proof -
  have run: "demo_rank users d + k \<le> 8 * card users" "demo_reach lib users seat_of (demo_start n now (reset_seats clock n s)) d"
    using runs_rank [OF start_inv [OF assms(2,3)] assms(1,4)] start_rank by simp_all
  obtain own where "demo_inv users seat_of own d" by (rule demo_run_inv [OF assms(1-3) run(2)])
  then have "locks_ok users seat_of d" by (simp add: demo_inv_def books_ok_def)
  from demo_goes_on [OF this] run(1) show ?thesis by auto
qed

theorem demo_ends_witness: "\<exists>d'. demo_step (\<lambda>_. []) {1} (\<lambda>_. 2) demo_start1 d'"
  using demo_ends [where users = "{1}" and seat_of = "\<lambda>_. 2" and n = 3 and clock = "\<lambda>_. 4" and now = 5 and k = 0
      and lib = "\<lambda>_. []" and s = "eng_set (load_seat_key 2) (load_user 9) new_engine" and d = demo_start1]
  by (simp add: demo_start_def)

end
