(* ===== verification/Server_Life.thy ===== *)
theory Server_Life
  imports Persistence
begin

section \<open>The life of a server (\<open>MiniRedisServer\<close> in \<open>server/server.py\<close>)\<close>

text \<open>
  The main thread restores the last snapshot, accepts connections until it is told to stop, and
  then joins the clients, saves a final snapshot and leaves. Client threads execute commands; the
  snapshot thread saves the store from time to time. \<open>_flush_snapshot\<close> takes the snapshot
  under the lock of the store and saves it in a transaction of the database: other threads may run
  in between. The threads are daemons: they die where they are when the process exits. All
  waiting (\<open>wait\<close>, \<open>join\<close>, \<open>accept\<close>) has a timeout, so that a thread may always go on.
  A command that arrives through the parser has tokens without surrogates.
\<close>

datatype main_phase =
    Accepting
  | JoiningClients
  | FinalFlush
  | FinalSave "SnapshotEntry list"
  | JoiningSnapshot
  | MainFinished

datatype snap_phase = SnapWaiting | SnapSaving "SnapshotEntry list" | SnapFinished

record server_life =
  life_store :: StorageEngine
  life_time :: rat
  life_table :: table
  shutdown_event :: bool
  main_at :: main_phase
  snap_at :: snap_phase
  client_threads :: "nat set"


text \<open>The constructor: the storage that is given, or a new one.\<close>

definition server_init :: "rat \<Rightarrow> StorageEngine option \<Rightarrow> py_error + StorageEngine" where
  "server_init snapshot_interval storage =
     (if snapshot_interval \<le> 0 then Inl (ValueError (lit ''snapshot interval must be greater than zero''))
      else Inr (case storage of None \<Rightarrow> new_engine | Some s \<Rightarrow> s))"

text \<open>The start of \<open>serve_forever\<close>, on the table that the last process has left.\<close>

definition serve_start :: "(table \<Rightarrow> table) \<Rightarrow> rat \<Rightarrow> table \<Rightarrow> StorageEngine \<Rightarrow> server_life" where
  "serve_start select_order now t s =
     \<lparr>life_store = restore_snapshot select_order now (Some t) s, life_time = now, life_table = t,
      shutdown_event = False, main_at = Accepting, snap_at = SnapWaiting, client_threads = {}\<rparr>"

subsection \<open>The steps of the threads\<close>

definition life_accept :: "nat \<Rightarrow> server_life \<Rightarrow> server_life" where
  "life_accept c d = d\<lparr>client_threads := insert c (client_threads d)\<rparr>"

definition life_client_leaves :: "nat \<Rightarrow> server_life \<Rightarrow> server_life" where
  "life_client_leaves c d = d\<lparr>client_threads := client_threads d - {c}\<rparr>"

definition life_command :: "rat \<Rightarrow> ustr list \<Rightarrow> server_life \<Rightarrow> server_life" where
  "life_command now command d = d\<lparr>life_store := snd (handle_command now command (life_store d)), life_time := now\<rparr>"

definition life_shutdown :: "server_life \<Rightarrow> server_life" where
  "life_shutdown d = d\<lparr>shutdown_event := True\<rparr>"

text \<open>The first half of \<open>_flush_snapshot\<close>.\<close>

definition life_snapshot :: "rat \<Rightarrow> server_life \<Rightarrow> SnapshotEntry list \<times> server_life" where
  "life_snapshot now d = (case snapshot now (life_store d) of (rows, s) \<Rightarrow> (rows, d\<lparr>life_store := s, life_time := now\<rparr>))"

definition life_save :: "SnapshotEntry list \<Rightarrow> server_life \<Rightarrow> server_life" where
  "life_save rows d = d\<lparr>life_table := snd (save_entries rows (life_table d))\<rparr>"

inductive life_step :: "server_life \<Rightarrow> server_life \<Rightarrow> bool" where
  Accept: "main_at d = Accepting \<Longrightarrow> \<not> shutdown_event d \<Longrightarrow> life_step d (life_accept c d)"
| Command: "c \<in> client_threads d \<Longrightarrow> main_at d \<noteq> MainFinished \<Longrightarrow> life_time d \<le> now \<Longrightarrow>
    list_all (list_all scalar) command \<Longrightarrow> life_step d (life_command now command d)"
| ClientLeaves: "life_step d (life_client_leaves c d)"
| Shutdown: "life_step d (life_shutdown d)"
| StopAccepting: "main_at d = Accepting \<Longrightarrow>
    life_step d (d\<lparr>shutdown_event := True, main_at := JoiningClients\<rparr>)"
| JoinClients: "main_at d = JoiningClients \<Longrightarrow> life_step d (d\<lparr>main_at := FinalFlush\<rparr>)"
| TakeFinal: "main_at d = FinalFlush \<Longrightarrow> life_time d \<le> now \<Longrightarrow> life_snapshot now d = (rows, d1) \<Longrightarrow>
    life_step d (d1\<lparr>main_at := FinalSave rows\<rparr>)"
| SaveFinal: "main_at d = FinalSave rows \<Longrightarrow> life_step d ((life_save rows d)\<lparr>main_at := JoiningSnapshot\<rparr>)"
| JoinSnapshot: "main_at d = JoiningSnapshot \<Longrightarrow> life_step d (d\<lparr>main_at := MainFinished\<rparr>)"
| TakePeriodic: "snap_at d = SnapWaiting \<Longrightarrow> \<not> shutdown_event d \<Longrightarrow> life_time d \<le> now \<Longrightarrow>
    life_snapshot now d = (rows, d1) \<Longrightarrow> life_step d (d1\<lparr>snap_at := SnapSaving rows\<rparr>)"
| SavePeriodic: "snap_at d = SnapSaving rows \<Longrightarrow> life_step d ((life_save rows d)\<lparr>snap_at := SnapWaiting\<rparr>)"
| EndPeriodic: "snap_at d = SnapWaiting \<Longrightarrow> shutdown_event d \<Longrightarrow> life_step d (d\<lparr>snap_at := SnapFinished\<rparr>)"

text \<open>A run, with the states it has passed.\<close>

inductive life_run :: "server_life \<Rightarrow> server_life list \<Rightarrow> server_life \<Rightarrow> bool" for d0 where
  Begin: "life_run d0 [] d0"
| Next: "life_run d0 past d \<Longrightarrow> life_step d d' \<Longrightarrow> life_run d0 (past @ [d]) d'"

inductive_cases life_stepE: "life_step d d'"

subsection \<open>What a saved table stands for\<close>

definition table_ok :: "table \<Rightarrow> bool" where
  "table_ok rows \<longleftrightarrow> distinct (map fst rows) \<and> list_all bindable rows"

text \<open>A table holds the live entries that a store has at a time, and from then on.\<close>

definition holds :: "table \<Rightarrow> rat \<Rightarrow> StorageEngine \<Rightarrow> bool" where
  "holds rows now s \<longleftrightarrow>
     table_ok rows \<and>
     (\<forall>t\<ge>now. \<forall>k. live t s k =
        (case map_of rows k of None \<Rightarrow> None
         | Some (v, d) \<Rightarrow> if entry_expired t (mk_entry v d) then None else Some (mk_entry v d)))"

lemma save_ok [simp]: "table_ok rows \<Longrightarrow> snd (save_entries rows t) = rows"
  using insert_rows_ok [of rows "[]"] by (simp add: save_entries_def table_ok_def)

lemma holds_later: "holds rows now s \<Longrightarrow> now \<le> now' \<Longrightarrow> holds rows now' s"
  by (auto simp: holds_def)

lemma snapshot_holds:
  assumes "engine_ok s" and "texts_ok s"
  shows "holds (fst (snapshot now s)) now s"
proof -
  have "live t s k = (case map_of (fst (snapshot now s)) k of None \<Rightarrow> None
      | Some (v, d) \<Rightarrow> if entry_expired t (mk_entry v d) then None else Some (mk_entry v d))" if "now \<le> t" for t k
    using live_later [OF that, of s k] by (simp add: snapshot_map_of [OF assms(1)] split: option.split)
  then show ?thesis
    using snapshot_distinct [OF assms(1), of now] snapshot_bindable [OF assms(2), of now] by (simp add: holds_def table_ok_def)
qed

lemma restored_holds:
  assumes "table_ok rows" and "mset rows' = mset rows"
  shows "holds rows now (load_snapshot now rows' s0)"
proof -
  have d: "distinct (map fst rows')"
    using assms mset_eq_imp_distinct_iff [of "map fst rows'" "map fst rows"] by (simp add: table_ok_def mset_map)
  have same: "map_of rows' = map_of rows"
    using assms(1) d mset_eq_setD [OF assms(2)] by (auto simp: table_ok_def map_of_inject_set)
  have "live t (load_snapshot now rows' s0) k = (case map_of rows k of None \<Rightarrow> None
      | Some (v, d) \<Rightarrow> if entry_expired t (mk_entry v d) then None else Some (mk_entry v d))" if "now \<le> t" for t k
    using load_into_lookup [OF d, of now "s0\<lparr>store := []\<rparr>" k] entry_expired_mono that same
    by (auto simp: live_def load_snapshot_def lookup_key_def dict_get_def split: option.split)
  then show ?thesis using assms(1) by (simp add: holds_def)
qed

text \<open>A server that is started on the table has the same live entries.\<close>

lemma holds_restart:
  assumes "holds rows now s" and "mset rows' = mset rows" and "now \<le> now'" and "now' \<le> t"
  shows "live t (load_snapshot now' rows' s0) = live t s"
proof -
  have "holds rows now' (load_snapshot now' rows' s0)" using restored_holds [OF _ assms(2)] assms(1) by (simp add: holds_def)
  then show ?thesis using assms(1,3,4) by (auto simp: holds_def fun_eq_iff)
qed


end
