(* ===== verification/Life_Properties.thy ===== *)
theory Life_Properties
  imports Server_Life Runtime_Properties
begin

section \<open>What survives the end of a server\<close>

text \<open>
  Three properties of the life of a server: whatever happens, its table holds the contents of the
  store at some moment of the run; the final snapshot is kept when nothing runs beside it; and it
  may be overwritten by an older periodic snapshot otherwise.
\<close>

definition store_ok :: "server_life \<Rightarrow> bool" where
  "store_ok d \<longleftrightarrow> engine_ok (life_store d) \<and> texts_ok (life_store d)"

lemma taken_holds:
  assumes "life_snapshot now d = (rows, d1)" and "store_ok d"
  shows "holds rows now (life_store d1)" and "store_ok d1" and "life_time d1 = now"
    and "life_table d1 = life_table d" and "main_at d1 = main_at d" and "snap_at d1 = snap_at d"
    and "shutdown_event d1 = shutdown_event d" and "client_threads d1 = client_threads d"
    and "now \<le> t \<Longrightarrow> live t (life_store d1) = live t (life_store d)"
proof -
  have d1: "rows = fst (snapshot now (life_store d))" "d1 = d\<lparr>life_store := purge_expired_keys now (life_store d), life_time := now\<rparr>"
    using assms(1) by (auto simp: life_snapshot_def snapshot_rows)
  have ok: "engine_ok (life_store d)" "texts_ok (life_store d)" using assms(2) by (simp_all add: store_ok_def)
  have live: "live t (life_store d1) = live t (life_store d)" if "now \<le> t" for t
    using live_later [OF that] by (intro ext) (simp add: d1 live_later [OF that] purge_all_live [OF ok(1)])
  then show "now \<le> t \<Longrightarrow> live t (life_store d1) = live t (life_store d)" .
  show "holds rows now (life_store d1)" using snapshot_holds [OF ok, of now] live by (auto simp: holds_def d1(1))
  show "store_ok d1" using purge_all_ok [OF ok(1)] texts_purge_all [OF ok(2)] by (simp add: store_ok_def d1)
  show "life_time d1 = now" and "life_table d1 = life_table d" and "main_at d1 = main_at d" and "snap_at d1 = snap_at d"
    and "shutdown_event d1 = shutdown_event d" and "client_threads d1 = client_threads d" by (simp_all add: d1)
qed

lemma saved_table [simp]:
  "table_ok rows \<Longrightarrow> life_table (life_save rows d) = rows"
  "life_store (life_save rows d) = life_store d" "life_time (life_save rows d) = life_time d"
  "main_at (life_save rows d) = main_at d" "snap_at (life_save rows d) = snap_at d"
  "shutdown_event (life_save rows d) = shutdown_event d" "client_threads (life_save rows d) = client_threads d"
  by (simp_all add: life_save_def)

subsection \<open>Every table is the store of some moment\<close>

text \<open>The rows that are saved or about to be saved.\<close>

definition rows_of_life :: "server_life \<Rightarrow> table set" where
  "rows_of_life d = insert (life_table d)
     ({rows. main_at d = FinalSave rows} \<union> {rows. snap_at d = SnapSaving rows})"

definition recorded :: "server_life set \<Rightarrow> server_life \<Rightarrow> bool" where
  "recorded moments d \<longleftrightarrow>
     store_ok d \<and> (\<forall>d1\<in>moments. life_time d1 \<le> life_time d) \<and>
     (\<forall>rows\<in>rows_of_life d. \<exists>d1\<in>moments. holds rows (life_time d1) (life_store d1))"

lemma recordedI:
  assumes "recorded moments d" and "store_ok d'" and "life_time d \<le> life_time d'"
    and "rows_of_life d' \<subseteq> rows_of_life d \<union> {rows. holds rows (life_time d') (life_store d')}"
  shows "recorded (insert d' moments) d'"
  using assms unfolding recorded_def by (blast intro: order_trans)

lemma step_recorded:
  assumes rec: "recorded moments d" and "life_step d d'"
  shows "recorded (insert d' moments) d'"
  using assms(2)
proof cases
  case (Command c now command)
  have "store_ok d'" using rec Command handle_ok handle_texts by (simp add: recorded_def store_ok_def life_command_def)
  then show ?thesis using Command by (intro recordedI [OF rec]) (auto simp: life_command_def rows_of_life_def)
next
  case (TakeFinal now rows d1)
  note taken = taken_holds [OF TakeFinal(4)]
  have ok: "store_ok d" using rec by (simp add: recorded_def)
  have "rows_of_life d' \<subseteq> rows_of_life d \<union> {rows}"
    using TakeFinal(1) taken(4-6) [OF ok] by (auto simp: rows_of_life_def)
  then show ?thesis using TakeFinal(1,3) taken(1-3) [OF ok] by (intro recordedI [OF rec]) (auto simp: store_ok_def)
next
  case (TakePeriodic now rows d1)
  note taken = taken_holds [OF TakePeriodic(5)]
  have ok: "store_ok d" using rec by (simp add: recorded_def)
  have "rows_of_life d' \<subseteq> rows_of_life d \<union> {rows}"
    using TakePeriodic(1) taken(4-6) [OF ok] by (auto simp: rows_of_life_def)
  then show ?thesis using TakePeriodic(1,4) taken(1-3) [OF ok] by (intro recordedI [OF rec]) (auto simp: store_ok_def)
next
  case (SaveFinal rows)
  have "table_ok rows" using rec SaveFinal(2) by (auto simp: recorded_def rows_of_life_def holds_def)
  then show ?thesis using SaveFinal rec by (intro recordedI [OF rec]) (auto simp: rows_of_life_def recorded_def store_ok_def)
next
  case (SavePeriodic rows)
  have "table_ok rows" using rec SavePeriodic(2) by (auto simp: recorded_def rows_of_life_def holds_def)
  then show ?thesis using SavePeriodic rec by (intro recordedI [OF rec]) (auto simp: rows_of_life_def recorded_def store_ok_def)
qed (use rec in \<open>intro recordedI [OF rec],
    auto simp: rows_of_life_def recorded_def store_ok_def life_accept_def life_client_leaves_def life_shutdown_def\<close>)


lemma load_into_ok:
  assumes "list_all bindable rows"
  shows "engine_ok s \<Longrightarrow> engine_ok (load_entries_into now rows s)"
    and "texts_ok s \<Longrightarrow> texts_ok (load_entries_into now rows s)"
  using assms by (induction rows arbitrary: s) (auto simp: bindable_def texts_store split: prod.splits)

lemma start_recorded:
  assumes "table_ok t0" and "\<And>rows. mset (select_order rows) = mset rows"
  shows "recorded {serve_start select_order now t0 s} (serve_start select_order now t0 s)"
proof -
  have "list_all bindable (select_order t0)"
    using assms(1) mset_eq_setD [OF assms(2)] by (simp add: table_ok_def list_all_iff)
  moreover have empty: "engine_ok (s\<lparr>store := []\<rparr>)" "texts_ok (s\<lparr>store := []\<rparr>)"
    by (simp_all add: engine_ok_def texts_ok_def)
  ultimately have "store_ok (serve_start select_order now t0 s)"
    using load_into_ok [of "select_order t0"]
    by (simp add: store_ok_def serve_start_def restore_snapshot_def load_snapshot_def empty)
  moreover have "holds t0 now (life_store (serve_start select_order now t0 s))"
    using restored_holds [OF assms(1,2)] by (simp add: serve_start_def restore_snapshot_def)
  ultimately show ?thesis by (auto simp: recorded_def rows_of_life_def serve_start_def)
qed

lemma run_recorded:
  assumes "life_run d0 past d" and "recorded {d0} d0"
  shows "recorded (set (past @ [d])) d"
  using assms(1)
proof induction
  case Begin
  show ?case using assms(2) by simp
next
  case (Next past d d')
  have "set ((past @ [d]) @ [d']) = insert d' (set (past @ [d]))" by auto
  then show ?case using step_recorded [OF Next.IH Next.hyps(2)] by simp
qed

subsection \<open>The final snapshot\<close>

text \<open>Nothing runs beside the main thread, which is in its last steps.\<close>

definition winding_up :: "server_life \<Rightarrow> server_life \<Rightarrow> bool" where
  "winding_up d0 d \<longleftrightarrow>
     store_ok d \<and> shutdown_event d \<and> client_threads d = {} \<and> (\<forall>rows. snap_at d \<noteq> SnapSaving rows) \<and>
     life_time d0 \<le> life_time d \<and> (\<forall>t\<ge>life_time d. live t (life_store d) = live t (life_store d0)) \<and>
     (case main_at d of
        FinalFlush \<Rightarrow> True
      | FinalSave rows \<Rightarrow> holds rows (life_time d) (life_store d)
      | JoiningSnapshot \<Rightarrow> holds (life_table d) (life_time d) (life_store d)
      | MainFinished \<Rightarrow> holds (life_table d) (life_time d) (life_store d)
      | _ \<Rightarrow> False)"

lemma step_winding_up:
  assumes up: "winding_up d0 d" and "life_step d d'"
  shows "winding_up d0 d'"
  using assms(2)
proof cases
  case (TakeFinal now rows d1)
  have ok: "store_ok d" using up by (simp add: winding_up_def)
  note taken = taken_holds [OF TakeFinal(4) ok]
  have "live t (life_store d1) = live t (life_store d0)" if "now \<le> t" for t
    using taken(9) [OF that] up TakeFinal(3) that by (simp add: winding_up_def)
  then show ?thesis using up TakeFinal(1,3) taken(1-8) by (simp add: winding_up_def store_ok_def)
next
  case (SaveFinal rows)
  have "table_ok rows" using up SaveFinal(2) by (simp add: winding_up_def holds_def)
  then show ?thesis using up SaveFinal by (simp add: winding_up_def store_ok_def)
qed (use up in \<open>auto simp: winding_up_def store_ok_def life_client_leaves_def life_shutdown_def split: main_phase.splits\<close>)

lemma run_winding_up: "life_run d0 past d \<Longrightarrow> winding_up d0 d0 \<Longrightarrow> winding_up d0 d"
  by (induction rule: life_run.induct) (simp_all add: step_winding_up)

definition main_stopped :: "server_life \<Rightarrow> bool" where
  "main_stopped d \<longleftrightarrow> main_at d \<noteq> Accepting \<longrightarrow> shutdown_event d"

lemma step_main_stopped: "main_stopped d \<Longrightarrow> life_step d d' \<Longrightarrow> main_stopped d'"
  by (erule life_stepE) (auto simp: main_stopped_def life_accept_def life_command_def life_client_leaves_def life_shutdown_def
      life_snapshot_def split: prod.splits)

lemma run_main_stopped: "life_run d0 past d \<Longrightarrow> main_stopped d0 \<Longrightarrow> main_stopped d"
  by (induction rule: life_run.induct) (simp_all add: step_main_stopped)

subsection \<open>Two runs\<close>

text \<open>A run in which the snapshot thread is slow between the two halves of its last flush.\<close>

definition slow_flush :: server_life where
  "slow_flush = (snd (life_snapshot 1 (serve_start id 0 [] new_engine)))\<lparr>snap_at := SnapSaving []\<rparr>"

definition answered :: server_life where
  "answered = life_command 2 [lit ''SET'', lit ''k'', lit ''v''] (life_accept 1 slow_flush)"

definition joined :: server_life where
  "joined = (life_client_leaves 1 (answered\<lparr>shutdown_event := True, main_at := JoiningClients\<rparr>))\<lparr>main_at := FinalFlush\<rparr>"

definition final_saved :: server_life where
  "final_saved =
     (let rows = [(lit ''k'', lit ''v'', None)]
      in (life_save rows ((snd (life_snapshot 3 joined))\<lparr>main_at := FinalSave rows\<rparr>))\<lparr>main_at := JoiningSnapshot\<rparr>)"

definition overwritten :: server_life where
  "overwritten = ((life_save [] final_saved)\<lparr>snap_at := SnapWaiting\<rparr>)\<lparr>main_at := MainFinished\<rparr>"

abbreviation (input) one_key :: StorageEngine where
  "one_key \<equiv> \<lparr>store = [(lit ''k'', mk_entry (lit ''v'') None)]\<rparr>"

lemma race_command: "snd (handle_command now [lit ''SET'', lit ''k'', lit ''v''] new_engine) = one_key"
proof -
  have "validate_command [lit ''SET'', lit ''k'', lit ''v''] = Inr (lit ''SET'', [lit ''k'', lit ''v''])"
    using validate_supported [of "lit ''SET''" 3 3 "[lit ''k'', lit ''v'']"]
    by (simp add: SUPPORTED_COMMANDS_def command_arity_def COMMAND_ARITY_def)
  then show ?thesis
    by (simp add: handle_dispatch(1) eng_set_def store_key_def dict_set_def new_engine_def)
qed

lemma race_purge: "purge_expired_keys now new_engine = new_engine" "purge_expired_keys now one_key = one_key"
  by (simp_all add: purge_expired_keys_def new_engine_def entry_expired_def mk_entry_def)

lemma race_start:
  "serve_start id 0 [] new_engine =
     \<lparr>life_store = new_engine, life_time = 0, life_table = [], shutdown_event = False, main_at = Accepting,
      snap_at = SnapWaiting, client_threads = {}\<rparr>"
  by (simp add: serve_start_def restore_snapshot_def load_snapshot_def new_engine_def)

lemma race_snapshots:
  "life_store d = new_engine \<Longrightarrow> life_snapshot now d = ([], d\<lparr>life_time := now\<rparr>)"
  "life_store d = one_key \<Longrightarrow> life_snapshot now d = ([(lit ''k'', lit ''v'', None)], d\<lparr>life_time := now\<rparr>)"
  by (simp_all add: life_snapshot_def snapshot_rows race_purge) (simp_all add: new_engine_def mk_entry_def)

lemma slow_flush_eq:
  "slow_flush =
     \<lparr>life_store = new_engine, life_time = 1, life_table = [], shutdown_event = False, main_at = Accepting,
      snap_at = SnapSaving [], client_threads = {}\<rparr>"
  by (simp add: slow_flush_def race_start race_snapshots(1))

lemma answered_eq:
  "answered =
     \<lparr>life_store = one_key, life_time = 2, life_table = [], shutdown_event = False, main_at = Accepting,
      snap_at = SnapSaving [], client_threads = {1}\<rparr>"
  by (simp add: answered_def life_command_def life_accept_def slow_flush_eq race_command)

lemma joined_eq:
  "joined =
     \<lparr>life_store = one_key, life_time = 2, life_table = [], shutdown_event = True, main_at = FinalFlush,
      snap_at = SnapSaving [], client_threads = {}\<rparr>"
  by (simp add: joined_def life_client_leaves_def answered_eq)

lemma final_saved_eq:
  "final_saved =
     \<lparr>life_store = one_key, life_time = 3, life_table = [(lit ''k'', lit ''v'', None)], shutdown_event = True,
      main_at = JoiningSnapshot, snap_at = SnapSaving [], client_threads = {}\<rparr>"
  by (simp add: final_saved_def joined_eq race_snapshots(2) life_save_def save_entries_def bindable_def Let_def)

lemma overwritten_eq:
  "overwritten =
     \<lparr>life_store = one_key, life_time = 3, life_table = [], shutdown_event = True,
      main_at = MainFinished, snap_at = SnapWaiting, client_threads = {}\<rparr>"
  by (simp add: overwritten_def final_saved_eq life_save_def save_entries_def)

lemma race_answered: "life_run (serve_start id 0 [] new_engine) [serve_start id 0 [] new_engine, slow_flush, life_accept 1 slow_flush] answered"
proof -
  have "life_step (serve_start id 0 [] new_engine) slow_flush"
    using life_step.TakePeriodic [of "serve_start id 0 [] new_engine" 1] by (simp add: race_start race_snapshots(1) slow_flush_eq)
  moreover have "life_step slow_flush (life_accept 1 slow_flush)"
    by (rule life_step.Accept) (simp_all add: slow_flush_eq)
  moreover have "life_step (life_accept 1 slow_flush) answered"
    unfolding answered_def by (rule life_step.Command) (simp_all add: slow_flush_eq life_accept_def)
  ultimately show ?thesis
    using life_run.Next [OF life_run.Next [OF life_run.Next [OF life_run.Begin]]] by force
qed

lemma race_ends: "\<exists>rest. life_run answered rest overwritten"
proof -
  let ?stopping = "answered\<lparr>shutdown_event := True, main_at := JoiningClients\<rparr>"
  let ?rows = "[(lit ''k'', lit ''v'', None)]"
  let ?taken = "joined\<lparr>life_time := 3, main_at := FinalSave ?rows\<rparr>"
  have "life_step answered ?stopping" by (rule life_step.StopAccepting) (simp add: answered_eq)
  moreover have "life_step ?stopping (life_client_leaves 1 ?stopping)" by (rule life_step.ClientLeaves)
  moreover have "life_step (life_client_leaves 1 ?stopping) joined"
    unfolding joined_def by (rule life_step.JoinClients) (simp add: life_client_leaves_def)
  moreover have "life_step joined ?taken"
    using life_step.TakeFinal [of joined 3] by (simp add: joined_eq race_snapshots(2))
  moreover have "life_step ?taken final_saved"
    using life_step.SaveFinal [of ?taken ?rows] by (simp add: final_saved_def joined_eq race_snapshots(2) Let_def)
  moreover have "life_step final_saved ((life_save [] final_saved)\<lparr>snap_at := SnapWaiting\<rparr>)"
    by (rule life_step.SavePeriodic) (simp add: final_saved_eq)
  moreover have "life_step ((life_save [] final_saved)\<lparr>snap_at := SnapWaiting\<rparr>) overwritten"
    unfolding overwritten_def by (rule life_step.JoinSnapshot) (simp add: final_saved_eq life_save_def)
  ultimately show ?thesis by (meson life_run.intros)
qed

text \<open>A run without periodic snapshots.\<close>

definition calm :: server_life where
  "calm = (serve_start id 0 [] new_engine)\<lparr>shutdown_event := True, main_at := FinalFlush\<rparr>"

lemma calm_run: "\<exists>past. life_run (serve_start id 0 [] new_engine) past calm"
proof -
  let ?d0 = "serve_start id 0 [] new_engine"
  let ?d1 = "?d0\<lparr>shutdown_event := True, main_at := JoiningClients\<rparr>"
  have "life_step ?d0 ?d1" by (rule life_step.StopAccepting) (simp add: race_start)
  moreover have "life_step ?d1 calm" using life_step.JoinClients [of ?d1] by (simp add: calm_def race_start)
  ultimately show ?thesis by (meson life_run.intros)
qed

lemma calm_ends: "\<exists>rest. life_run calm rest (calm\<lparr>life_time := 1, main_at := MainFinished\<rparr>)"
proof -
  have "life_step calm (calm\<lparr>life_time := 1, main_at := FinalSave []\<rparr>)"
    using life_step.TakeFinal [of calm 1] by (simp add: calm_def race_start race_snapshots(1))
  moreover have "life_step (calm\<lparr>life_time := 1, main_at := FinalSave []\<rparr>) (calm\<lparr>life_time := 1, main_at := JoiningSnapshot\<rparr>)"
    using life_step.SaveFinal [of "calm\<lparr>life_time := 1, main_at := FinalSave []\<rparr>" "[]"]
    by (simp add: life_save_def save_entries_def calm_def race_start)
  moreover have "life_step (calm\<lparr>life_time := 1, main_at := JoiningSnapshot\<rparr>) (calm\<lparr>life_time := 1, main_at := MainFinished\<rparr>)"
    using life_step.JoinSnapshot [of "calm\<lparr>life_time := 1, main_at := JoiningSnapshot\<rparr>"] by simp
  ultimately show ?thesis by (meson life_run.intros)
qed

subsection \<open>The properties\<close>

text \<open>
  Claim C31: the table of the server is consistent at every moment. Whatever clients, the main
  thread and the snapshot thread have done, and wherever the process is killed, a server that is
  started on the table later has exactly the keys, values and deadlines that the store had at some
  moment of the run.
\<close>

theorem crash_restores_an_earlier_moment:
  assumes "table_ok t0" and "\<And>rows. mset (select_order rows) = mset rows"
    and "life_run (serve_start select_order now0 t0 s0) past d" and "life_time d \<le> now" and "now \<le> t"
  shows "\<exists>d1\<in>set (past @ [d]). live t (restore_snapshot select_order now (Some (life_table d)) s1) = live t (life_store d1)"
proof -
  have "recorded (set (past @ [d])) d" by (rule run_recorded [OF assms(3) start_recorded [OF assms(1,2)]])
  then obtain d1 where d1: "d1 \<in> set (past @ [d])" "life_time d1 \<le> life_time d" "holds (life_table d) (life_time d1) (life_store d1)"
    unfolding recorded_def rows_of_life_def by blast
  have "live t (load_snapshot now (select_order (life_table d)) s1) = live t (life_store d1)"
    using holds_restart [OF d1(3) assms(2)] d1(2) assms(4,5) by simp
  then show ?thesis using d1(1) by (auto simp: restore_snapshot_def)
qed

theorem crash_restores_an_earlier_moment_witness:
  "\<exists>d1\<in>set ([serve_start id 0 [] new_engine, slow_flush, life_accept 1 slow_flush] @ [answered]).
     live 4 (restore_snapshot id 3 (Some (life_table answered)) new_engine) = live 4 (life_store d1)"
  by (rule crash_restores_an_earlier_moment [OF _ _ race_answered]) (simp_all add: table_ok_def answered_eq)

text \<open>
  Claim C32: an orderly shutdown loses nothing. When the clients have gone and no periodic snapshot
  is under way when the main thread comes to its final flush, then the store does not change any
  more, and a server that is started on the table that is left when the main thread is done has
  all of its keys, values and deadlines.
\<close>

theorem orderly_shutdown_loses_nothing:
  assumes "table_ok t0" and "\<And>rows. mset (select_order rows) = mset rows"
    and "life_run (serve_start select_order now0 t0 s0) past d"
    and "main_at d = FinalFlush" and "client_threads d = {}" and "\<forall>rows. snap_at d \<noteq> SnapSaving rows"
    and "life_run d rest d'" and "main_at d' = MainFinished" and "life_time d' \<le> now" and "now \<le> t"
  shows "live t (restore_snapshot select_order now (Some (life_table d')) s1) = live t (life_store d)"
proof -
  have "recorded (set (past @ [d])) d" by (rule run_recorded [OF assms(3) start_recorded [OF assms(1,2)]])
  moreover have "main_stopped d" using run_main_stopped [OF assms(3)] by (simp add: main_stopped_def serve_start_def)
  ultimately have "winding_up d d" using assms(4-6) by (simp add: winding_up_def recorded_def main_stopped_def)
  from run_winding_up [OF assms(7) this] have up: "winding_up d d'" .
  then have "live t (load_snapshot now (select_order (life_table d')) s1) = live t (life_store d')"
    using holds_restart [OF _ assms(2), of "life_table d'" "life_time d'" "life_store d'"] assms(8-10) by (simp add: winding_up_def)
  then show ?thesis using up assms(9,10) by (simp add: winding_up_def restore_snapshot_def)
qed

theorem orderly_shutdown_loses_nothing_witness:
  "live 4 (restore_snapshot id 3 (Some (life_table (calm\<lparr>life_time := 1, main_at := MainFinished\<rparr>))) new_engine) =
    live 4 (life_store calm)"
proof -
  obtain past rest where "life_run (serve_start id 0 [] new_engine) past calm"
    "life_run calm rest (calm\<lparr>life_time := 1, main_at := MainFinished\<rparr>)"
    using calm_run calm_ends by blast
  from orderly_shutdown_loses_nothing [OF _ _ this(1) _ _ _ this(2)] show ?thesis
    by (simp add: table_ok_def calm_def race_start)
qed

text \<open>
  Claim C33: an answered write can be lost by an orderly shutdown. There is a run in which a client
  has set a key before the shutdown was requested, has disconnected, the final snapshot has been
  saved with the key, and afterwards the snapshot thread saves the older snapshot that it had
  already taken: the server ends with a table without the key.
\<close>

theorem late_snapshot_overwrites_the_final_one:
  "\<exists>past d rest d'.
     life_run (serve_start id 0 [] new_engine) past d \<and> life_run d rest d' \<and>
     \<not> shutdown_event d \<and> live 4 (life_store d) (lit ''k'') = Some (mk_entry (lit ''v'') None) \<and>
     main_at d' = MainFinished \<and> live 4 (life_store d') (lit ''k'') = Some (mk_entry (lit ''v'') None) \<and>
     live 4 (restore_snapshot id 4 (Some (life_table d')) new_engine) (lit ''k'') = None"
proof -
  obtain rest where "life_run answered rest overwritten" using race_ends by blast
  moreover have "live 4 one_key (lit ''k'') = Some (mk_entry (lit ''v'') None)"
    by (simp add: live_def lookup_key_def dict_get_def entry_expired_def mk_entry_def)
  moreover have "live 4 (restore_snapshot id 4 (Some []) new_engine) (lit ''k'') = None"
    by (simp add: restore_snapshot_def load_snapshot_def new_engine_def live_def lookup_key_def dict_get_def)
  ultimately show ?thesis
    using race_answered by (intro exI [of _ answered] exI [of _ overwritten] exI [of _ rest] exI conjI)
      (simp_all add: answered_eq overwritten_eq)
qed

end
