(* ===== verification/Web_Models.thy ===== *)
theory Web_Models
  imports Db_Client Py_Json
begin

section \<open>Schemas and routes (\<open>ticketing_api/schemas.py\<close>, \<open>app_server/schemas.py\<close>)\<close>

text \<open>
  Both HTTP servers declare the models of their requests and responses and the routes of their
  endpoints. A model is data here, and \<open>validate\<close> reads it: required fields, defaults, no
  other fields (\<open>extra="forbid"\<close>), literals, bounds. What the validation library does with a
  JSON value of another type than the declared one, and the text of the date a text stands for,
  are arguments. An answer that does not fit its model is an exception of the framework.
\<close>

datatype field_type =
    FStr
  | FInt
  | FPositive
  | FBool
  | FDate
  | FLiteral "ustr list"
  | FNullable field_type
  | FList field_type
  | FModel "(ustr \<times> field_type \<times> json option) list"

record model_library =
  lax_value :: "field_type \<Rightarrow> json \<Rightarrow> json option"
  date_value :: "ustr \<Rightarrow> ustr option"

definition validate_int :: "model_library \<Rightarrow> json \<Rightarrow> json option" where
  "validate_int lib v = (case v of JInt t \<Rightarrow> Some v | _ \<Rightarrow> lax_value lib FInt v)"

text \<open>\<open>Field(gt=0)\<close>.\<close>

definition positive_int :: "json \<Rightarrow> bool" where
  "positive_int v = (case v of JInt t \<Rightarrow> (case py_int t of None \<Rightarrow> False | Some n \<Rightarrow> 0 < n) | _ \<Rightarrow> False)"

fun validate :: "model_library \<Rightarrow> field_type \<Rightarrow> json \<Rightarrow> json option"
  and validate_fields ::
    "model_library \<Rightarrow> (ustr \<times> field_type \<times> json option) list \<Rightarrow> (ustr \<times> json) list \<Rightarrow> (ustr \<times> json) list option"
where
  "validate lib FStr v = (case v of JStr t \<Rightarrow> Some v | _ \<Rightarrow> lax_value lib FStr v)"
| "validate lib FInt v = validate_int lib v"
| "validate lib FPositive v =
     (case validate_int lib v of None \<Rightarrow> None | Some n \<Rightarrow> if positive_int n then Some n else None)"
| "validate lib FBool v = (case v of JBool b \<Rightarrow> Some v | _ \<Rightarrow> lax_value lib FBool v)"
| "validate lib FDate v =
     (case v of JStr t \<Rightarrow> map_option JStr (date_value lib t) | _ \<Rightarrow> lax_value lib FDate v)"
| "validate lib (FLiteral ts) v = (case v of JStr t \<Rightarrow> if t \<in> set ts then Some v else None | _ \<Rightarrow> None)"
| "validate lib (FNullable f) v = (case v of JNull \<Rightarrow> Some JNull | _ \<Rightarrow> validate lib f v)"
| "validate lib (FList f) v = (case v of JArr vs \<Rightarrow> map_option JArr (those (map (validate lib f) vs)) | _ \<Rightarrow> None)"
| "validate lib (FModel fs) v =
     (case v of
        JObj kvs \<Rightarrow>
          if list_all (\<lambda>kv. fst kv \<in> set (map fst fs)) kvs then map_option JObj (validate_fields lib fs kvs) else None
      | _ \<Rightarrow> None)"
| "validate_fields lib [] kvs = Some []"
| "validate_fields lib ((name, f, preset) # fs) kvs =
     (case (case map_of (rev kvs) name of None \<Rightarrow> preset | Some v \<Rightarrow> validate lib f v) of
        None \<Rightarrow> None
      | Some v \<Rightarrow> map_option (\<lambda>rest. (name, v) # rest) (validate_fields lib fs kvs))"

abbreviation required :: "string \<Rightarrow> field_type \<Rightarrow> ustr \<times> field_type \<times> json option" where
  "required name f \<equiv> (lit name, f, None)"

abbreviation optional :: "string \<Rightarrow> field_type \<Rightarrow> ustr \<times> field_type \<times> json option" where
  "optional name f \<equiv> (lit name, FNullable f, Some JNull)"

subsection \<open>The models of the database service\<close>

definition ReservationStatus :: field_type where
  "ReservationStatus = FLiteral [lit ''HELD'', lit ''CONFIRMED'', lit ''CANCELLED'', lit ''EXPIRED'']"

definition Db_SeatStatus :: field_type where
  "Db_SeatStatus = FLiteral [lit ''AVAILABLE'', lit ''CONFIRMED'']"

definition PaymentStatus :: field_type where
  "PaymentStatus = FLiteral [lit ''SUCCEEDED'', lit ''FAILED'', lit ''CANCELLED'']"

definition CancelablePaymentStatus :: field_type where
  "CancelablePaymentStatus = FLiteral [lit ''FAILED'', lit ''CANCELLED'']"

definition EventResponse :: field_type where
  "EventResponse = FModel
     [required ''event_id'' FStr, required ''title'' FStr, required ''venue'' FStr, required ''starts_at'' FDate,
      required ''booking_opens_at'' FDate, required ''created_at'' FDate]"

definition SeatResponse :: field_type where
  "SeatResponse = FModel
     [required ''event_id'' FStr, required ''seat_id'' FStr, required ''seat_label'' FStr, required ''section'' FStr,
      required ''row_label'' FStr, required ''seat_number'' FInt, required ''price'' FInt,
      required ''status'' Db_SeatStatus, required ''created_at'' FDate]"

definition ReservationResponse :: field_type where
  "ReservationResponse = FModel
     [required ''reservation_id'' FStr, required ''event_id'' FStr, required ''seat_id'' FStr, required ''user_id'' FStr,
      required ''status'' ReservationStatus, required ''hold_token'' (FNullable FStr),
      required ''expires_at'' (FNullable FDate), required ''created_at'' FDate, required ''updated_at'' FDate,
      required ''confirmed_at'' (FNullable FDate), required ''cancelled_at'' (FNullable FDate),
      optional ''payment_id'' FStr, optional ''payment_status'' PaymentStatus, optional ''payment_amount'' FInt,
      optional ''payment_provider'' FStr, optional ''payment_provider_ref'' FStr]"

definition ConfirmedSeatResponse :: field_type where
  "ConfirmedSeatResponse = FModel
     [required ''event_id'' FStr, required ''seat_id'' FStr, required ''reservation_id'' FStr, required ''user_id'' FStr,
      required ''confirmed_at'' FDate]"

definition HeldReservationCreate_model :: field_type where
  "HeldReservationCreate_model = FModel
     [required ''reservation_id'' FStr, required ''event_id'' FStr, required ''seat_id'' FStr, required ''user_id'' FStr,
      required ''hold_token'' FStr, required ''expires_at'' FDate]"

definition ConfirmReservationRequest_model :: field_type where
  "ConfirmReservationRequest_model = FModel
     [required ''payment_id'' FStr, required ''amount'' FInt, required ''provider'' FStr, required ''provider_ref'' FStr]"

definition CancelReservationRequest_model :: field_type where
  "CancelReservationRequest_model = FModel
     [optional ''payment_id'' FStr, optional ''payment_status'' CancelablePaymentStatus, optional ''amount'' FInt,
      optional ''provider'' FStr, optional ''provider_ref'' FStr]"

subsection \<open>Rows as JSON\<close>

definition json_text :: "ustr option \<Rightarrow> json" where
  "json_text t = (case t of None \<Rightarrow> JNull | Some x \<Rightarrow> JStr x)"

definition json_int :: "int \<Rightarrow> json" where
  "json_int n = JInt (int_str n)"

definition event_dict :: "EventRow \<Rightarrow> json" where
  "event_dict r = JObj
     [(lit ''event_id'', JStr (ev_id r)), (lit ''title'', JStr (ev_title r)), (lit ''venue'', JStr (ev_venue r)),
      (lit ''starts_at'', JStr (ev_starts_at r)), (lit ''booking_opens_at'', JStr (ev_booking_opens_at r)),
      (lit ''created_at'', JStr (ev_created_at r))]"

definition seat_fields :: "SeatRow \<Rightarrow> (ustr \<times> json) list" where
  "seat_fields r =
     [(lit ''event_id'', JStr (st_event_id r)), (lit ''seat_id'', JStr (st_seat_id r)), (lit ''seat_label'', JStr (st_label r)),
      (lit ''section'', JStr (st_section r)), (lit ''row_label'', JStr (st_row_label r)),
      (lit ''seat_number'', json_int (st_number r)), (lit ''price'', json_int (st_price r)),
      (lit ''created_at'', JStr (st_created_at r))]"

definition seat_dict :: "SeatRow \<times> bool \<Rightarrow> json" where
  "seat_dict seat = JObj (seat_fields (fst seat) @
     [(lit ''status'', JStr (if snd seat then lit ''CONFIRMED'' else lit ''AVAILABLE''))])"

fun pay_status_name :: "pay_status \<Rightarrow> ustr" where
  "pay_status_name SUCCEEDED = lit ''SUCCEEDED''"
| "pay_status_name FAILED = lit ''FAILED''"
| "pay_status_name PAY_CANCELLED = lit ''CANCELLED''"

definition payment_fields :: "PaymentRow option \<Rightarrow> (ustr \<times> json) list" where
  "payment_fields p =
     (let of_row = (\<lambda>f. case p of None \<Rightarrow> JNull | Some row \<Rightarrow> f row)
      in [(lit ''payment_id'', of_row (JStr \<circ> pay_id)), (lit ''payment_status'', of_row (JStr \<circ> pay_status_name \<circ> pay_status)),
          (lit ''payment_amount'', of_row (json_int \<circ> pay_amount)), (lit ''payment_provider'', of_row (JStr \<circ> pay_provider)),
          (lit ''payment_provider_ref'', of_row (JStr \<circ> pay_provider_ref))])"

definition reservation_dict :: "reservation_view \<Rightarrow> json" where
  "reservation_dict v =
     (let r = fst v
      in JObj ([(lit ''reservation_id'', JStr (res_id r)), (lit ''event_id'', JStr (res_event_id r)),
          (lit ''seat_id'', JStr (res_seat_id r)), (lit ''user_id'', JStr (res_user_id r)),
          (lit ''status'', JStr (status_name (res_status r))), (lit ''hold_token'', json_text (res_hold_token r)),
          (lit ''expires_at'', json_text (res_expires_at r)), (lit ''created_at'', JStr (res_created_at r)),
          (lit ''updated_at'', JStr (res_updated_at r)), (lit ''confirmed_at'', json_text (res_confirmed_at r)),
          (lit ''cancelled_at'', json_text (res_cancelled_at r))] @ payment_fields (snd v)))"

definition confirmed_dict :: "ReservationRow \<Rightarrow> json" where
  "confirmed_dict r = JObj
     [(lit ''event_id'', JStr (res_event_id r)), (lit ''seat_id'', JStr (res_seat_id r)),
      (lit ''reservation_id'', JStr (res_id r)), (lit ''user_id'', JStr (res_user_id r)),
      (lit ''confirmed_at'', json_text (res_confirmed_at r))]"

subsection \<open>What the models do to the rows\<close>

text \<open>A row with the texts of its dates as the library writes them; \<open>None\<close> when one is no date.\<close>

definition some_date :: "model_library \<Rightarrow> ustr option \<Rightarrow> bool" where
  "some_date lib t \<longleftrightarrow> (case t of None \<Rightarrow> True | Some x \<Rightarrow> date_value lib x \<noteq> None)"

definition as_date :: "model_library \<Rightarrow> ustr \<Rightarrow> ustr" where
  "as_date lib t = (case date_value lib t of None \<Rightarrow> t | Some x \<Rightarrow> x)"

definition event_dated :: "model_library \<Rightarrow> EventRow \<Rightarrow> bool" where
  "event_dated lib r \<longleftrightarrow>
     date_value lib (ev_starts_at r) \<noteq> None \<and> date_value lib (ev_booking_opens_at r) \<noteq> None \<and>
     date_value lib (ev_created_at r) \<noteq> None"

definition seat_dated :: "model_library \<Rightarrow> SeatRow \<Rightarrow> bool" where
  "seat_dated lib r \<longleftrightarrow> date_value lib (st_created_at r) \<noteq> None"

definition row_dated :: "model_library \<Rightarrow> ReservationRow \<Rightarrow> bool" where
  "row_dated lib r \<longleftrightarrow>
     some_date lib (res_expires_at r) \<and> date_value lib (res_created_at r) \<noteq> None \<and>
     date_value lib (res_updated_at r) \<noteq> None \<and> some_date lib (res_confirmed_at r) \<and> some_date lib (res_cancelled_at r)"

definition event_rendered :: "model_library \<Rightarrow> EventRow \<Rightarrow> EventRow" where
  "event_rendered lib r = r\<lparr>ev_starts_at := as_date lib (ev_starts_at r),
     ev_booking_opens_at := as_date lib (ev_booking_opens_at r), ev_created_at := as_date lib (ev_created_at r)\<rparr>"

definition row_rendered :: "model_library \<Rightarrow> ReservationRow \<Rightarrow> ReservationRow" where
  "row_rendered lib r = r\<lparr>res_expires_at := map_option (as_date lib) (res_expires_at r),
     res_created_at := as_date lib (res_created_at r), res_updated_at := as_date lib (res_updated_at r),
     res_confirmed_at := map_option (as_date lib) (res_confirmed_at r),
     res_cancelled_at := map_option (as_date lib) (res_cancelled_at r)\<rparr>"

definition seat_rendered :: "model_library \<Rightarrow> SeatRow \<Rightarrow> SeatRow" where
  "seat_rendered lib r = r\<lparr>st_created_at := as_date lib (st_created_at r)\<rparr>"

lemma validate_date: "date_value lib t \<noteq> None \<Longrightarrow> map_option JStr (date_value lib t) = Some (JStr (as_date lib t))"
  by (auto simp: as_date_def)

lemma validate_some_date:
  "some_date lib t \<Longrightarrow> validate lib (FNullable FDate) (json_text t) = Some (json_text (map_option (as_date lib) t))"
  by (auto simp: some_date_def json_text_def as_date_def split: option.splits)

lemma validate_some_text: "validate lib (FNullable FStr) (json_text t) = Some (json_text t)"
  by (auto simp: json_text_def split: option.split)

lemma validate_event: "event_dated lib r \<Longrightarrow> validate lib EventResponse (event_dict r) = Some (event_dict (event_rendered lib r))"
  by (simp add: EventResponse_def event_dict_def event_rendered_def event_dated_def validate_date)

text \<open>The answer has the fields in the order of the model.\<close>

definition seat_answer :: "model_library \<Rightarrow> SeatRow \<times> bool \<Rightarrow> json" where
  "seat_answer lib seat = JObj
     [(lit ''event_id'', JStr (st_event_id (fst seat))), (lit ''seat_id'', JStr (st_seat_id (fst seat))),
      (lit ''seat_label'', JStr (st_label (fst seat))), (lit ''section'', JStr (st_section (fst seat))),
      (lit ''row_label'', JStr (st_row_label (fst seat))), (lit ''seat_number'', json_int (st_number (fst seat))),
      (lit ''price'', json_int (st_price (fst seat))),
      (lit ''status'', JStr (if snd seat then lit ''CONFIRMED'' else lit ''AVAILABLE'')),
      (lit ''created_at'', JStr (as_date lib (st_created_at (fst seat))))]"

lemma seat_row_fits: "seat_dated lib (fst seat) \<Longrightarrow> validate lib SeatResponse (seat_dict seat) = Some (seat_answer lib seat)"
  by (simp add: SeatResponse_def seat_dict_def seat_answer_def seat_fields_def seat_dated_def validate_date Db_SeatStatus_def
      validate_int_def json_int_def)

definition reservation_answer :: "model_library \<Rightarrow> reservation_view \<Rightarrow> json" where
  "reservation_answer lib v = reservation_dict (row_rendered lib (fst v), snd v)"

lemma those_map_Some: "\<forall>x\<in>set xs. f x = Some (g x) \<Longrightarrow> those (map f xs) = Some (map g xs)"
  by (induction xs) auto

lemma validate_list:
  assumes "\<forall>x\<in>set xs. validate lib f (d x) = Some (g x)"
  shows "validate lib (FList f) (JArr (map d xs)) = Some (JArr (map g xs))"
  using those_map_Some [of xs "validate lib f \<circ> d" g] assms by simp

lemma status_literal: "validate lib ReservationStatus (JStr (status_name st)) = Some (JStr (status_name st))"
  by (cases st) (simp_all add: ReservationStatus_def)

lemma payment_literal: "validate lib PaymentStatus (JStr (pay_status_name st)) = Some (JStr (pay_status_name st))"
  by (cases st) (simp_all add: PaymentStatus_def)

lemma validate_nullable:
  "validate lib (FNullable f) JNull = Some JNull"
  "validate lib (FNullable f) (JStr t) = validate lib f (JStr t)"
  "validate lib (FNullable f) (JInt n) = validate lib f (JInt n)"
  by simp_all

declare validate.simps(7) [simp del]

lemmas field_rules = validate_date validate_some_date validate_some_text validate_nullable status_literal payment_literal
  validate_int_def json_int_def

lemma validate_confirmed:
  assumes "row_dated lib r" and "res_confirmed_at r \<noteq> None"
  shows "validate lib ConfirmedSeatResponse (confirmed_dict r) = Some (confirmed_dict (row_rendered lib r))"
proof -
  obtain t where "res_confirmed_at r = Some t" using assms(2) by blast
  then show ?thesis
    using assms(1)
    by (simp add: ConfirmedSeatResponse_def confirmed_dict_def row_rendered_def row_dated_def some_date_def json_text_def
        validate_date)
qed

lemma validate_reservation:
  assumes "row_dated lib (fst v)"
  shows "validate lib ReservationResponse (reservation_dict v) = Some (reservation_answer lib v)"
  using assms unfolding reservation_answer_def
  by (cases "snd v") (simp_all add: row_dated_def ReservationResponse_def reservation_dict_def payment_fields_def Let_def
      field_rules row_rendered_def)

end
