(* ===== verification/Ticketing_Api.thy ===== *)
theory Ticketing_Api
  imports Web_Models
begin

section \<open>The HTTP interface of the database service (\<open>ticketing_api/router.py\<close>, \<open>ticketing_api/app.py\<close>)\<close>

text \<open>
  A route has a method and a path with parameters; the first route that matches a request is
  taken. The answers of the framework to requests without a route and to bodies that do not fit
  their model are arguments, and so is the UTC text of a date (\<open>normalize_timestamp\<close>). Each
  route reads the clock at most three times.
\<close>

datatype http_method = Http_GET | Http_POST | Http_DELETE

record http_request =
  req_method :: http_method
  req_path :: ustr
  req_query :: "(ustr \<times> ustr) list"
  req_body :: "json option"

record web_app =
  framework :: web_framework
  models :: model_library
  no_route :: "http_request \<Rightarrow> http_response"
  invalid_request :: http_response
  utc_text :: "ustr \<Rightarrow> ustr"

subsection \<open>Matching routes\<close>

datatype segment = Segment ustr | Parameter

text \<open>The pieces of a path between its slashes.\<close>

fun split_path :: "ustr \<Rightarrow> ustr list" where
  "split_path [] = [[]]"
| "split_path (c # s) =
     (if c = 47 then [] # split_path s
      else (case split_path s of [] \<Rightarrow> [[c]] | p # ps \<Rightarrow> (c # p) # ps))"

lemma split_piece: "47 \<notin> set p \<Longrightarrow> split_path p = [p]"
  by (induction p) auto

lemma split_slash: "47 \<notin> set p \<Longrightarrow> split_path (p @ 47 # s) = p # split_path s"
  by (induction p) auto

fun match_segments :: "segment list \<Rightarrow> ustr list \<Rightarrow> ustr list option" where
  "match_segments [] [] = Some []"
| "match_segments (Segment t # ps) (s # ss) = (if s = t then match_segments ps ss else None)"
| "match_segments (Parameter # ps) (s # ss) = (if s = [] then None else map_option (\<lambda>args. s # args) (match_segments ps ss))"
| "match_segments _ _ = None"

text \<open>A pattern is written as in the source; a piece in braces is a parameter.\<close>

definition path_pattern :: "string \<Rightarrow> segment list" where
  "path_pattern t = map (\<lambda>p. if p \<noteq> [] \<and> hd p = 123 then Parameter else Segment p) (split_path (lit t))"

fun find_route :: "(http_method \<times> segment list \<times> 'e) list \<Rightarrow> http_method \<Rightarrow> ustr list \<Rightarrow> ('e \<times> ustr list) option" where
  "find_route [] m path = None"
| "find_route ((m', pattern, e) # routes) m path =
     (case match_segments pattern path of
        Some args \<Rightarrow> if m' = m then Some (e, args) else find_route routes m path
      | None \<Rightarrow> find_route routes m path)"

subsection \<open>Bodies and answers\<close>

definition payload_text :: "(ustr \<times> json) list \<Rightarrow> string \<Rightarrow> ustr" where
  "payload_text kvs name = (case map_of kvs (lit name) of Some (JStr t) \<Rightarrow> t | _ \<Rightarrow> [])"

definition payload_some_text :: "(ustr \<times> json) list \<Rightarrow> string \<Rightarrow> ustr option" where
  "payload_some_text kvs name = (case map_of kvs (lit name) of Some (JStr t) \<Rightarrow> Some t | _ \<Rightarrow> None)"

definition payload_some_int :: "(ustr \<times> json) list \<Rightarrow> string \<Rightarrow> int option" where
  "payload_some_int kvs name = (case map_of kvs (lit name) of Some (JInt t) \<Rightarrow> py_int t | _ \<Rightarrow> None)"

definition payload_int :: "(ustr \<times> json) list \<Rightarrow> string \<Rightarrow> int" where
  "payload_int kvs name = (case payload_some_int kvs name of Some n \<Rightarrow> n | None \<Rightarrow> 0)"

definition held_payload :: "web_app \<Rightarrow> (ustr \<times> json) list \<Rightarrow> HeldReservationCreate" where
  "held_payload web kvs =
     \<lparr>hr_reservation_id = payload_text kvs ''reservation_id'', hr_event_id = payload_text kvs ''event_id'',
      hr_seat_id = payload_text kvs ''seat_id'', hr_user_id = payload_text kvs ''user_id'',
      hr_hold_token = payload_text kvs ''hold_token'', hr_expires_at = utc_text web (payload_text kvs ''expires_at'')\<rparr>"

definition confirm_payload :: "(ustr \<times> json) list \<Rightarrow> ConfirmReservationRequest" where
  "confirm_payload kvs =
     \<lparr>cr_payment_id = payload_text kvs ''payment_id'', cr_amount = payload_int kvs ''amount'',
      cr_provider = payload_text kvs ''provider'', cr_provider_ref = payload_text kvs ''provider_ref''\<rparr>"

definition cancel_payload :: "(ustr \<times> json) list \<Rightarrow> CancelReservationRequest" where
  "cancel_payload kvs =
     \<lparr>cx_payment_id = payload_some_text kvs ''payment_id'',
      cx_payment_status = (case payload_some_text kvs ''payment_status'' of
          None \<Rightarrow> None
        | Some t \<Rightarrow> if t = lit ''FAILED'' then Some FAILED else if t = lit ''CANCELLED'' then Some PAY_CANCELLED else None),
      cx_amount = payload_some_int kvs ''amount'', cx_provider = payload_some_text kvs ''provider'',
      cx_provider_ref = payload_some_text kvs ''provider_ref''\<rparr>"

definition with_body ::
  "web_app \<Rightarrow> field_type \<Rightarrow> json option \<Rightarrow> ((ustr \<times> json) list \<Rightarrow> 's \<Rightarrow> http_response \<times> 's) \<Rightarrow> 's \<Rightarrow> http_response \<times> 's" where
  "with_body web model body handler s =
     (case body of
        None \<Rightarrow> (invalid_request web, s)
      | Some v \<Rightarrow> (case validate (models web) model v of Some (JObj kvs) \<Rightarrow> handler kvs s | _ \<Rightarrow> (invalid_request web, s)))"

definition json_answer :: "web_app \<Rightarrow> nat \<Rightarrow> field_type \<Rightarrow> json \<Rightarrow> http_response" where
  "json_answer web code model v =
     (case validate (models web) model v of
        None \<Rightarrow> unhandled_response (framework web)
      | Some b \<Rightarrow> \<lparr>status_code = code, resp_text = render_json (framework web) b, resp_json = Some b\<rparr>)"

text \<open>The exception handlers of the application around a route.\<close>

definition svc_answer ::
  "web_app \<Rightarrow> field_type \<Rightarrow> ('a \<Rightarrow> nat \<times> json) \<Rightarrow> (svc_error + 'a) \<times> TicketingDb \<Rightarrow> http_response \<times> TicketingDb" where
  "svc_answer web model f outcome =
     (case outcome of
        (Inl e, db) \<Rightarrow> (service_response (framework web) e, db)
      | (Inr x, db) \<Rightarrow> (case f x of (code, v) \<Rightarrow> (json_answer web code model v, db)))"

definition some_reservation :: "reservation_view option \<Rightarrow> json" where
  "some_reservation v = (case v of None \<Rightarrow> JNull | Some r \<Rightarrow> reservation_dict r)"

subsection \<open>The routes\<close>

datatype db_endpoint =
    DbListEvents | DbListEventSeats | DbListConfirmedSeats | DbCreateHeld | DbConfirm | DbCancel | DbExpire
  | DbListUserReservations

definition db_routes :: "(http_method \<times> segment list \<times> db_endpoint) list" where
  "db_routes =
     [(Http_GET, path_pattern ''/events'', DbListEvents),
      (Http_GET, path_pattern ''/events/{event_id}/seats'', DbListEventSeats),
      (Http_GET, path_pattern ''/events/{event_id}/confirmed-seats'', DbListConfirmedSeats),
      (Http_POST, path_pattern ''/reservations/held'', DbCreateHeld),
      (Http_POST, path_pattern ''/reservations/{reservation_id}/confirm'', DbConfirm),
      (Http_POST, path_pattern ''/reservations/{reservation_id}/cancel'', DbCancel),
      (Http_POST, path_pattern ''/reservations/{reservation_id}/expire'', DbExpire),
      (Http_GET, path_pattern ''/users/{user_id}/reservations'', DbListUserReservations)]"

definition route_list_events :: "web_app \<Rightarrow> TicketingDb \<Rightarrow> http_response \<times> TicketingDb" where
  "route_list_events web db = (json_answer web 200 (FList EventResponse) (JArr (map event_dict (list_events db))), db)"

definition route_list_event_seats :: "web_app \<Rightarrow> (nat \<Rightarrow> ustr) \<Rightarrow> ustr \<Rightarrow> TicketingDb \<Rightarrow> http_response \<times> TicketingDb" where
  "route_list_event_seats web t e db =
     svc_answer web (FList SeatResponse) (\<lambda>rows. (200, JArr (map seat_dict rows))) (list_event_seats (t 0) e db)"

definition route_list_confirmed_seats :: "web_app \<Rightarrow> (nat \<Rightarrow> ustr) \<Rightarrow> ustr \<Rightarrow> TicketingDb \<Rightarrow> http_response \<times> TicketingDb" where
  "route_list_confirmed_seats web t e db =
     svc_answer web (FList ConfirmedSeatResponse) (\<lambda>rows. (200, JArr (map confirmed_dict rows)))
       (svc_list_confirmed_seats (t 0) e db)"

definition route_create_held :: "web_app \<Rightarrow> (nat \<Rightarrow> ustr) \<Rightarrow> (ustr \<times> json) list \<Rightarrow> TicketingDb \<Rightarrow> http_response \<times> TicketingDb" where
  "route_create_held web t kvs db =
     svc_answer web ReservationResponse (\<lambda>(v, created). (if created then 201 else 200, some_reservation v))
       (svc_create_held (t 0) (t 1) (t 2) (held_payload web kvs) db)"

definition route_confirm :: "web_app \<Rightarrow> (nat \<Rightarrow> ustr) \<Rightarrow> ustr \<Rightarrow> (ustr \<times> json) list \<Rightarrow> TicketingDb \<Rightarrow> http_response \<times> TicketingDb" where
  "route_confirm web t i kvs db =
     svc_answer web ReservationResponse (\<lambda>v. (200, some_reservation v)) (svc_confirm (t 0) (t 1) i (confirm_payload kvs) db)"

definition route_cancel :: "web_app \<Rightarrow> (nat \<Rightarrow> ustr) \<Rightarrow> ustr \<Rightarrow> (ustr \<times> json) list \<Rightarrow> TicketingDb \<Rightarrow> http_response \<times> TicketingDb" where
  "route_cancel web t i kvs db =
     svc_answer web ReservationResponse (\<lambda>v. (200, some_reservation v)) (svc_cancel (t 0) (t 1) i (cancel_payload kvs) db)"

definition route_expire :: "web_app \<Rightarrow> (nat \<Rightarrow> ustr) \<Rightarrow> ustr \<Rightarrow> TicketingDb \<Rightarrow> http_response \<times> TicketingDb" where
  "route_expire web t i db =
     svc_answer web ReservationResponse (\<lambda>v. (200, some_reservation v)) (svc_expire (t 0) (t 1) i db)"

definition route_list_user_reservations :: "web_app \<Rightarrow> (nat \<Rightarrow> ustr) \<Rightarrow> ustr \<Rightarrow> TicketingDb \<Rightarrow> http_response \<times> TicketingDb" where
  "route_list_user_reservations web t u db =
     svc_answer web (FList ReservationResponse) (\<lambda>rows. (200, JArr (map reservation_dict rows)))
       (svc_list_user_reservations (t 0) u db)"

definition db_endpoint_route ::
  "web_app \<Rightarrow> (nat \<Rightarrow> ustr) \<Rightarrow> db_endpoint \<Rightarrow> ustr list \<Rightarrow> json option \<Rightarrow> TicketingDb \<Rightarrow> http_response \<times> TicketingDb" where
  "db_endpoint_route web t e args body =
     (case e of
        DbListEvents \<Rightarrow> route_list_events web
      | DbListEventSeats \<Rightarrow> route_list_event_seats web t (hd args)
      | DbListConfirmedSeats \<Rightarrow> route_list_confirmed_seats web t (hd args)
      | DbCreateHeld \<Rightarrow> with_body web HeldReservationCreate_model body (route_create_held web t)
      | DbConfirm \<Rightarrow> with_body web ConfirmReservationRequest_model body (route_confirm web t (hd args))
      | DbCancel \<Rightarrow> with_body web CancelReservationRequest_model body (route_cancel web t (hd args))
      | DbExpire \<Rightarrow> route_expire web t (hd args)
      | DbListUserReservations \<Rightarrow> route_list_user_reservations web t (hd args))"

definition db_handle :: "web_app \<Rightarrow> (nat \<Rightarrow> ustr) \<Rightarrow> http_request \<Rightarrow> TicketingDb \<Rightarrow> http_response \<times> TicketingDb" where
  "db_handle web t req db =
     (case find_route db_routes (req_method req) (split_path (req_path req)) of
        None \<Rightarrow> (no_route web req, db)
      | Some (e, args) \<Rightarrow> db_endpoint_route web t e args (req_body req) db)"

end
