(* ===== verification/Db_Http.thy ===== *)
theory Db_Http
  imports Ticketing_Api
begin

section \<open>The database client over the HTTP interface (\<open>app_server/db_client.py\<close>)\<close>

text \<open>
  The calls of \<open>TicketingDBClient\<close>, sent to the routes of the database service. How a URL
  travels is an argument (\<open>deliver\<close>): the path the server sees for a path the client gives.
\<close>

text \<open>
  A client owns the HTTP client it makes for itself, and closes no other. A closed HTTP client is
  one that is not open.
\<close>

record db_client_state =
  owns_client :: bool
  http_open :: bool

definition db_client_init :: "bool option \<Rightarrow> db_client_state" where
  "db_client_init http_client =
     \<lparr>owns_client = (http_client = None),
      http_open = (case http_client of None \<Rightarrow> True | Some opened \<Rightarrow> opened)\<rparr>"

definition db_client_close :: "db_client_state \<Rightarrow> db_client_state" where
  "db_client_close c = (if owns_client c then c\<lparr>http_open := False\<rparr> else c)"

lemma db_client_close_init:
  "http_open (db_client_close (db_client_init h)) = (case h of None \<Rightarrow> False | Some opened \<Rightarrow> opened)"
  by (simp add: db_client_close_def db_client_init_def split: option.split)

definition seats_url :: "ustr \<Rightarrow> ustr" where
  "seats_url e = lit ''/events/'' @ e @ lit ''/seats''"

definition reservation_url :: "ustr \<Rightarrow> string \<Rightarrow> ustr" where
  "reservation_url i action = lit ''/reservations/'' @ i @ lit ''/'' @ lit action"

definition user_url :: "ustr \<Rightarrow> ustr" where
  "user_url u = lit ''/users/'' @ u @ lit ''/reservations''"

definition db_send ::
  "web_app \<Rightarrow> (ustr \<Rightarrow> ustr) \<Rightarrow> (nat \<Rightarrow> ustr) \<Rightarrow> http_method \<Rightarrow> ustr \<Rightarrow> json option \<Rightarrow> TicketingDb \<Rightarrow>
     (client_exn + http_response) \<times> TicketingDb" where
  "db_send web deliver t m url body db =
     (case db_handle web t \<lparr>req_method = m, req_path = deliver url, req_query = [], req_body = body\<rparr> db of
        (r, db1) \<Rightarrow> (db_request (Inr r), db1))"

text \<open>\<open>_request_json\<close>; an answer without JSON makes \<open>json()\<close> raise.\<close>

definition request_json :: "(client_exn + http_response) \<times> 's \<Rightarrow> (client_exn + json) \<times> 's" where
  "request_json r =
     (case r of
        (Inl e, s) \<Rightarrow> (Inl e, s)
      | (Inr resp, s) \<Rightarrow> (case resp_json resp of None \<Rightarrow> (Inl RequestEncodeError, s) | Some v \<Rightarrow> (Inr v, s)))"

definition held_body :: "HeldReservationCreate \<Rightarrow> json" where
  "held_body req = JObj
     [(lit ''reservation_id'', JStr (hr_reservation_id req)), (lit ''event_id'', JStr (hr_event_id req)),
      (lit ''seat_id'', JStr (hr_seat_id req)), (lit ''user_id'', JStr (hr_user_id req)),
      (lit ''hold_token'', JStr (hr_hold_token req)), (lit ''expires_at'', JStr (hr_expires_at req))]"

definition confirm_body :: "ConfirmReservationRequest \<Rightarrow> json" where
  "confirm_body req = JObj
     [(lit ''payment_id'', JStr (cr_payment_id req)), (lit ''amount'', json_int (cr_amount req)),
      (lit ''provider'', JStr (cr_provider req)), (lit ''provider_ref'', JStr (cr_provider_ref req))]"

text \<open>The payload of a cancellation, with the fields that are there; the flows send none.\<close>

definition given :: "string \<Rightarrow> json option \<Rightarrow> (ustr \<times> json) list" where
  "given name v = (case v of None \<Rightarrow> [] | Some x \<Rightarrow> [(lit name, x)])"

definition cancel_body :: "CancelReservationRequest \<Rightarrow> json" where
  "cancel_body req = JObj
     (given ''payment_id'' (map_option JStr (cx_payment_id req)) @
      given ''payment_status'' (map_option (\<lambda>st. JStr (pay_status_name st)) (cx_payment_status req)) @
      given ''amount'' (map_option json_int (cx_amount req)) @
      given ''provider'' (map_option JStr (cx_provider req)) @
      given ''provider_ref'' (map_option JStr (cx_provider_ref req)))"

definition client_list_events where
  "client_list_events web deliver t db = request_json (db_send web deliver t Http_GET (lit ''/events'') None db)"

definition client_list_event_seats where
  "client_list_event_seats web deliver t e db = request_json (db_send web deliver t Http_GET (seats_url e) None db)"

definition client_create_held where
  "client_create_held web deliver t req db =
     (case db_send web deliver t Http_POST (lit ''/reservations/held'') (Some (held_body req)) db of
        (Inl e, db1) \<Rightarrow> (Inl e, db1)
      | (Inr resp, db1) \<Rightarrow>
          (case resp_json resp of None \<Rightarrow> (Inl RequestEncodeError, db1) | Some v \<Rightarrow> (Inr (v, status_code resp = 201), db1)))"

definition client_confirm where
  "client_confirm web deliver t i req db =
     request_json (db_send web deliver t Http_POST (reservation_url i ''confirm'') (Some (confirm_body req)) db)"

definition client_cancel where
  "client_cancel web deliver t i req db =
     request_json (db_send web deliver t Http_POST (reservation_url i ''cancel'') (Some (cancel_body req)) db)"

definition client_expire where
  "client_expire web deliver t i db = request_json (db_send web deliver t Http_POST (reservation_url i ''expire'') None db)"

definition client_list_user_reservations where
  "client_list_user_reservations web deliver t u db = request_json (db_send web deliver t Http_GET (user_url u) None db)"

subsection \<open>Paths\<close>

definition url_safe :: "ustr \<Rightarrow> bool" where
  "url_safe s \<longleftrightarrow> s \<noteq> [] \<and> list_all (\<lambda>c. 48 \<le> c \<and> c \<le> 57 \<or> 65 \<le> c \<and> c \<le> 90 \<or> 97 \<le> c \<and> c \<le> 122 \<or> c = 45 \<or> c = 95) s"

lemma url_safe_piece: "url_safe s \<Longrightarrow> s \<noteq> [] \<and> 47 \<notin> set s"
  by (auto simp: url_safe_def list_all_iff)

lemma split_urls:
  assumes "url_safe i"
  shows "split_path (seats_url i) = [[], lit ''events'', i, lit ''seats'']"
    and "split_path (user_url i) = [[], lit ''users'', i, lit ''reservations'']"
    and "47 \<notin> set (lit action) \<Longrightarrow> split_path (reservation_url i action) = [[], lit ''reservations'', i, lit action]"
proof -
  have i: "47 \<notin> set i" using url_safe_piece [OF assms] by simp
  have "seats_url i = [] @ 47 # lit ''events'' @ 47 # i @ 47 # lit ''seats''"
    "user_url i = [] @ 47 # lit ''users'' @ 47 # i @ 47 # lit ''reservations''"
    "reservation_url i action = [] @ 47 # lit ''reservations'' @ 47 # i @ 47 # lit action"
    by (simp_all add: seats_url_def user_url_def reservation_url_def lit_def)
  moreover have no: "47 \<notin> set (lit ''events'')" "47 \<notin> set (lit ''users'')" "47 \<notin> set (lit ''reservations'')" "47 \<notin> set (lit ''seats'')"
    by (simp_all add: lit_def)
  ultimately show "split_path (seats_url i) = [[], lit ''events'', i, lit ''seats'']"
    and "split_path (user_url i) = [[], lit ''users'', i, lit ''reservations'']"
    and "47 \<notin> set (lit action) \<Longrightarrow> split_path (reservation_url i action) = [[], lit ''reservations'', i, lit action]"
    using i by (simp_all only: split_slash split_piece list.set empty_iff not_False_eq_True)
qed

lemma db_routes_segments:
  "db_routes =
     [(Http_GET, [Segment [], Segment (lit ''events'')], DbListEvents),
      (Http_GET, [Segment [], Segment (lit ''events''), Parameter, Segment (lit ''seats'')], DbListEventSeats),
      (Http_GET, [Segment [], Segment (lit ''events''), Parameter, Segment (lit ''confirmed-seats'')], DbListConfirmedSeats),
      (Http_POST, [Segment [], Segment (lit ''reservations''), Segment (lit ''held'')], DbCreateHeld),
      (Http_POST, [Segment [], Segment (lit ''reservations''), Parameter, Segment (lit ''confirm'')], DbConfirm),
      (Http_POST, [Segment [], Segment (lit ''reservations''), Parameter, Segment (lit ''cancel'')], DbCancel),
      (Http_POST, [Segment [], Segment (lit ''reservations''), Parameter, Segment (lit ''expire'')], DbExpire),
      (Http_GET, [Segment [], Segment (lit ''users''), Parameter, Segment (lit ''reservations'')], DbListUserReservations)]"
  by code_simp

lemma found_routes:
  assumes "url_safe i"
  shows "find_route db_routes Http_GET (split_path (lit ''/events'')) = Some (DbListEvents, [])"
    and "find_route db_routes Http_GET (split_path (seats_url i)) = Some (DbListEventSeats, [i])"
    and "find_route db_routes Http_POST (split_path (lit ''/reservations/held'')) = Some (DbCreateHeld, [])"
    and "find_route db_routes Http_POST (split_path (reservation_url i ''confirm'')) = Some (DbConfirm, [i])"
    and "find_route db_routes Http_POST (split_path (reservation_url i ''cancel'')) = Some (DbCancel, [i])"
    and "find_route db_routes Http_POST (split_path (reservation_url i ''expire'')) = Some (DbExpire, [i])"
    and "find_route db_routes Http_GET (split_path (user_url i)) = Some (DbListUserReservations, [i])"
proof -
  have i: "i \<noteq> []" using url_safe_piece [OF assms] by simp
  have actions: "47 \<notin> set (lit ''confirm'')" "47 \<notin> set (lit ''cancel'')" "47 \<notin> set (lit ''expire'')" by (simp_all add: lit_def)
  have "split_path (lit ''/events'') = [[], lit ''events'']" "split_path (lit ''/reservations/held'') = [[], lit ''reservations'', lit ''held'']"
    by code_simp+
  then show "find_route db_routes Http_GET (split_path (lit ''/events'')) = Some (DbListEvents, [])"
    and "find_route db_routes Http_POST (split_path (lit ''/reservations/held'')) = Some (DbCreateHeld, [])"
    by (simp_all add: db_routes_segments)
  show "find_route db_routes Http_GET (split_path (seats_url i)) = Some (DbListEventSeats, [i])"
    and "find_route db_routes Http_POST (split_path (reservation_url i ''confirm'')) = Some (DbConfirm, [i])"
    and "find_route db_routes Http_POST (split_path (reservation_url i ''cancel'')) = Some (DbCancel, [i])"
    and "find_route db_routes Http_POST (split_path (reservation_url i ''expire'')) = Some (DbExpire, [i])"
    and "find_route db_routes Http_GET (split_path (user_url i)) = Some (DbListUserReservations, [i])"
    using i by (simp_all add: split_urls [OF assms] actions db_routes_segments)
qed

end
