(* ===== verification/App_Api.thy ===== *)
theory App_Api
  imports App_Service Db_Http
begin

section \<open>The HTTP interface of the application server (\<open>app_server/app.py\<close>, \<open>app_server/schemas.py\<close>)\<close>

text \<open>
  The models of the application server, its routes, what each route calls, and the exception
  handlers. A route's action gives the status and the value that is returned; the response model
  of the route is applied to it.
\<close>

subsection \<open>Models\<close>

definition TicketingSeatStatus :: field_type where
  "TicketingSeatStatus = FLiteral [lit ''AVAILABLE'', lit ''HELD'', lit ''CONFIRMED'']"

definition SeatViewResponse :: field_type where
  "SeatViewResponse = FModel
     [required ''event_id'' FStr, required ''seat_id'' FStr, required ''seat_label'' FStr, required ''section'' FStr,
      required ''row_label'' FStr, required ''seat_number'' FInt, required ''price'' FInt,
      required ''status'' TicketingSeatStatus, optional ''held_by_user_id'' FStr, optional ''hold_ttl'' FInt,
      required ''created_at'' FDate]"

definition QueueJoinRequest :: field_type where
  "QueueJoinRequest = FModel [required ''event_id'' FStr, required ''user_id'' FStr]"

definition QueueLeaveRequest :: field_type where
  "QueueLeaveRequest = FModel [required ''event_id'' FStr, required ''user_id'' FStr]"

definition QueueJoinResponse :: field_type where
  "QueueJoinResponse = FModel [required ''joined'' FBool, required ''position'' FInt, required ''queue_length'' FInt]"

definition QueuePositionResponse :: field_type where
  "QueuePositionResponse = FModel [required ''position'' FInt, required ''queue_length'' FInt]"

definition QueueFrontResponse :: field_type where
  "QueueFrontResponse = FModel [required ''user_id'' (FNullable FStr), required ''queue_length'' FInt]"

definition QueueLeaveResponse :: field_type where
  "QueueLeaveResponse = FModel [required ''removed'' FBool, required ''previous_position'' FInt, required ''queue_length'' FInt]"

definition HoldReservationRequest :: field_type where
  "HoldReservationRequest = FModel
     [required ''event_id'' FStr, required ''seat_id'' FStr, required ''user_id'' FStr,
      (lit ''hold_seconds'', FPositive, Some (json_int 30))]"

definition App_ConfirmReservationRequest :: field_type where
  "App_ConfirmReservationRequest = FModel [required ''event_id'' FStr, required ''seat_id'' FStr, required ''user_id'' FStr]"

definition App_CancelReservationRequest :: field_type where
  "App_CancelReservationRequest = FModel [required ''event_id'' FStr, required ''seat_id'' FStr, required ''user_id'' FStr]"

definition PurchaseReservationRequest :: field_type where
  "PurchaseReservationRequest = FModel
     [required ''event_id'' FStr, required ''seat_id'' FStr, required ''user_id'' FStr,
      (lit ''hold_seconds'', FPositive, Some (json_int 30))]"

definition MockPaymentResponse :: field_type where
  "MockPaymentResponse = FModel
     [required ''payment_id'' FStr, required ''status'' (FLiteral [lit ''SUCCEEDED'']), required ''amount'' FInt,
      required ''provider'' FStr, required ''provider_ref'' FStr]"

definition HoldReservationResponse :: field_type where
  "HoldReservationResponse = FModel
     [required ''reservation'' ReservationResponse, required ''seat'' SeatViewResponse, required ''created'' FBool]"

definition ConfirmReservationResponse :: field_type where
  "ConfirmReservationResponse = FModel
     [required ''reservation'' ReservationResponse, required ''seat'' SeatViewResponse, required ''payment'' MockPaymentResponse]"

definition CancelReservationResponse :: field_type where
  "CancelReservationResponse = FModel [required ''reservation'' ReservationResponse, required ''seat'' SeatViewResponse]"

definition PurchaseReservationResponse :: field_type where
  "PurchaseReservationResponse = FModel
     [required ''reservation'' ReservationResponse, required ''seat'' SeatViewResponse,
      required ''payment'' MockPaymentResponse, required ''created'' FBool]"

definition OrchestrationLogEntryResponse :: field_type where
  "OrchestrationLogEntryResponse = FModel
     [required ''timestamp'' FDate, required ''source'' FStr, required ''target'' FStr, required ''action'' FStr,
      required ''status'' FStr, optional ''event_id'' FStr, optional ''seat_id'' FStr, optional ''user_id'' FStr,
      optional ''detail'' FStr]"

subsection \<open>Results as JSON\<close>

definition seat_view_dict :: "SeatView \<Rightarrow> json" where
  "seat_view_dict v = JObj (seat_fields (view_seat v) @
     [(lit ''status'', JStr (view_status v)), (lit ''held_by_user_id'', json_text (view_held_by v)),
      (lit ''hold_ttl'', case view_hold_ttl v of None \<Rightarrow> JNull | Some n \<Rightarrow> json_int n)])"

definition queue_join_dict :: "QueueJoinResult \<Rightarrow> json" where
  "queue_join_dict r = JObj
     [(lit ''joined'', JBool (joined r)), (lit ''position'', json_int (join_position r)),
      (lit ''queue_length'', json_int (join_queue_length r))]"

definition payment_dict :: "ConfirmReservationRequest \<Rightarrow> json" where
  "payment_dict p = JObj
     [(lit ''payment_id'', JStr (cr_payment_id p)), (lit ''status'', JStr (lit ''SUCCEEDED'')), (lit ''amount'', json_int (cr_amount p)),
      (lit ''provider'', JStr (cr_provider p)), (lit ''provider_ref'', JStr (cr_provider_ref p))]"

definition hold_dict :: "HoldResult \<Rightarrow> json" where
  "hold_dict r = JObj
     [(lit ''reservation'', reservation_dict (hold_reservation_view r)), (lit ''seat'', seat_view_dict (hold_seat r)),
      (lit ''created'', JBool (hold_created r))]"

definition confirm_fields :: "ConfirmResult \<Rightarrow> (ustr \<times> json) list" where
  "confirm_fields r =
     [(lit ''reservation'', reservation_dict (confirm_reservation_view r)), (lit ''seat'', seat_view_dict (confirm_seat_view r)),
      (lit ''payment'', payment_dict (confirm_payment r))]"

definition log_entry_dict :: "OrchestrationLogEntry \<Rightarrow> json" where
  "log_entry_dict r = JObj
     [(lit ''timestamp'', JStr (log_timestamp r)), (lit ''source'', JStr (log_source r)), (lit ''target'', JStr (log_target r)),
      (lit ''action'', JStr (log_action r)), (lit ''status'', JStr (log_status r)), (lit ''event_id'', json_text (log_event_id r)),
      (lit ''seat_id'', json_text (log_seat_id r)), (lit ''user_id'', json_text (log_user_id r)),
      (lit ''detail'', json_text (log_detail r))]"

definition queue_position_dict :: "QueuePositionResult \<Rightarrow> json" where
  "queue_position_dict r = JObj [(lit ''position'', json_int (pos_position r)), (lit ''queue_length'', json_int (pos_queue_length r))]"

definition queue_leave_dict :: "QueueLeaveResult \<Rightarrow> json" where
  "queue_leave_dict r = JObj
     [(lit ''removed'', JBool (removed r)), (lit ''previous_position'', json_int (previous_position r)),
      (lit ''queue_length'', json_int (leave_queue_length r))]"

definition queue_front_dict :: "QueueFrontResult \<Rightarrow> json" where
  "queue_front_dict r = JObj [(lit ''user_id'', json_text (front_user_id r)), (lit ''queue_length'', json_int (front_queue_length r))]"

subsection \<open>Routes\<close>

datatype app_endpoint =
    ListEvents | ListEventSeats | GetEventSeat | ListUserReservations | ListLogs | ClearLogs | JoinQueue | QueuePosition
  | LeaveQueue | PeekQueue | HoldSeat | ConfirmSeat | CancelSeat | PurchaseSeat

definition app_routes :: "(http_method \<times> segment list \<times> app_endpoint) list" where
  "app_routes =
     [(Http_GET, path_pattern ''/events'', ListEvents),
      (Http_GET, path_pattern ''/events/{event_id}/seats'', ListEventSeats),
      (Http_GET, path_pattern ''/events/{event_id}/seats/{seat_id}'', GetEventSeat),
      (Http_GET, path_pattern ''/users/{user_id}/reservations'', ListUserReservations),
      (Http_GET, path_pattern ''/orchestration/logs'', ListLogs),
      (Http_DELETE, path_pattern ''/orchestration/logs'', ClearLogs),
      (Http_POST, path_pattern ''/queue/join'', JoinQueue),
      (Http_GET, path_pattern ''/queue/{event_id}/users/{user_id}/position'', QueuePosition),
      (Http_POST, path_pattern ''/queue/leave'', LeaveQueue),
      (Http_GET, path_pattern ''/queue/{event_id}/peek'', PeekQueue),
      (Http_POST, path_pattern ''/reservations/hold'', HoldSeat),
      (Http_POST, path_pattern ''/reservations/{reservation_id}/confirm'', ConfirmSeat),
      (Http_POST, path_pattern ''/reservations/{reservation_id}/cancel'', CancelSeat),
      (Http_POST, path_pattern ''/reservations/purchase'', PurchaseSeat)]"

definition request_model :: "app_endpoint \<Rightarrow> field_type option" where
  "request_model e =
     (case e of
        JoinQueue \<Rightarrow> Some QueueJoinRequest
      | LeaveQueue \<Rightarrow> Some QueueLeaveRequest
      | HoldSeat \<Rightarrow> Some HoldReservationRequest
      | ConfirmSeat \<Rightarrow> Some App_ConfirmReservationRequest
      | CancelSeat \<Rightarrow> Some App_CancelReservationRequest
      | PurchaseSeat \<Rightarrow> Some PurchaseReservationRequest
      | _ \<Rightarrow> None)"

definition response_model :: "app_endpoint \<Rightarrow> field_type option" where
  "response_model e =
     (case e of
        ListEvents \<Rightarrow> Some (FList EventResponse)
      | ListEventSeats \<Rightarrow> Some (FList SeatViewResponse)
      | GetEventSeat \<Rightarrow> Some SeatViewResponse
      | ListUserReservations \<Rightarrow> Some (FList ReservationResponse)
      | ListLogs \<Rightarrow> Some (FList OrchestrationLogEntryResponse)
      | ClearLogs \<Rightarrow> None
      | JoinQueue \<Rightarrow> Some QueueJoinResponse
      | QueuePosition \<Rightarrow> Some QueuePositionResponse
      | LeaveQueue \<Rightarrow> Some QueueLeaveResponse
      | PeekQueue \<Rightarrow> Some QueueFrontResponse
      | HoldSeat \<Rightarrow> Some HoldReservationResponse
      | ConfirmSeat \<Rightarrow> Some ConfirmReservationResponse
      | CancelSeat \<Rightarrow> Some CancelReservationResponse
      | PurchaseSeat \<Rightarrow> Some PurchaseReservationResponse)"

text \<open>\<open>limit: int = 40\<close> in the query, and \<open>max(1, min(limit, 120))\<close>.\<close>

definition query_int :: "web_app \<Rightarrow> http_request \<Rightarrow> string \<Rightarrow> int \<Rightarrow> int option" where
  "query_int web req name preset =
     (case map_of (req_query req) (lit name) of
        None \<Rightarrow> Some preset
      | Some t \<Rightarrow> (case lax_value (models web) FInt (JStr t) of Some (JInt n) \<Rightarrow> py_int n | _ \<Rightarrow> None))"

definition bounded_limit :: "int \<Rightarrow> int" where
  "bounded_limit limit = max 1 (min limit 120)"

definition act_map :: "('a \<Rightarrow> 'b) \<Rightarrow> ('a, 'w) act \<Rightarrow> ('b, 'w) act" where
  "act_map f m = act_bind m (\<lambda>x. act_return (f x))"

text \<open>What a route calls, with its path parameters, its body and the bounded limit.\<close>

definition app_action ::
  "'w app_env \<Rightarrow> app_endpoint \<Rightarrow> ustr list \<Rightarrow> (ustr \<times> json) list \<Rightarrow> int \<Rightarrow> (nat \<times> json, 'w) act" where
  "app_action env e args kvs limit =
     (let event = payload_text kvs ''event_id''; seat = payload_text kvs ''seat_id''; user = payload_text kvs ''user_id'';
          arg = (\<lambda>n. args ! n)
      in case e of
           ListEvents \<Rightarrow> act_map (\<lambda>rows. (200, JArr (map event_dict rows))) (app_list_events env)
         | ListEventSeats \<Rightarrow> act_map (\<lambda>vs. (200, JArr (map seat_view_dict vs))) (app_list_event_seats env (arg 0))
         | GetEventSeat \<Rightarrow> act_map (\<lambda>v. (200, seat_view_dict v)) (get_event_seat env (arg 0) (arg 1))
         | ListUserReservations \<Rightarrow> act_map (\<lambda>rows. (200, JArr (map reservation_dict rows))) (app_list_user_reservations env (arg 0))
         | ListLogs \<Rightarrow> act_map (\<lambda>es. (200, JArr (map log_entry_dict es))) (list_orchestration_logs (bounded_limit limit))
         | ClearLogs \<Rightarrow> act_map (\<lambda>_. (204, JNull)) clear_orchestration_logs
         | JoinQueue \<Rightarrow> act_map (\<lambda>r. (201, queue_join_dict r)) (app_join_queue env event user)
         | QueuePosition \<Rightarrow> act_map (\<lambda>r. (200, queue_position_dict r)) (app_queue_position env (arg 0) (arg 1))
         | LeaveQueue \<Rightarrow> act_map (\<lambda>r. (200, queue_leave_dict r)) (app_leave_queue env event user)
         | PeekQueue \<Rightarrow> act_map (\<lambda>r. (200, queue_front_dict r)) (app_peek_queue env (arg 0))
         | HoldSeat \<Rightarrow> act_map (\<lambda>r. (if hold_created r then 201 else 200, hold_dict r))
             (hold_reservation env event seat user (payload_int kvs ''hold_seconds''))
         | ConfirmSeat \<Rightarrow> act_map (\<lambda>r. (200, JObj (confirm_fields r))) (app_confirm_reservation env (arg 0) event seat user)
         | CancelSeat \<Rightarrow> act_map (\<lambda>(v, view). (200, JObj
             [(lit ''reservation'', reservation_dict v), (lit ''seat'', seat_view_dict view)]))
             (app_cancel_reservation env (arg 0) event seat user)
         | PurchaseSeat \<Rightarrow> act_map (\<lambda>(r, created). (201, JObj (confirm_fields r @ [(lit ''created'', JBool created)])))
             (purchase_seat env event seat user (payload_int kvs ''hold_seconds'')))"

subsection \<open>Exception handlers and answers\<close>

definition app_error_response :: "web_app \<Rightarrow> client_exn \<Rightarrow> http_response" where
  "app_error_response web e =
     (case e of
        AppServerError (NotFoundError t) \<Rightarrow> detail_response (framework web) 404 t
      | AppServerError (ConflictError t) \<Rightarrow> detail_response (framework web) 409 t
      | AppServerError (UpstreamError t) \<Rightarrow> detail_response (framework web) 502 t
      | _ \<Rightarrow> unhandled_response (framework web))"

definition app_answer :: "web_app \<Rightarrow> field_type option \<Rightarrow> nat \<times> json \<Rightarrow> http_response" where
  "app_answer web model r =
     (case model of
        None \<Rightarrow> \<lparr>status_code = fst r, resp_text = [], resp_json = None\<rparr>
      | Some m \<Rightarrow> json_answer web (fst r) m (snd r))"

definition app_endpoint_answer ::
  "web_app \<Rightarrow> 'w app_env \<Rightarrow> app_endpoint \<Rightarrow> ustr list \<Rightarrow> (ustr \<times> json) list \<Rightarrow> int \<Rightarrow> 'w app_state \<Rightarrow> http_response \<times> 'w app_state" where
  "app_endpoint_answer web env e args kvs limit s =
     (case app_action env e args kvs limit s of
        (Inl err, s1) \<Rightarrow> (app_error_response web err, s1)
      | (Inr r, s1) \<Rightarrow> (app_answer web (response_model e) r, s1))"

definition app_handle :: "web_app \<Rightarrow> 'w app_env \<Rightarrow> http_request \<Rightarrow> 'w app_state \<Rightarrow> http_response \<times> 'w app_state" where
  "app_handle web env req s =
     (case find_route app_routes (req_method req) (split_path (req_path req)) of
        None \<Rightarrow> (no_route web req, s)
      | Some (e, args) \<Rightarrow>
          (case request_model e of
             Some model \<Rightarrow> with_body web model (req_body req) (\<lambda>kvs. app_endpoint_answer web env e args kvs 40) s
           | None \<Rightarrow>
               (case (if e = ListLogs then query_int web req ''limit'' 40 else Some 40) of
                  None \<Rightarrow> (invalid_request web, s)
                | Some limit \<Rightarrow> app_endpoint_answer web env e args [] limit s)))"

subsection \<open>The clients of an application\<close>

text \<open>
  \<open>create_app\<close> makes the clients it is not given, and the end of the lifespan closes those and no
  others. Of the RESP client only its connection counts here, which it opens with its first call.
\<close>

record gateways =
  owns_redis_client :: bool
  owns_db_client :: bool
  redis_gateway :: bool
  db_gateway :: db_client_state

definition create_gateways :: "bool option \<Rightarrow> db_client_state option \<Rightarrow> gateways" where
  "create_gateways redis_client db_client =
     \<lparr>owns_redis_client = (redis_client = None),
      owns_db_client = (db_client = None),
      redis_gateway = (case redis_client of None \<Rightarrow> False | Some conn \<Rightarrow> conn),
      db_gateway = (case db_client of None \<Rightarrow> db_client_init None | Some c \<Rightarrow> c)\<rparr>"

definition end_lifespan :: "gateways \<Rightarrow> gateways" where
  "end_lifespan g =
     (let g1 = (if owns_redis_client g
                then g\<lparr>redis_gateway := close_connection (redis_gateway g)\<rparr> else g)
      in if owns_db_client g1 then g1\<lparr>db_gateway := db_client_close (db_gateway g1)\<rparr> else g1)"

text \<open>Calls in between change the connection (\<open>conn\<close>) and nothing else of a gateway.\<close>

lemma lifespan_closes_its_own:
  fixes g :: gateways
  assumes "g = create_gateways r d"
  shows "redis_gateway (end_lifespan (g\<lparr>redis_gateway := conn\<rparr>)) = (r \<noteq> None \<and> conn)"
    and "db_gateway (end_lifespan (g\<lparr>redis_gateway := conn\<rparr>)) =
           (case d of None \<Rightarrow> (db_client_init None)\<lparr>http_open := False\<rparr> | Some c \<Rightarrow> c)"
  using assms
  by (auto simp: end_lifespan_def create_gateways_def db_client_close_def db_client_init_def Let_def
      split: option.split)

end
