(* ===== verification/Http_Properties.thy ===== *)
theory Http_Properties
  imports Db_Http Ticketing_System Ticketing_Properties
begin

section \<open>A call of the database over HTTP\<close>

text \<open>
  A call of the client reaches the right route, its body is read as it was written, the answer
  fits its model, and every error of the service comes back as the right exception.
\<close>

definition over_web :: "web_app \<Rightarrow> ('a \<Rightarrow> 'b) \<Rightarrow> (svc_error + 'a) \<times> TicketingDb \<Rightarrow> (client_exn + 'b) \<times> TicketingDb" where
  "over_web app f r =
     (case r of (Inl e, db) \<Rightarrow> (Inl (client_error (framework app) e), db) | (Inr x, db) \<Rightarrow> (Inr (f x), db))"

definition web_ok :: "web_app \<Rightarrow> (ustr \<Rightarrow> ustr) \<Rightarrow> bool" where
  "web_ok app deliver \<longleftrightarrow>
     status_code (unhandled_response (framework app)) = 500 \<and>
     (\<forall>p. list_all (\<lambda>c. c = 47 \<or> url_safe [c]) p \<longrightarrow> deliver p = p)"

text \<open>The dates of a result are dates.\<close>

definition reservation_dated :: "web_app \<Rightarrow> reservation_view option \<Rightarrow> bool" where
  "reservation_dated app v \<longleftrightarrow> (\<exists>x. v = Some x \<and> row_dated (models app) (fst x))"

lemma service_error_back:
  assumes "status_code (unhandled_response app) = 500"
  shows "db_request (Inr (service_response app e)) = Inl (client_error app e)"
  using assms by (cases e) (simp_all add: client_error_def service_response_def db_request_def detail_response_def Let_def)

lemma answer_back:
  assumes "validate (models app) model v = Some v'" and "code = 200 \<or> code = 201"
  shows "db_request (Inr (json_answer app code model v)) = Inr (json_answer app code model v)"
    and "resp_json (json_answer app code model v) = Some v'" and "status_code (json_answer app code model v) = code"
  using assms by (auto simp: json_answer_def db_request_def)

lemma svc_answer_back:
  assumes "\<And>x. fst outcome = Inr x \<Longrightarrow> \<exists>code v. f x = (code, v) \<and> (code = 200 \<or> code = 201) \<and> validate (models app) model v = Some (g x)"
    and "status_code (unhandled_response (framework app)) = 500"
    and "svc_answer app model f outcome = (r, db)"
  shows "request_json (db_request (Inr r), db) = over_web app g outcome"
proof -
  obtain res db' where out: "outcome = (res, db')" by (cases outcome)
  show ?thesis
  proof (cases res)
    case (Inl e)
    then show ?thesis
      using assms(2,3) out service_error_back by (auto simp: svc_answer_def over_web_def request_json_def)
  next
    case (Inr x)
    obtain code v where f: "f x = (code, v)" "code = 200 \<or> code = 201" "validate (models app) model v = Some (g x)"
      using assms(1) [of x] out Inr by auto
    have "r = json_answer app code model v" "db' = db" using assms(3) out Inr f(1) by (auto simp: svc_answer_def)
    then show ?thesis using answer_back [OF f(3,2)] out Inr by (simp add: over_web_def request_json_def)
  qed
qed

lemma delivered:
  assumes "web_ok app deliver" and "url_safe i"
  shows "deliver (seats_url i) = seats_url i" and "deliver (user_url i) = user_url i"
    and "deliver (lit ''/events'') = lit ''/events''" and "deliver (lit ''/reservations/held'') = lit ''/reservations/held''"
    and "deliver (reservation_url i ''confirm'') = reservation_url i ''confirm''"
    and "deliver (reservation_url i ''cancel'') = reservation_url i ''cancel''"
    and "deliver (reservation_url i ''expire'') = reservation_url i ''expire''"
  using assms
  by (simp_all add: web_ok_def seats_url_def user_url_def reservation_url_def url_safe_def list_all_iff lit_def)

subsection \<open>The bodies\<close>

lemma confirm_body_read:
  assumes "printable (nat \<bar>cr_amount req\<bar>)" and "confirm_body req = JObj kvs"
  shows "validate lib ConfirmReservationRequest_model (confirm_body req) = Some (confirm_body req)"
    and "confirm_payload kvs = req"
  using assms by (auto simp: ConfirmReservationRequest_model_def confirm_body_def validate_int_def json_int_def
      confirm_payload_def payload_text_def payload_int_def payload_some_int_def py_int_int_str)

text \<open>A field that may be missing, in the body and in the validated body.\<close>

lemma given_map [simp]:
  "map_of (rev (given name v)) x = (if x = lit name then v else None)"
  "map_of (given name v) x = (if x = lit name then v else None)"
  by (simp_all add: given_def split: option.split)

lemma given_names: "list_all P (given name v) \<longleftrightarrow> (\<forall>x. v = Some x \<longrightarrow> P (lit name, x))"
  by (simp add: given_def split: option.split)

lemma optional_field:
  assumes "map_of (rev kvs) name = v" and "\<forall>x. v = Some x \<longrightarrow> validate lib (FNullable f) x = Some x"
  shows "validate_fields lib ((name, FNullable f, Some JNull) # fs) kvs =
    map_option (\<lambda>rest. (name, case v of None \<Rightarrow> JNull | Some x \<Rightarrow> x) # rest) (validate_fields lib fs kvs)"
  using assms by (simp del: validate.simps split: option.split)

definition cancel_fields :: "CancelReservationRequest \<Rightarrow> (ustr \<times> json) list" where
  "cancel_fields req =
     [(lit ''payment_id'', case cx_payment_id req of None \<Rightarrow> JNull | Some t \<Rightarrow> JStr t),
      (lit ''payment_status'', case cx_payment_status req of None \<Rightarrow> JNull | Some st \<Rightarrow> JStr (pay_status_name st)),
      (lit ''amount'', case cx_amount req of None \<Rightarrow> JNull | Some n \<Rightarrow> json_int n),
      (lit ''provider'', case cx_provider req of None \<Rightarrow> JNull | Some t \<Rightarrow> JStr t),
      (lit ''provider_ref'', case cx_provider_ref req of None \<Rightarrow> JNull | Some t \<Rightarrow> JStr t)]"

lemma cancel_status_read:
  assumes "cx_payment_status req \<noteq> Some SUCCEEDED"
  shows "(case payload_some_text (cancel_fields req) ''payment_status'' of
          None \<Rightarrow> None
        | Some t \<Rightarrow> if t = lit ''FAILED'' then Some FAILED else if t = lit ''CANCELLED'' then Some PAY_CANCELLED else None) =
      cx_payment_status req"
proof (cases "cx_payment_status req")
  case (Some st)
  then show ?thesis using assms by (cases st) (simp_all add: cancel_fields_def payload_some_text_def)
qed (simp add: cancel_fields_def payload_some_text_def)

lemma cancel_fields_valid:
  assumes "cx_payment_status req \<noteq> Some SUCCEEDED" and "\<And>n. cx_amount req = Some n \<Longrightarrow> printable (nat \<bar>n\<bar>)"
    and fields: "map_of (rev kvs) (lit ''payment_id'') = map_option JStr (cx_payment_id req)"
      "map_of (rev kvs) (lit ''payment_status'') = map_option (\<lambda>st. JStr (pay_status_name st)) (cx_payment_status req)"
      "map_of (rev kvs) (lit ''amount'') = map_option json_int (cx_amount req)"
      "map_of (rev kvs) (lit ''provider'') = map_option JStr (cx_provider req)"
      "map_of (rev kvs) (lit ''provider_ref'') = map_option JStr (cx_provider_ref req)"
  shows "validate_fields lib
      [optional ''payment_id'' FStr, optional ''payment_status'' CancelablePaymentStatus, optional ''amount'' FInt,
       optional ''provider'' FStr, optional ''provider_ref'' FStr] kvs = Some (cancel_fields req)"
proof -
  have texts: "\<forall>x. map_option JStr v = Some x \<longrightarrow> validate lib (FNullable FStr) x = Some x" for v
    by (auto simp: validate_nullable)
  have "validate lib (FNullable CancelablePaymentStatus) (JStr (pay_status_name st)) = Some (JStr (pay_status_name st))"
    if "cx_payment_status req = Some st" for st
    using assms(1) that by (cases st) (simp_all add: validate_nullable CancelablePaymentStatus_def)
  then have status: "\<forall>x. map_option (\<lambda>st. JStr (pay_status_name st)) (cx_payment_status req) = Some x \<longrightarrow>
      validate lib (FNullable CancelablePaymentStatus) x = Some x" by auto
  have amount: "\<forall>x. map_option json_int (cx_amount req) = Some x \<longrightarrow> validate lib (FNullable FInt) x = Some x"
    using assms(2) by (auto simp: validate_nullable validate_int_def json_int_def py_int_int_str)
  show ?thesis
    by (simp only: optional_field [OF fields(1) texts] optional_field [OF fields(2) status] optional_field [OF fields(3) amount]
        optional_field [OF fields(4) texts] optional_field [OF fields(5) texts]
        cancel_fields_def validate_fields.simps(1) option.map case_map_option comp_def)
qed

lemma cancel_body_read:
  assumes "cx_payment_status req \<noteq> Some SUCCEEDED" and "\<And>n. cx_amount req = Some n \<Longrightarrow> printable (nat \<bar>n\<bar>)"
  shows "validate lib CancelReservationRequest_model (cancel_body req) = Some (JObj (cancel_fields req))"
    and "cancel_payload (cancel_fields req) = req"
proof -
  obtain kvs where kvs: "cancel_body req = JObj kvs" by (simp add: cancel_body_def)
  have fields: "map_of (rev kvs) (lit ''payment_id'') = map_option JStr (cx_payment_id req)"
    "map_of (rev kvs) (lit ''payment_status'') = map_option (\<lambda>st. JStr (pay_status_name st)) (cx_payment_status req)"
    "map_of (rev kvs) (lit ''amount'') = map_option json_int (cx_amount req)"
    "map_of (rev kvs) (lit ''provider'') = map_option JStr (cx_provider req)"
    "map_of (rev kvs) (lit ''provider_ref'') = map_option JStr (cx_provider_ref req)"
    using kvs by (auto simp: cancel_body_def map_add_def split: option.split)
  have "list_all (\<lambda>kv. fst kv \<in> {lit ''payment_id'', lit ''payment_status'', lit ''amount'', lit ''provider'', lit ''provider_ref''}) kvs"
    using kvs by (auto simp: cancel_body_def given_def split: option.splits)
  then show "validate lib CancelReservationRequest_model (cancel_body req) = Some (JObj (cancel_fields req))"
    using cancel_fields_valid [OF assms fields, of lib]
    by (simp add: kvs CancelReservationRequest_model_def del: validate_fields.simps)
  have amount: "py_int (int_str n) = Some n" if "cx_amount req = Some n" for n
    using assms(2) [OF that] by (simp add: py_int_int_str)
  have "payload_some_int (cancel_fields req) ''amount'' = cx_amount req"
    using amount by (simp add: cancel_fields_def payload_some_int_def json_int_def split: option.split)
  moreover have "payload_some_text (cancel_fields req) ''payment_id'' = cx_payment_id req"
    "payload_some_text (cancel_fields req) ''provider'' = cx_provider req"
    "payload_some_text (cancel_fields req) ''provider_ref'' = cx_provider_ref req"
    by (simp_all add: cancel_fields_def payload_some_text_def split: option.split)
  ultimately show "cancel_payload (cancel_fields req) = req"
    by (simp add: cancel_payload_def cancel_status_read [OF assms(1)])
qed

lemma held_body_read:
  assumes "date_value (models app) (hr_expires_at req) = Some x" and "utc_text app x = hr_expires_at req"
  shows "\<exists>kvs. validate (models app) HeldReservationCreate_model (held_body req) = Some (JObj kvs) \<and> held_payload app kvs = req"
  using assms by (simp add: HeldReservationCreate_model_def held_body_def held_payload_def payload_text_def)

lemma reservation_fits:
  assumes "reservation_dated app v"
  shows "validate (models app) ReservationResponse (some_reservation v) = Some (reservation_answer (models app) (the v))"
  using assms validate_reservation by (auto simp: reservation_dated_def some_reservation_def)

subsection \<open>The calls\<close>

lemma seats_over_http:
  assumes "web_ok app deliver" and "url_safe i"
    and "\<forall>rows. fst (list_event_seats (t 0) i db) = Inr rows \<longrightarrow> (\<forall>seat\<in>set rows. seat_dated (models app) (fst seat))"
  shows "client_list_event_seats app deliver t i db =
    over_web app (\<lambda>rows. JArr (map (seat_answer (models app)) rows)) (list_event_seats (t 0) i db)"
proof -
  obtain r db1 where answer: "svc_answer app (FList SeatResponse) (\<lambda>rows. (200, JArr (map seat_dict rows))) (list_event_seats (t 0) i db) = (r, db1)"
    by fastforce
  then have "client_list_event_seats app deliver t i db = request_json (db_request (Inr r), db1)"
    by (simp add: client_list_event_seats_def db_send_def db_handle_def delivered [OF assms(1,2)] found_routes [OF assms(2)]
        db_endpoint_route_def route_list_event_seats_def)
  also have "\<dots> = over_web app (\<lambda>rows. JArr (map (seat_answer (models app)) rows)) (list_event_seats (t 0) i db)"
    using assms(1,3) seat_row_fits
    by (intro svc_answer_back [OF _ _ answer]) (auto simp: web_ok_def intro!: validate_list simp del: validate.simps)
  finally show ?thesis .
qed

lemma reservations_over_http:
  assumes "web_ok app deliver" and "url_safe i"
    and "\<forall>rows. fst (svc_list_user_reservations (t 0) i db) = Inr rows \<longrightarrow> (\<forall>r\<in>set rows. row_dated (models app) (fst r))"
  shows "client_list_user_reservations app deliver t i db =
    over_web app (\<lambda>rows. JArr (map (reservation_answer (models app)) rows)) (svc_list_user_reservations (t 0) i db)"
proof -
  obtain r db1 where answer: "svc_answer app (FList ReservationResponse) (\<lambda>rows. (200, JArr (map reservation_dict rows)))
      (svc_list_user_reservations (t 0) i db) = (r, db1)"
    by fastforce
  then have "client_list_user_reservations app deliver t i db = request_json (db_request (Inr r), db1)"
    by (simp add: client_list_user_reservations_def db_send_def db_handle_def delivered [OF assms(1,2)] found_routes [OF assms(2)]
        db_endpoint_route_def route_list_user_reservations_def)
  also have "\<dots> = over_web app (\<lambda>rows. JArr (map (reservation_answer (models app)) rows)) (svc_list_user_reservations (t 0) i db)"
    using assms(1,3) validate_reservation
    by (intro svc_answer_back [OF _ _ answer]) (auto simp: web_ok_def intro!: validate_list simp del: validate.simps)
  finally show ?thesis .
qed

text \<open>The workflows on one reservation.\<close>

lemma workflow_back:
  assumes "web_ok app deliver" and "\<forall>v. fst outcome = Inr v \<longrightarrow> reservation_dated app v"
    and "svc_answer app ReservationResponse (\<lambda>v. (200, some_reservation v)) outcome = (r, db1)"
  shows "request_json (db_request (Inr r), db1) = over_web app (\<lambda>v. reservation_answer (models app) (the v)) outcome"
  using assms reservation_fits by (intro svc_answer_back [OF _ _ assms(3)]) (auto simp: web_ok_def)

lemma confirm_over_http:
  assumes "web_ok app deliver" and "url_safe i" and "printable (nat \<bar>cr_amount payment\<bar>)"
    and "\<forall>v. fst (svc_confirm (t 0) (t 1) i payment db) = Inr v \<longrightarrow> reservation_dated app v"
  shows "client_confirm app deliver t i payment db =
    over_web app (\<lambda>v. reservation_answer (models app) (the v)) (svc_confirm (t 0) (t 1) i payment db)"
proof -
  obtain kvs where kvs: "confirm_body payment = JObj kvs" by (simp add: confirm_body_def)
  note body = confirm_body_read [OF assms(3) kvs]
  obtain r db1 where answer: "svc_answer app ReservationResponse (\<lambda>v. (200, some_reservation v))
      (svc_confirm (t 0) (t 1) i payment db) = (r, db1)"
    by fastforce
  then have "client_confirm app deliver t i payment db = request_json (db_request (Inr r), db1)"
    using body kvs
    by (simp add: client_confirm_def db_send_def db_handle_def delivered [OF assms(1,2)] found_routes [OF assms(2)]
        db_endpoint_route_def route_confirm_def with_body_def)
  then show ?thesis using workflow_back [OF assms(1,4) answer] by simp
qed

lemma cancel_over_http:
  assumes "web_ok app deliver" and "url_safe i" and "cx_payment_status req \<noteq> Some SUCCEEDED"
    and "\<And>n. cx_amount req = Some n \<Longrightarrow> printable (nat \<bar>n\<bar>)"
    and "\<forall>v. fst (svc_cancel (t 0) (t 1) i req db) = Inr v \<longrightarrow> reservation_dated app v"
  shows "client_cancel app deliver t i req db =
    over_web app (\<lambda>v. reservation_answer (models app) (the v)) (svc_cancel (t 0) (t 1) i req db)"
proof -
  note body = cancel_body_read [OF assms(3,4)]
  obtain r db1 where answer: "svc_answer app ReservationResponse (\<lambda>v. (200, some_reservation v))
      (svc_cancel (t 0) (t 1) i req db) = (r, db1)"
    by fastforce
  then have "client_cancel app deliver t i req db = request_json (db_request (Inr r), db1)"
    using body
    by (simp add: client_cancel_def db_send_def db_handle_def delivered [OF assms(1,2)] found_routes [OF assms(2)]
        db_endpoint_route_def route_cancel_def with_body_def del: validate.simps)
  then show ?thesis using workflow_back [OF assms(1,5) answer] by simp
qed

lemma expire_over_http:
  assumes "web_ok app deliver" and "url_safe i"
    and "\<forall>v. fst (svc_expire (t 0) (t 1) i db) = Inr v \<longrightarrow> reservation_dated app v"
  shows "client_expire app deliver t i db =
    over_web app (\<lambda>v. reservation_answer (models app) (the v)) (svc_expire (t 0) (t 1) i db)"
proof -
  obtain r db1 where answer: "svc_answer app ReservationResponse (\<lambda>v. (200, some_reservation v)) (svc_expire (t 0) (t 1) i db) = (r, db1)"
    by fastforce
  then have "client_expire app deliver t i db = request_json (db_request (Inr r), db1)"
    by (simp add: client_expire_def db_send_def db_handle_def delivered [OF assms(1,2)] found_routes [OF assms(2)]
        db_endpoint_route_def route_expire_def)
  then show ?thesis using workflow_back [OF assms(1,3) answer] by simp
qed

lemma create_over_http:
  assumes "web_ok app deliver" and "date_value (models app) (hr_expires_at hold) = Some x" and "utc_text app x = hr_expires_at hold"
    and "\<forall>r. fst (svc_create_held (t 0) (t 1) (t 2) hold db) = Inr r \<longrightarrow> reservation_dated app (fst r)"
  shows "client_create_held app deliver t hold db =
    over_web app (\<lambda>r. (reservation_answer (models app) (the (fst r)), snd r)) (svc_create_held (t 0) (t 1) (t 2) hold db)"
proof -
  obtain kvs where body: "validate (models app) HeldReservationCreate_model (held_body hold) = Some (JObj kvs)" "held_payload app kvs = hold"
    using held_body_read [OF assms(2,3)] by blast
  have safe: "url_safe [97]" by (simp add: url_safe_def)
  let ?f = "\<lambda>(v, created). (if created then 201 else 200, some_reservation v)"
  obtain res db1 where out: "svc_create_held (t 0) (t 1) (t 2) hold db = (res, db1)" by fastforce
  have sent: "db_send app deliver t Http_POST (lit ''/reservations/held'') (Some (held_body hold)) db =
      (case svc_answer app ReservationResponse ?f (res, db1) of (r, db2) \<Rightarrow> (db_request (Inr r), db2))"
    using body out
    by (simp add: db_send_def db_handle_def delivered(4) [OF assms(1) safe] found_routes(3) [OF safe]
        db_endpoint_route_def route_create_held_def with_body_def del: validate.simps)
  show ?thesis
  proof (cases res)
    case (Inl e)
    then show ?thesis
      using sent out assms(1) service_error_back [of "framework app" e]
      by (simp add: client_create_held_def svc_answer_def over_web_def web_ok_def)
  next
    case (Inr r)
    obtain v created where r: "r = (v, created)" by (cases r)
    have "reservation_dated app v" using assms(4) out Inr r by simp
    note fits = answer_back [OF reservation_fits [OF this], of "if created then 201 else 200"]
    show ?thesis
      using sent out Inr r fits by (cases created) (simp_all add: client_create_held_def svc_answer_def over_web_def)
  qed
qed

subsection \<open>The property\<close>


text \<open>A hold under an identifier that needs no escaping, and a library that takes every text for a date.\<close>

definition web_db :: TicketingDb where
  "web_db = small_db\<lparr>reservations := [held_row [10] (small_hold [52] [5] [20])]\<rparr>"

definition plain_page :: "nat \<Rightarrow> http_response" where
  "plain_page code = \<lparr>status_code = code, resp_text = [], resp_json = None\<rparr>"

definition plain_web :: web_app where
  "plain_web =
     \<lparr>framework = \<lparr>render_json = (\<lambda>_. []), unhandled_response = plain_page 500\<rparr>,
      models = \<lparr>lax_value = (\<lambda>_ _. None), date_value = Some\<rparr>, no_route = (\<lambda>_. plain_page 404),
      invalid_request = plain_page 422, utc_text = (\<lambda>t. t)\<rparr>"

lemma plain_web_ok: "web_ok plain_web (\<lambda>p. p)"
  by (simp add: web_ok_def plain_web_def plain_page_def)

lemma plain_dated [simp]:
  "reservation_dated plain_web v \<longleftrightarrow> v \<noteq> None" "seat_dated (models plain_web) row" "row_dated (models plain_web) r"
  by (auto simp: reservation_dated_def row_dated_def seat_dated_def some_date_def plain_web_def split: option.split)

definition found :: "svc_error + 'a option \<Rightarrow> bool" where
  "found r = (case r of Inl _ \<Rightarrow> True | Inr v \<Rightarrow> v \<noteq> None)"

lemma web_db_found:
  "found (fst (svc_confirm [11] [11] [52] small_payment web_db))"
  "found (fst (svc_cancel [11] [11] [52] no_payment web_db))"
  "found (fst (svc_expire [11] [11] [52] web_db))"
  "found (map_sum id fst (fst (svc_create_held [11] [11] [11] (small_hold [53] [6] [20]) web_db)))"
  by code_simp+


end
