(* ===== verification/App_Properties.thy ===== *)
theory App_Properties
  imports App_Api Http_Properties
begin

section \<open>Properties of the HTTP interface of the application server\<close>

text \<open>
  Every result of the service fits the response model of its route, except for texts that are no
  dates; a request that does not fit its model changes nothing; the listing of the log is bounded.
\<close>

subsection \<open>Dates\<close>

text \<open>The texts at the places where a model has a date are dates.\<close>

fun dated :: "model_library \<Rightarrow> field_type \<Rightarrow> json \<Rightarrow> bool" where
  "dated lib FDate v = (case v of JStr t \<Rightarrow> date_value lib t \<noteq> None | _ \<Rightarrow> True)"
| "dated lib (FNullable f) v = (v = JNull \<or> dated lib f v)"
| "dated lib (FList f) v = (case v of JArr vs \<Rightarrow> list_all (dated lib f) vs | _ \<Rightarrow> True)"
| "dated lib (FModel fs) v =
     (case v of
        JObj kvs \<Rightarrow> list_all (\<lambda>(name, f, _). case map_of (rev kvs) name of None \<Rightarrow> True | Some x \<Rightarrow> dated lib f x) fs
      | _ \<Rightarrow> True)"
| "dated lib _ v = True"

lemma date_accepted: "date_value lib t = Some x \<Longrightarrow> validate lib FDate (JStr t) = Some (JStr x)"
  by simp

definition accepts :: "model_library \<Rightarrow> field_type \<Rightarrow> json \<Rightarrow> bool" where
  "accepts lib f v \<longleftrightarrow> validate lib f v \<noteq> None"

lemma accepts_simps [simp]:
  "accepts lib FStr (JStr t)" "accepts lib FInt (json_int n)" "accepts lib FBool (JBool b)"
  "accepts lib (FLiteral ts) (JStr t) = (t \<in> set ts)"
  "accepts lib FDate (JStr t) = (date_value lib t \<noteq> None)"
  "accepts lib (FNullable f) JNull" "accepts lib (FNullable f) (JStr t) = accepts lib f (JStr t)"
  "accepts lib (FNullable f) (json_int n) = accepts lib f (json_int n)"
  by (simp_all add: accepts_def validate_int_def json_int_def validate_nullable)

lemma accepts_some_text [simp]: "accepts lib (FNullable FStr) (json_text t)"
  by (cases t) (simp_all add: json_text_def)

definition field_accepted :: "model_library \<Rightarrow> (ustr \<times> json) list \<Rightarrow> ustr \<times> field_type \<times> json option \<Rightarrow> bool" where
  "field_accepted lib kvs field =
     (case map_of (rev kvs) (fst field) of None \<Rightarrow> snd (snd field) \<noteq> None | Some v \<Rightarrow> accepts lib (fst (snd field)) v)"

lemma accepts_field: "validate_fields lib (field # fs) kvs \<noteq> None \<longleftrightarrow> field_accepted lib kvs field \<and> validate_fields lib fs kvs \<noteq> None"
  by (cases field) (auto simp: field_accepted_def accepts_def split: option.split)

lemma accepts_fields: "validate_fields lib fs kvs \<noteq> None \<longleftrightarrow> list_all (field_accepted lib kvs) fs"
  by (induction fs) (simp_all only: accepts_field list.pred_inject, simp)

lemma accepts_model: "accepts lib (FModel fs) (JObj kvs) \<longleftrightarrow>
    list_all (\<lambda>kv. fst kv \<in> set (map fst fs)) kvs \<and> list_all (field_accepted lib kvs) fs"
  using accepts_fields [of lib fs kvs] by (simp add: accepts_def)

lemma those_None: "those (map f xs) \<noteq> None \<longleftrightarrow> (\<forall>x\<in>set xs. f x \<noteq> None)"
  by (induction xs) (auto split: option.splits)

lemma accepts_list: "accepts lib (FList f) (JArr vs) \<longleftrightarrow> list_all (accepts lib f) vs"
  using those_None [of "validate lib f" vs] by (auto simp: accepts_def list_all_iff)

lemmas model_rules = accepts_model field_accepted_def

subsection \<open>Results fit\<close>

lemma event_fits: "dated lib EventResponse (event_dict r) \<Longrightarrow> accepts lib EventResponse (event_dict r)"
  by (simp add: EventResponse_def event_dict_def model_rules)

lemma reservation_fits_model: "dated lib ReservationResponse (reservation_dict v) \<Longrightarrow> accepts lib ReservationResponse (reservation_dict v)"
proof -
  have st: "accepts lib ReservationStatus (JStr (status_name x))" for x by (simp add: accepts_def status_literal)
  have pay: "accepts lib PaymentStatus (JStr (pay_status_name x))" for x by (simp add: accepts_def payment_literal)
  have date: "accepts lib (FNullable FDate) (json_text t) = some_date lib t" for t
    by (cases t) (simp_all add: json_text_def some_date_def)
  have date': "dated lib (FNullable FDate) (json_text t) = some_date lib t" for t
    by (cases t) (simp_all add: json_text_def some_date_def)
  assume "dated lib ReservationResponse (reservation_dict v)"
  then show ?thesis
    by (cases "snd v") (simp_all add: ReservationResponse_def reservation_dict_def payment_fields_def Let_def model_rules st pay
        date date' del: dated.simps(2))
qed

definition view_status_ok :: "SeatView \<Rightarrow> bool" where
  "view_status_ok v \<longleftrightarrow> view_status v \<in> {lit ''AVAILABLE'', lit ''HELD'', lit ''CONFIRMED''}"

lemma seat_view_status_ok: "view_status_ok (seat_view seat status)"
  by (simp add: view_status_ok_def seat_view_def)

lemma view_fits:
  assumes "view_status_ok v" and "dated lib SeatViewResponse (seat_view_dict v)"
  shows "accepts lib SeatViewResponse (seat_view_dict v)"
  using assms
  by (cases "view_hold_ttl v") (auto simp: SeatViewResponse_def seat_view_dict_def seat_fields_def model_rules
      TicketingSeatStatus_def view_status_ok_def)

lemma payment_fits: "accepts lib MockPaymentResponse (payment_dict p)"
  by (simp add: MockPaymentResponse_def payment_dict_def model_rules)

lemma log_entry_fits: "dated lib OrchestrationLogEntryResponse (log_entry_dict r) \<Longrightarrow> accepts lib OrchestrationLogEntryResponse (log_entry_dict r)"
  by (simp add: OrchestrationLogEntryResponse_def log_entry_dict_def model_rules)

lemma queue_fits:
  "accepts lib QueueJoinResponse (queue_join_dict j)" "accepts lib QueuePositionResponse (queue_position_dict p)"
  "accepts lib QueueLeaveResponse (queue_leave_dict l)" "accepts lib QueueFrontResponse (queue_front_dict f)"
  by (simp_all add: QueueJoinResponse_def queue_join_dict_def QueuePositionResponse_def queue_position_dict_def
      QueueLeaveResponse_def queue_leave_dict_def QueueFrontResponse_def queue_front_dict_def model_rules)

subsection \<open>Seat views in results\<close>

lemma bind_Inr: "act_bind m f s = (Inr x, s') \<longleftrightarrow> (\<exists>y s1. m s = (Inr y, s1) \<and> f y s1 = (Inr x, s'))"
  by (auto simp: act_bind_def split: prod.splits sum.splits)

lemma map_Inr: "act_map f m s = (Inr x, s') \<longleftrightarrow> (\<exists>y. m s = (Inr y, s') \<and> x = f y)"
  by (auto simp: act_map_def bind_Inr act_return_def)

lemma get_seat_ok: "get_event_seat env e i s = (Inr v, s') \<Longrightarrow> view_status_ok v"
  by (auto simp: get_event_seat_def bind_Inr act_return_def seat_view_status_ok)

lemma seat_views_ok: "seat_views env e all s = (Inr vs, s') \<Longrightarrow> list_all view_status_ok vs"
  by (induction all arbitrary: s vs) (fastforce simp: bind_Inr act_return_def seat_view_status_ok)+

lemma hold_ok: "hold_reservation env e i u n s = (Inr r, s') \<Longrightarrow> view_status_ok (hold_seat r)"
  by (auto simp: hold_reservation_def Let_def bind_Inr act_return_def act_raise_def split: if_splits option.splits dest!: get_seat_ok)

lemma confirm_ok: "app_confirm_reservation env i e st u s = (Inr r, s') \<Longrightarrow> view_status_ok (confirm_seat_view r)"
  by (auto simp: app_confirm_reservation_def Let_def bind_Inr act_return_def act_raise_def split: if_splits dest!: get_seat_ok)

lemma cancel_ok: "app_cancel_reservation env i e st u s = (Inr r, s') \<Longrightarrow> view_status_ok (snd r)"
  by (auto simp: app_cancel_reservation_def Let_def bind_Inr act_return_def dest!: get_seat_ok)

lemma try_raise_Inr: "act_try m (\<lambda>e. act_bind (n e) (\<lambda>_. act_raise e)) s = (Inr x, s') \<longleftrightarrow> m s = (Inr x, s')"
  by (auto simp: act_try_def act_bind_def act_raise_def split: prod.splits sum.splits)

lemma purchase_ok: "purchase_seat env e st u n s = (Inr r, s') \<Longrightarrow> view_status_ok (confirm_seat_view (fst r))"
  by (auto simp: purchase_seat_def Let_def bind_Inr act_return_def try_raise_Inr dest!: confirm_ok)

subsection \<open>Every answer fits\<close>

lemma list_fits:
  assumes "\<And>x. x \<in> set xs \<Longrightarrow> dated lib f (d x) \<Longrightarrow> accepts lib f (d x)" and "dated lib (FList f) (JArr (map d xs))"
  shows "accepts lib (FList f) (JArr (map d xs))"
  using assms by (simp add: accepts_list list_all_iff)

lemma views_fit:
  "list_all view_status_ok vs \<Longrightarrow> dated lib (FList SeatViewResponse) (JArr (map seat_view_dict vs)) \<Longrightarrow>
     accepts lib (FList SeatViewResponse) (JArr (map seat_view_dict vs))"
  by (rule list_fits) (simp_all add: view_fits list_all_iff)

lemma hold_fits:
  assumes "view_status_ok (hold_seat r)" and "dated lib HoldReservationResponse (hold_dict r)"
  shows "accepts lib HoldReservationResponse (hold_dict r)"
  using assms reservation_fits_model view_fits by (simp add: HoldReservationResponse_def hold_dict_def model_rules)

lemma confirm_fits:
  assumes "view_status_ok (confirm_seat_view r)" and "dated lib ConfirmReservationResponse (JObj (confirm_fields r))"
  shows "accepts lib ConfirmReservationResponse (JObj (confirm_fields r))"
  using assms reservation_fits_model view_fits payment_fits
  by (simp add: ConfirmReservationResponse_def confirm_fields_def model_rules)

lemma purchase_fits:
  assumes "view_status_ok (confirm_seat_view r)"
    and "dated lib PurchaseReservationResponse (JObj (confirm_fields r @ [(lit ''created'', JBool b)]))"
  shows "accepts lib PurchaseReservationResponse (JObj (confirm_fields r @ [(lit ''created'', JBool b)]))"
  using assms reservation_fits_model view_fits payment_fits
  by (simp add: PurchaseReservationResponse_def confirm_fields_def model_rules)

lemma cancel_fits:
  assumes "view_status_ok view"
    and "dated lib CancelReservationResponse (JObj [(lit ''reservation'', reservation_dict v), (lit ''seat'', seat_view_dict view)])"
  shows "accepts lib CancelReservationResponse (JObj [(lit ''reservation'', reservation_dict v), (lit ''seat'', seat_view_dict view)])"
  using assms reservation_fits_model view_fits by (simp add: CancelReservationResponse_def model_rules)

lemma action_fits:
  assumes "app_action env e args kvs limit s = (Inr (code, v), s')" and "response_model e = Some m" and "dated lib m v"
  shows "accepts lib m v"
proof (cases e)
  case ListEvents
  then show ?thesis
    using assms event_fits by (auto simp: app_action_def Let_def map_Inr response_model_def simp del: dated.simps intro!: list_fits)
next
  case ListEventSeats
  then show ?thesis
    using assms by (auto simp: app_action_def Let_def map_Inr response_model_def app_list_event_seats_def bind_Inr
        simp del: dated.simps intro!: views_fit dest!: seat_views_ok)
next
  case GetEventSeat
  then show ?thesis
    using assms by (auto simp: app_action_def Let_def map_Inr response_model_def simp del: dated.simps intro!: view_fits dest!: get_seat_ok)
next
  case ListUserReservations
  then show ?thesis
    using assms reservation_fits_model
    by (auto simp: app_action_def Let_def map_Inr response_model_def simp del: dated.simps intro!: list_fits)
next
  case ListLogs
  then show ?thesis
    using assms log_entry_fits by (auto simp: app_action_def Let_def map_Inr response_model_def simp del: dated.simps intro!: list_fits)
next
  case HoldSeat
  then show ?thesis
    using assms by (auto simp: app_action_def Let_def map_Inr response_model_def simp del: dated.simps intro!: hold_fits dest!: hold_ok)
next
  case ConfirmSeat
  then show ?thesis
    using assms by (auto simp: app_action_def Let_def map_Inr response_model_def simp del: dated.simps intro!: confirm_fits dest!: confirm_ok)
next
  case CancelSeat
  then show ?thesis
    using assms by (auto simp: app_action_def Let_def map_Inr response_model_def simp del: dated.simps intro!: cancel_fits dest!: cancel_ok)
next
  case PurchaseSeat
  then show ?thesis
    using assms by (auto simp: app_action_def Let_def map_Inr response_model_def simp del: dated.simps intro!: purchase_fits dest!: purchase_ok)
qed (use assms in \<open>auto simp: app_action_def Let_def map_Inr response_model_def queue_fits\<close>)

subsection \<open>The properties\<close>

text \<open>
  Claim C35: the answers of the application server fit their response models. Whatever the two
  clients answer, when the action of a route succeeds and the dates in its result are dates, the
  route answers with its status and with the result as its model renders it: no missing field, no
  unknown field, no state of a seat, reservation or payment outside the declared literals turns a
  success into a server error.
\<close>

theorem answers_fit_their_models:
  assumes "app_action env e args kvs limit s = (Inr (code, v), s')"
    and "\<forall>m. response_model e = Some m \<longrightarrow> dated (models app) m v"
  shows "snd (app_endpoint_answer app env e args kvs limit s) = s' \<and>
    status_code (fst (app_endpoint_answer app env e args kvs limit s)) = code \<and> code \<in> {200, 201, 204} \<and>
    (\<forall>m. response_model e = Some m \<longrightarrow>
      (\<exists>b. validate (models app) m v = Some b \<and> resp_json (fst (app_endpoint_answer app env e args kvs limit s)) = Some b))"
proof -
  have code: "code \<in> {200, 201, 204}"
    using assms(1) by (cases e) (auto simp: app_action_def Let_def map_Inr split: if_splits)
  have answer: "app_endpoint_answer app env e args kvs limit s = (app_answer app (response_model e) (code, v), s')"
    by (simp add: app_endpoint_answer_def assms(1))
  show ?thesis
  proof (cases "response_model e")
    case None
    then show ?thesis using code answer by (simp add: app_answer_def)
  next
    case (Some m)
    then obtain b where "validate (models app) m v = Some b"
      using action_fits [OF assms(1) Some] assms(2) by (auto simp: accepts_def)
    then show ?thesis using code answer Some by (simp add: app_answer_def json_answer_def)
  qed
qed

definition small_log :: "OrchestrationLogEntry list" where
  "small_log =
     [\<lparr>log_timestamp = [10], log_source = lit ''APP'', log_target = lit ''DB'', log_action = lit ''CREATE_HELD'',
       log_status = lit ''START'', log_event_id = Some [1], log_seat_id = None, log_user_id = None, log_detail = None\<rparr>]"

theorem answers_fit_their_models_witness:
  "\<forall>env :: unit app_env.
     status_code (fst (app_endpoint_answer plain_web env ListLogs [] [] 500 \<lparr>app_world = (), app_log = small_log, app_ticks = 0\<rparr>)) = 200"
proof
  fix env :: "unit app_env"
  let ?s = "\<lparr>app_world = (), app_log = small_log, app_ticks = 0\<rparr>"
  have "app_action env ListLogs [] [] 500 ?s = (Inr (200, JArr (map log_entry_dict small_log)), ?s)"
    by (simp add: app_action_def Let_def map_Inr list_orchestration_logs_def bounded_limit_def log_list_entries_def small_log_def
        act_map_def act_bind_def act_return_def)
  from answers_fit_their_models [OF this, where app = plain_web]
  show "status_code (fst (app_endpoint_answer plain_web env ListLogs [] [] 500 ?s)) = 200"
    by (simp add: response_model_def plain_web_def small_log_def OrchestrationLogEntryResponse_def log_entry_dict_def)
qed

lemma positive_payload:
  assumes "validate_fields lib [required ''event_id'' FStr, required ''seat_id'' FStr, required ''user_id'' FStr,
      (lit ''hold_seconds'', FPositive, Some (json_int 30))] kvs = Some kvs'"
  shows "0 < payload_int kvs' ''hold_seconds''"
proof -
  have preset: "positive_int (json_int 30)"
    using py_int_int_str [of 30] printable_small [of 30] by (simp add: positive_int_def json_int_def)
  obtain e st u n where kvs': "kvs' = [(lit ''event_id'', e), (lit ''seat_id'', st), (lit ''user_id'', u), (lit ''hold_seconds'', n)]"
    and n: "positive_int n"
    using assms preset by (auto split: option.splits if_splits)
  then show ?thesis by (auto simp: payload_int_def payload_some_int_def positive_int_def split: json.splits option.splits)
qed

text \<open>
  A hold lasts for a positive number of seconds. A request to hold or to purchase a seat
  for a number of seconds that is not positive is answered as invalid without any effect, and every
  body that is accepted, the default included, gives the service a positive number.
\<close>

lemma hold_seconds_are_positive:
  assumes "req_method req = Http_POST" and "req_path req = lit ''/reservations/hold'' \<or> req_path req = lit ''/reservations/purchase''"
    and "req_body req = Some (JObj kvs)" and "map_of (rev kvs) (lit ''hold_seconds'') = Some (json_int n)"
    and "n \<le> 0" and "printable (nat \<bar>n\<bar>)"
  shows "app_handle app env req s = (invalid_request app, s) \<and>
    (\<forall>v kvs'. validate (models app) HoldReservationRequest v = Some (JObj kvs') \<or>
       validate (models app) PurchaseReservationRequest v = Some (JObj kvs') \<longrightarrow> 0 < payload_int kvs' ''hold_seconds'')"
proof -
  have "\<not> positive_int (json_int n)" using py_int_int_str [OF assms(6)] assms(5) by (simp add: positive_int_def json_int_def)
  then have refused: "validate (models app) FPositive (json_int n) = None" by (simp add: validate_int_def json_int_def)
  then have "validate (models app) HoldReservationRequest (JObj kvs) = None" "validate (models app) PurchaseReservationRequest (JObj kvs) = None"
    using assms(4) by (auto simp: HoldReservationRequest_def PurchaseReservationRequest_def split: option.splits)
  moreover have "find_route app_routes Http_POST (split_path (lit ''/reservations/hold'')) = Some (HoldSeat, [])"
    "find_route app_routes Http_POST (split_path (lit ''/reservations/purchase'')) = Some (PurchaseSeat, [])"
    by code_simp+
  ultimately have "app_handle app env req s = (invalid_request app, s)"
    using assms(1-3) by (auto simp: app_handle_def request_model_def with_body_def)
  moreover have "0 < payload_int kvs' ''hold_seconds''"
    if "validate (models app) HoldReservationRequest v = Some (JObj kvs') \<or> validate (models app) PurchaseReservationRequest v = Some (JObj kvs')"
    for v kvs'
    using that positive_payload [of "models app" _ kvs']
    by (auto simp: HoldReservationRequest_def PurchaseReservationRequest_def simp del: validate_fields.simps
        split: json.splits if_splits)
  ultimately show ?thesis by blast
qed

end
