(* ===== verification/Timestamps.thy ===== *)
theory Timestamps
  imports App_Service
begin

section \<open>Timestamps of the database (\<open>ticketing_api/service.py\<close>)\<close>

text \<open>
  The service stores and compares times as texts. A request brings a \<open>datetime\<close> with any offset,
  which \<open>normalize_timestamp\<close> turns into the text of the same moment in UTC;
  \<open>current_timestamp\<close> is the text of a reading of the clock. The workflows of
  \<open>Ticketing_Service\<close> take both texts as arguments.
\<close>

text \<open>None: \<open>astimezone\<close> raises \<open>OverflowError\<close>, the moment is outside of the calendar in UTC.\<close>

definition normalize_timestamp :: "datetime \<Rightarrow> ustr option" where
  "normalize_timestamp value =
     (let aware = (if dt_offset value = None then value\<lparr>dt_offset := Some 0\<rparr> else value)
      in map_option isoformat (astimezone_utc aware))"

definition current_timestamp :: "datetime \<Rightarrow> ustr" where
  "current_timestamp now = isoformat now"

text \<open>What \<open>datetime.now(timezone.utc)\<close> returns.\<close>

definition utc_time :: "datetime \<Rightarrow> bool" where
  "utc_time t \<longleftrightarrow> valid_datetime t \<and> dt_offset t = Some 0"

lemma utc_instant: "utc_time t \<Longrightarrow> instant t = field_micros t"
  by (simp add: utc_time_def instant_def)

lemma utc_text_less: "utc_time t \<Longrightarrow> utc_time t' \<Longrightarrow> isoformat t < isoformat t' \<longleftrightarrow> instant t < instant t'"
  by (simp add: utc_instant isoformat_less utc_time_def)

lemma utc_text_eq: "utc_time t \<Longrightarrow> utc_time t' \<Longrightarrow> isoformat t = isoformat t' \<longleftrightarrow> instant t = instant t'"
  using utc_text_less [of t t'] utc_text_less [of t' t] by (metis less_irrefl linorder_neqE)

lemma utc_text_le: "utc_time t \<Longrightarrow> utc_time t' \<Longrightarrow> isoformat t \<le> isoformat t' \<longleftrightarrow> instant t \<le> instant t'"
  using utc_text_less [of t' t] by (metis not_less)

lemma utc_at: "datetime_at (Some 0) micros = Some t \<Longrightarrow> utc_time t \<and> instant t = micros"
  using datetime_at_ok [of "Some 0" micros t] by (simp add: utc_time_def instant_def day_micros_def)

lemma normalize_at: "normalize_timestamp d = map_option isoformat (datetime_at (Some 0) (instant d))"
  by (simp add: normalize_timestamp_def astimezone_utc_def instant_def field_micros_def split: option.split)

text \<open>The normalised text is the text of a time in UTC, of the same moment.\<close>

lemma normalize_utc:
  assumes "normalize_timestamp d = Some x"
  obtains t where "utc_time t" and "instant t = instant d" and "x = isoformat t"
  using assms utc_at by (auto simp: normalize_at)

text \<open>Normalising keeps a text that is in UTC already.\<close>

lemma normalize_keeps_utc: "utc_time t \<Longrightarrow> normalize_timestamp t = Some (isoformat t)"
  using datetime_at_field_micros [of t] by (simp add: normalize_at utc_instant) (simp add: utc_time_def)

text \<open>The deadline of a hold.\<close>

lemma deadline_utc:
  assumes "utc_time (now_provider app n)" and "hold_deadline app n h = Some x"
  obtains t where "utc_time t" and "instant t = instant (now_provider app n) + h * 1000000" and "x = isoformat t"
proof -
  obtain t where t: "datetime_at (Some 0) (field_micros (now_provider app n) + h * 1000000) = Some t" "x = isoformat t"
    using assms by (auto simp: hold_deadline_def add_seconds_def utc_time_def)
  from that [of t] utc_at [OF t(1)] t(2) show ?thesis using utc_instant [OF assms(1)] by simp
qed

lemma deadline_None:
  assumes "utc_time (now_provider app n)"
  shows "hold_deadline app n h = None \<longleftrightarrow>
    instant (now_provider app n) + h * 1000000 < day_micros \<or>
    (max_ordinal + 1) * day_micros \<le> instant (now_provider app n) + h * 1000000"
  using assms by (simp add: hold_deadline_def add_seconds_def datetime_at_None utc_instant)

text \<open>The moment at which the calendar of \<open>datetime\<close> ends.\<close>

definition end_of_time :: int where
  "end_of_time = (max_ordinal + 1) * day_micros"

lemma utc_positive: "utc_time t \<Longrightarrow> day_micros \<le> instant t"
  using valid_moment(1) [of t] by (simp add: utc_instant) (simp add: utc_time_def)

end
