(* ===== verification/Time_Properties.thy ===== *)
theory Time_Properties
  imports Timestamps
begin

section \<open>Properties of times\<close>

text \<open>
  The database compares timestamps as texts; these properties show that this compares moments,
  and that a hold is swept exactly when its seconds have passed.
\<close>

text \<open>
  Claim C37: the texts of the database are in the order of time. For any two valid times, with
  whatever offsets or none, \<open>normalize_timestamp\<close> gives texts that compare as the moments do, in
  the order that SQLite uses for texts; equal texts are equal moments. It fails only for moments
  that are outside of the calendar in UTC.
\<close>

theorem timestamps_sort_by_time:
  assumes "normalize_timestamp d = Some x" and "normalize_timestamp d' = Some x'"
  shows "(x < x' \<longleftrightarrow> instant d < instant d') \<and> (x = x' \<longleftrightarrow> instant d = instant d') \<and>
    (\<forall>v. normalize_timestamp v = None \<longleftrightarrow> instant v < day_micros \<or> end_of_time \<le> instant v)"
proof -
  obtain t where t: "utc_time t" "instant t = instant d" "x = isoformat t" by (rule normalize_utc [OF assms(1)])
  obtain t' where t': "utc_time t'" "instant t' = instant d'" "x' = isoformat t'" by (rule normalize_utc [OF assms(2)])
  show ?thesis
    unfolding t(3) t'(3) utc_text_less [OF t(1) t'(1)] utc_text_eq [OF t(1) t'(1)]
    by (simp add: t(2) t'(2) normalize_at datetime_at_None end_of_time_def)
qed

definition seoul :: datetime where
  "seoul = \<lparr>dt_year = 2026, dt_month = 3, dt_day = 18, dt_hour = 8, dt_minute = 59, dt_second = 59, dt_micro = 999999,
     dt_offset = Some 32400000000\<rparr>"

definition midnight :: datetime where
  "midnight = \<lparr>dt_year = 2026, dt_month = 3, dt_day = 18, dt_hour = 0, dt_minute = 0, dt_second = 0, dt_micro = 0, dt_offset = None\<rparr>"

lemma sample_moments: "instant seoul = 63909475199999999" "instant midnight = 63909475200000000"
  by (simp_all add: instant_def seoul_def midnight_def moment_eval)

lemma sample_texts: "normalize_timestamp seoul \<noteq> None" "normalize_timestamp midnight \<noteq> None"
  by (simp_all add: normalize_at datetime_at_None sample_moments max_ordinal_def day_micros_def del: not_None_eq)

theorem timestamps_sort_by_time_witness:
  "\<exists>x y. normalize_timestamp seoul = Some x \<and> normalize_timestamp midnight = Some y \<and> x < y"
proof -
  obtain x y where xy: "normalize_timestamp seoul = Some x" "normalize_timestamp midnight = Some y"
    using sample_texts by blast
  from timestamps_sort_by_time [OF xy] have "x < y" by (simp add: sample_moments)
  then show ?thesis using xy by blast
qed

text \<open>
  Claim C36: a hold lasts its seconds. A reservation that is held with the deadline that the
  application server computes from a reading of its clock survives a sweep of the database at a
  later reading exactly if fewer than the requested seconds lie between the two readings. The
  deadline fails to exist only beyond the end of the calendar.
\<close>

theorem hold_lasts_its_seconds:
  assumes "utc_time (now_provider app n)" and "utc_time now" and "0 \<le> h"
    and "r \<in> set (reservations db)" and "res_status r = HELD" and "res_expires_at r = hold_deadline app n h"
  shows "(hold_deadline app n h = None \<longleftrightarrow> end_of_time \<le> instant (now_provider app n) + h * 1000000) \<and>
    (hold_deadline app n h \<noteq> None \<longrightarrow>
      (r \<in> set (reservations (svc_expire_stale (current_timestamp now) db)) \<longleftrightarrow>
       instant now - instant (now_provider app n) < h * 1000000))"
proof (intro conjI impI)
  show "hold_deadline app n h = None \<longleftrightarrow> end_of_time \<le> instant (now_provider app n) + h * 1000000"
    using utc_positive [OF assms(1)] assms(3) by (auto simp: deadline_None [OF assms(1)] end_of_time_def)
  assume "hold_deadline app n h \<noteq> None"
  then obtain x where x: "hold_deadline app n h = Some x" by blast
  obtain t where t: "utc_time t" "instant t = instant (now_provider app n) + h * 1000000" "x = isoformat t"
    by (rule deadline_utc [OF assms(1) x])
  have stale: "is_stale (current_timestamp now) r \<longleftrightarrow> instant t \<le> instant now"
    using utc_text_le [OF t(1) assms(2)] by (simp add: is_stale_def assms(5,6) x t(3) current_timestamp_def)
  have "r \<in> set (reservations (svc_expire_stale (current_timestamp now) db)) \<longleftrightarrow> \<not> is_stale (current_timestamp now) r"
    using assms(4,5) by (auto simp: svc_expire_stale_def repo_expire_stale_def image_iff expire_row_def)
  then show "r \<in> set (reservations (svc_expire_stale (current_timestamp now) db)) \<longleftrightarrow>
      instant now - instant (now_provider app n) < h * 1000000"
    unfolding stale t(2) by linarith
qed

text \<open>Seconds after midnight in UTC, and a hold of thirty seconds that is made at midnight.\<close>

definition after_midnight :: "int \<Rightarrow> int \<Rightarrow> datetime" where
  "after_midnight s u = midnight\<lparr>dt_second := s, dt_micro := u, dt_offset := Some 0\<rparr>"

lemma after_midnight_moment: "instant (after_midnight s u) = 63909475200000000 + s * 1000000 + u"
  by (simp add: after_midnight_def instant_def midnight_def moment_eval)

lemma after_midnight_utc: "0 \<le> s \<Longrightarrow> s < 60 \<Longrightarrow> 0 \<le> u \<Longrightarrow> u < 1000000 \<Longrightarrow> utc_time (after_midnight s u)"
  by (simp add: utc_time_def after_midnight_def midnight_def valid_datetime_def valid_date_def days_in_month_def day_micros_def)

definition thirty_seconds :: "unit app_env \<Rightarrow> ReservationRow \<Rightarrow> ReservationRow" where
  "thirty_seconds app r = r\<lparr>res_status := HELD, res_expires_at := hold_deadline app 0 30\<rparr>"

definition only_row :: "ReservationRow \<Rightarrow> TicketingDb" where
  "only_row r = \<lparr>events = [], users = [], seats = [], reservations = [r], payments = []\<rparr>"

theorem hold_lasts_its_seconds_witness:
  "\<forall>app0 r0. let app = app0\<lparr>now_provider := \<lambda>_. after_midnight 0 0\<rparr>; r = thirty_seconds app r0 in
     r \<in> set (reservations (svc_expire_stale (current_timestamp (after_midnight 29 999999)) (only_row r))) \<and>
     r \<notin> set (reservations (svc_expire_stale (current_timestamp (after_midnight 30 0)) (only_row r)))"
proof (intro allI)
  fix app0 :: "unit app_env" and r0
  define app where "app = app0\<lparr>now_provider := \<lambda>_. after_midnight 0 0\<rparr>"
  define r where "r = thirty_seconds app r0"
  have row: "utc_time (now_provider app 0)" "r \<in> set (reservations (only_row r))" "res_status r = HELD"
    "res_expires_at r = hold_deadline app 0 30"
    by (simp_all add: app_def r_def thirty_seconds_def only_row_def after_midnight_utc)
  note lasts = hold_lasts_its_seconds [OF row(1) _ _ row(2-4)]
  have start: "instant (now_provider app 0) = 63909475200000000" by (simp add: app_def after_midnight_moment)
  from lasts [OF after_midnight_utc [of 29 999999]] lasts [OF after_midnight_utc [of 30 0]]
  have "r \<in> set (reservations (svc_expire_stale (current_timestamp (after_midnight 29 999999)) (only_row r))) \<and>
     r \<notin> set (reservations (svc_expire_stale (current_timestamp (after_midnight 30 0)) (only_row r)))"
    by (simp add: start after_midnight_moment end_of_time_def max_ordinal_def day_micros_def)
  then show "let app = app0\<lparr>now_provider := \<lambda>_. after_midnight 0 0\<rparr>; r = thirty_seconds app r0 in
     r \<in> set (reservations (svc_expire_stale (current_timestamp (after_midnight 29 999999)) (only_row r))) \<and>
     r \<notin> set (reservations (svc_expire_stale (current_timestamp (after_midnight 30 0)) (only_row r)))"
    by (simp add: Let_def app_def r_def)
qed

end
