(* ===== verification/Reconcile_Worker.thy ===== *)
theory Reconcile_Worker
  imports Reconciler
begin

section \<open>The background worker (\<open>scripts/reconciler.py\<close>)\<close>

text \<open>
  The worker repeats passes of the reconciler, prints a summary of each pass that did something,
  and sleeps in between; with \<open>--once\<close> it stops after the first pass. An exception of the database
  service ends it. While it sleeps, and between any two passes, other processes may change the
  world, which is the step \<open>Elsewhere\<close> of its runs for a relation of allowed changes.
\<close>

record worker_args =
  interval_seconds :: rat
  worker_limit :: int
  only_once :: bool

definition default_args :: worker_args where
  "default_args = \<lparr>interval_seconds = 2, worker_limit = 100, only_once = False\<rparr>"

text \<open>What has become of the process; \<open>time.sleep\<close> refuses a negative number.\<close>

datatype worker_status = Sleeping | Exited int | PassRaised pass_error | SleepRaised

record 'w worker_process =
  worker_world :: 'w
  printed :: "ustr list"
  line_ticks :: nat
  worker_at :: worker_status

subsection \<open>Printing\<close>

definition log_line :: "datetime \<Rightarrow> ustr \<Rightarrow> ustr" where
  "log_line now message =
     lit ''['' @ pad 4 (dt_year now) @ lit ''-'' @ pad 2 (dt_month now) @ lit ''-'' @ pad 2 (dt_day now) @ lit '' '' @
     pad 2 (dt_hour now) @ lit '':'' @ pad 2 (dt_minute now) @ lit '':'' @ pad 2 (dt_second now) @ lit '' UTC] '' @ message"

definition count_text :: "'a list \<Rightarrow> ustr" where
  "count_text xs = int_str (int (length xs))"

definition report_messages :: "ReconciliationReport \<Rightarrow> ustr list" where
  "report_messages report =
     (if expired_reservation_ids report \<noteq> [] \<or> repaired_reservation_ids report \<noteq> [] \<or> report_errors report \<noteq> []
      then (lit ''reconcile '' @ lit ''expired='' @ count_text (expired_reservation_ids report) @ lit '' '' @
            lit ''repaired='' @ count_text (repaired_reservation_ids report) @ lit '' '' @
            lit ''errors='' @ count_text (report_errors report))
           # map (\<lambda>e. lit ''error: '' @ e) (report_errors report)
      else [])"

text \<open>Each line reads the clock once.\<close>

fun log_lines :: "(nat \<Rightarrow> datetime) \<Rightarrow> ustr list \<Rightarrow> 'w worker_process \<Rightarrow> 'w worker_process" where
  "log_lines clock [] k = k"
| "log_lines clock (message # rest) k =
     log_lines clock rest
       (k\<lparr>printed := printed k @ [log_line (clock (line_ticks k)) message], line_ticks := Suc (line_ticks k)\<rparr>)"

subsection \<open>The loop\<close>

text \<open>The body of \<open>while True\<close>, up to the start of the next pass.\<close>

definition worker_pass :: "worker_args \<Rightarrow> (nat \<Rightarrow> datetime) \<Rightarrow> 'w reconcile_env \<Rightarrow> 'w worker_process \<Rightarrow> 'w worker_process" where
  "worker_pass args clock env k =
     (case run_once env (worker_limit args) (worker_world k) of
        (Inl e, w1) \<Rightarrow> k\<lparr>worker_world := w1, worker_at := PassRaised e\<rparr>
      | (Inr report, w1) \<Rightarrow>
          (let k1 = log_lines clock (report_messages report) (k\<lparr>worker_world := w1\<rparr>)
           in if only_once args then k1\<lparr>worker_at := Exited 0\<rparr>
              else if interval_seconds args < 0 then k1\<lparr>worker_at := SleepRaised\<rparr>
              else k1))"

definition worker_start :: "'w \<Rightarrow> 'w worker_process" where
  "worker_start w = \<lparr>worker_world = w, printed = [], line_ticks = 0, worker_at = Sleeping\<rparr>"

inductive worker_run ::
  "worker_args \<Rightarrow> (nat \<Rightarrow> datetime) \<Rightarrow> 'w reconcile_env \<Rightarrow> ('w \<Rightarrow> 'w \<Rightarrow> bool) \<Rightarrow> 'w \<Rightarrow> 'w worker_process \<Rightarrow> bool"
  for args clock env elsewhere w0 where
  Main: "worker_run args clock env elsewhere w0 (worker_start w0)"
| Pass: "worker_run args clock env elsewhere w0 k \<Longrightarrow> worker_at k = Sleeping \<Longrightarrow>
    worker_run args clock env elsewhere w0 (worker_pass args clock env k)"
| Elsewhere: "worker_run args clock env elsewhere w0 k \<Longrightarrow> elsewhere (worker_world k) w' \<Longrightarrow>
    worker_run args clock env elsewhere w0 (k\<lparr>worker_world := w'\<rparr>)"

lemma log_lines_other [simp]:
  "worker_world (log_lines clock ms k) = worker_world k" "worker_at (log_lines clock ms k) = worker_at k"
  by (induction clock ms k rule: log_lines.induct) simp_all

lemma log_lines_printed: "length (printed (log_lines clock ms k)) = length (printed k) + length ms"
  by (induction clock ms k rule: log_lines.induct) simp_all

lemma worker_pass_ok:
  assumes "run_once env (worker_limit args) (worker_world k) = (Inr report, w1)"
  shows "worker_world (worker_pass args clock env k) = w1"
    and "worker_at (worker_pass args clock env k) =
      (if only_once args then Exited 0 else if interval_seconds args < 0 then SleepRaised else worker_at k)"
    and "length (printed (worker_pass args clock env k)) = length (printed k) + length (report_messages report)"
  using assms by (simp_all add: worker_pass_def Let_def log_lines_printed)

end
