(* ===== verification/Worker_Properties.thy ===== *)
theory Worker_Properties
  imports Reconcile_Worker System_Properties
begin

section \<open>Properties of the background worker\<close>

text \<open>
  The worker over the two stores. What other processes do between its passes is a relation of
  which the first property only asks that it keeps the databases in order; the second property is
  about a worker that is alone and still does not finish, since every pass looks at the same rows.
\<close>

definition world_ok :: "system_env \<Rightarrow> system \<Rightarrow> bool" where
  "world_ok env w \<longleftrightarrow> (\<exists>m. system_shows env w m) \<and> db_inv (sys_db w) \<and> rows_named (sys_db w)"

text \<open>
  Every confirmed reservation among the earliest \<open>limit\<close> confirmations reads as confirmed for its
  user in the seat store; every confirmed one, when there are at most \<open>limit\<close>.
\<close>

definition stores_agree :: "system_env \<Rightarrow> int \<Rightarrow> system \<Rightarrow> bool" where
  "stores_agree env limit w \<longleftrightarrow>
     (\<forall>r\<in>set (reservations (sys_db w)). res_status r = CONFIRMED \<longrightarrow>
       r \<in> set (list_confirmed_reservations (Some limit) (sys_db w)) \<or> within_limit limit (sys_db w) \<longrightarrow>
       fst (redis_seat_status (system_redis env) (res_event_id r) (res_seat_id r) w) =
         Inr \<lparr>seat_state = lit ''CONFIRMED'', seat_user_id = Some (res_user_id r), seat_ttl = - 1\<rparr>)"

lemma confirmed_reads:
  assumes "system_shows env w m" and "plain (res_event_id r)" and "m (res_event_id r) (res_seat_id r) = Confirmed (res_user_id r)"
  shows "fst (redis_seat_status (system_redis env) (res_event_id r) (res_seat_id r) w) =
    Inr \<lparr>seat_state = lit ''CONFIRMED'', seat_user_id = Some (res_user_id r), seat_ttl = - 1\<rparr>"
  using sys.status_call [OF assms(1), of "res_event_id r" "res_seat_id r"] assms(2,3) by (auto simp: seat_names mk_status_def)

lemma pass_agrees:
  assumes "world_ok env w"
  obtains report w' where "run_once (system_reconciler env texts) limit w = (Inr report, w')" and "report_errors report = []"
    and "world_ok env w'" and "stores_agree env limit w'"
proof -
  obtain m where m: "system_shows env w m" "db_inv (sys_db w)" "rows_named (sys_db w)"
    using assms by (auto simp: world_ok_def)
  obtain report w' m' where run: "run_once (system_reconciler env texts) limit w = (Inr report, w')" "report_errors report = []"
    and ok: "db_inv (sys_db w')" "rows_named (sys_db w')" "system_shows env w' m'"
    and seat: "\<forall>r\<in>set (list_confirmed_reservations (Some limit) (sys_db w')).
       m' (res_event_id r) (res_seat_id r) = Confirmed (res_user_id r)"
    using pass_restores [OF m] by blast
  have "stores_agree env limit w'"
    unfolding stores_agree_def
    using confirmed_reads [OF ok(3)] seat ok(2) within_limit_listed [of limit "sys_db w'"] by (auto simp: rows_named_def)
  moreover have "world_ok env w'" using ok by (auto simp: world_ok_def)
  ultimately show ?thesis using that run by blast
qed

lemma worker_world_ok:
  assumes "worker_run args clock (system_reconciler env texts) elsewhere w0 k" and "world_ok env w0"
    and "\<And>w w'. elsewhere w w' \<Longrightarrow> world_ok env w \<Longrightarrow> world_ok env w'"
  shows "world_ok env (worker_world k) \<and> (\<forall>e. worker_at k \<noteq> PassRaised e) \<and>
    (\<not> only_once args \<longrightarrow> 0 \<le> interval_seconds args \<longrightarrow> worker_at k = Sleeping)"
  using assms(1)
proof induction
  case Main
  then show ?case using assms(2) by (simp add: worker_start_def)
next
  case (Pass k)
  obtain report w' where pass: "run_once (system_reconciler env texts) (worker_limit args) (worker_world k) = (Inr report, w')"
    and ok: "world_ok env w'"
    by (rule pass_agrees [where texts = texts, OF Pass.IH [THEN conjunct1]])
  show ?case using worker_pass_ok(1,2) [OF pass] ok Pass.IH Pass.hyps(2) by simp
next
  case (Elsewhere k w')
  then show ?case using assms(3) by simp
qed


lemma lost_ok: "world_ok small_env lost_seat"
proof -
  have "rows_named booked_db"
    by (simp add: rows_named_def booked_db_def booked_row_def confirm_row_def small_eval plain_def user_ok_def scalar_def)
  then show ?thesis using lost_shows booked_ok by (auto simp: world_ok_def lost_db)
qed


subsection \<open>A worker that is alone, with a limit\<close>

text \<open>Without held reservations a pass only confirms the seats of the listed ones.\<close>

lemma settled_pass:
  assumes "system_shows env w m" and "db_inv (sys_db w)" and "rows_named (sys_db w)"
    and "\<forall>r\<in>set (reservations (sys_db w)). res_status r \<noteq> HELD"
  obtains report w' where "run_once (system_reconciler env texts) limit w = (Inr report, w')" and "sys_db w' = sys_db w"
    and "system_shows env w' (confirm_all (list_confirmed_reservations (Some limit) (sys_db w)) m)"
proof -
  let ?env = "system_reconciler env texts" and ?rs = "list_confirmed_reservations (Some limit) (sys_db w)"
  define w1 where "w1 = snd (rec_expire_stale ?env limit w)"
  have "filter (is_stale now) (reservations (sys_db w)) = []" for now
    using assms(4) by (auto simp: filter_empty_conv is_stale_def)
  then have "list_stale_held_reservations now limit (sys_db w) = []" for now
    by (simp add: list_stale_held_reservations_def sql_limit_def)
  then have sweep: "rec_expire_stale ?env limit w = (Inr [], w1)" and w1: "sys_db w1 = sys_db w" "sys_redis w1 = sys_redis w"
    by (simp_all add: w1_def system_reconciler_def on_db_def svc_expire_stale_reservations_def)
  have named: "\<forall>r\<in>set ?rs. plain (res_event_id r) \<and> user_ok (res_user_id r)"
    using listed_confirmed assms(3) by (auto simp: rows_named_def)
  have shows1: "system_shows env w1 m" using assms(1) system_shows_redis [OF w1(2)] by simp
  obtain w' report where fin: "repair_seats ?env ?rs new_report w1 = (report, w')" and w': "system_shows env w' (confirm_all ?rs m)"
    using sys.repair_all [OF shows1 named _ limited_distinct [OF assms(2)], of ?env new_report] by auto
  have "sys_db w' = sys_db w" using repair_seats_same_db [OF _ fin, of env] w1 by (simp add: same_db_def)
  moreover have "run_once ?env limit w = (Inr report, w')"
    using sweep fin w1 by (simp add: run_once_def expire_stale_holds_def repair_confirmed_seats_def)
  ultimately show ?thesis using that w' by blast
qed

text \<open>
  Claim C39: a limit starves repairs. A confirmed reservation that is not among the rows that the
  listing returns for the limit of the worker (it takes the earliest confirmations) is never
  repaired, however often the worker runs: when its seat is free in the seat store at the start,
  it is free after every number of passes, so that it can be sold again, although the database
  has the reservation as confirmed all the time.
\<close>

theorem limit_starves_repairs:
  assumes "worker_run args clock (system_reconciler env texts) (\<lambda>_ _. False) w0 k"
    and "system_shows env w0 m" and "db_inv (sys_db w0)" and "rows_named (sys_db w0)"
    and "\<forall>x\<in>set (reservations (sys_db w0)). res_status x \<noteq> HELD"
    and "r \<in> set (reservations (sys_db w0))" and "res_status r = CONFIRMED"
    and "r \<notin> set (list_confirmed_reservations (Some (worker_limit args)) (sys_db w0))"
    and "m (res_event_id r) (res_seat_id r) = Available"
  shows "r \<in> set (reservations (sys_db (worker_world k))) \<and>
    (\<exists>status. fst (redis_seat_status (system_redis env) (res_event_id r) (res_seat_id r) (worker_world k)) = Inr status \<and>
       seat_state status = lit ''AVAILABLE'')"
proof -
  let ?rs = "list_confirmed_reservations (Some (worker_limit args)) (sys_db w0)"
  have other: "(res_event_id r, res_seat_id r) \<notin> seat_id_of ` set ?rs"
  proof
    assume "(res_event_id r, res_seat_id r) \<in> seat_id_of ` set ?rs"
    then obtain x where x: "x \<in> set ?rs" "seat_id_of x = seat_id_of r" by (auto simp: seat_id_of_def)
    then have "x \<in> set (reservations (sys_db w0))" "confirmed_for (res_event_id r) (res_seat_id r) x"
      "confirmed_for (res_event_id r) (res_seat_id r) r"
      using listed_confirmed assms(7) by (auto simp: confirmed_for_def seat_id_of_def)
    then have "res_id x = res_id r" using assms(3,6) unfolding db_inv_def confirmed_unique_def by blast
    then have "x = r"
      using assms(3,6) \<open>x \<in> set (reservations (sys_db w0))\<close> by (auto simp: db_inv_def distinct_map inj_on_def)
    then show False using x(1) assms(8) by simp
  qed
  from assms(1) have "sys_db (worker_world k) = sys_db w0 \<and>
      (\<exists>m'. system_shows env (worker_world k) m' \<and> m' (res_event_id r) (res_seat_id r) = Available)"
  proof induction
    case Main
    then show ?case using assms(2,9) by (auto simp: worker_start_def)
  next
    case (Pass k)
    then obtain m' where db: "sys_db (worker_world k) = sys_db w0" and m': "system_shows env (worker_world k) m'"
      "m' (res_event_id r) (res_seat_id r) = Available" by blast
    obtain report w' where pass: "run_once (system_reconciler env texts) (worker_limit args) (worker_world k) = (Inr report, w')"
      and w': "sys_db w' = sys_db (worker_world k)" "system_shows env w' (confirm_all ?rs m')"
      by (rule settled_pass [where texts = texts and limit = "worker_limit args", OF m'(1)])
        (use assms(3-5) db in simp_all)
    have "confirm_all ?rs m' (res_event_id r) (res_seat_id r) = Available"
      using confirm_all_other [OF other] m'(2) by simp
    then show ?case using worker_pass_ok(1) [OF pass] w' db by auto
  qed simp
  then obtain m' where db: "sys_db (worker_world k) = sys_db w0" and m': "system_shows env (worker_world k) m'"
    "m' (res_event_id r) (res_seat_id r) = Available" by blast
  have "plain (res_event_id r)" using assms(4,6) by (simp add: rows_named_def)
  from sys.status_call [OF m'(1) this, of "res_seat_id r"] m'(2) db assms(6) show ?thesis
    by (auto simp: seat_names mk_status_def)
qed

text \<open>Two bookings of which the seat store has lost both; a worker with a limit of one.\<close>

definition later_row :: ReservationRow where
  "later_row = booked_row\<lparr>res_id := [30], res_seat_id := [31], res_hold_token := Some [32], res_confirmed_at := Some [33]\<rparr>"

definition full_db :: TicketingDb where
  "full_db = small_db\<lparr>seats := seats small_db @ [(hd (seats small_db))\<lparr>st_seat_id := [31]\<rparr>],
     reservations := [booked_row, later_row],
     payments := [paid [12] [4] small_payment, paid [12] [30] (small_payment\<lparr>cr_payment_id := [34]\<rparr>)]\<rparr>"

lemma full_ok: "db_inv full_db" "rows_named full_db" "\<forall>x\<in>set (reservations full_db). res_status x \<noteq> HELD"
  by (auto simp: db_inv_def tokens_ok_def confirmed_unique_def payments_ok_def row_paid_def row_refs_def full_db_def later_row_def
      booked_row_def confirm_row_def paid_def small_eval rows_named_def plain_def user_ok_def scalar_def)

theorem limit_starves_repairs_witness:
  "let args = default_args\<lparr>worker_limit := 1\<rparr>; renv = system_reconciler small_env (\<lambda>_. []);
       k = worker_pass args (\<lambda>_. noon) renv (worker_start (lost_seat\<lparr>sys_db := full_db\<rparr>))
   in later_row \<in> set (reservations (sys_db (worker_world k))) \<and>
      (\<exists>status. fst (redis_seat_status (system_redis small_env) (res_event_id later_row) (res_seat_id later_row) (worker_world k)) =
         Inr status \<and> seat_state status = lit ''AVAILABLE'')"
proof -
  let ?args = "default_args\<lparr>worker_limit := 1\<rparr>" and ?w = "lost_seat\<lparr>sys_db := full_db\<rparr>"
  have run: "worker_run ?args (\<lambda>_. noon) (system_reconciler small_env (\<lambda>_. [])) (\<lambda>_ _. False) ?w
      (worker_pass ?args (\<lambda>_. noon) (system_reconciler small_env (\<lambda>_. [])) (worker_start ?w))"
    by (intro worker_run.Pass worker_run.Main) (simp add: worker_start_def)
  have seat_store: "system_shows small_env ?w (\<lambda>_ _. Available)"
    using lost_shows system_shows_redis [of ?w lost_seat] by simp
  have row: "later_row \<in> set (reservations full_db)" "res_status later_row = CONFIRMED"
    by (simp_all add: full_db_def later_row_def booked_row_def confirm_row_def)
  have out: "later_row \<notin> set (list_confirmed_reservations (Some (worker_limit ?args)) (sys_db ?w))"
    by (simp add: list_confirmed_reservations_def sql_limit_def full_db_def later_row_def booked_row_def confirm_row_def
        small_eval default_args_def)
  from limit_starves_repairs [OF run seat_store _ _ _ _ row(2) out] show ?thesis
    using full_ok row(1) by (simp add: Let_def)
qed

end
