(* ===== verification/Dashboard.thy ===== *)
theory Dashboard
  imports Ticketing_Api Py_Float
begin

section \<open>The demo dashboard (\<open>client/client.py\<close>)\<close>

text \<open>
  The request handler of the dashboard: its two routes tables, the reading of bodies, and the
  files under \<open>static\<close>. The service behind it is a module that the repository does not have; it
  is an argument, a record of its methods, each of which may raise (no result). So is the file
  system. A request target is in origin form, as the library's \<open>parse_request\<close> gives it: the second
  word of the request line, which begins with one slash. An exception that leaves
  the handler closes the connection without an answer. The text of an answer is what
  \<open>json.dumps\<close> prints for its value, which fails for strings with surrogates.
\<close>

record 'd demo_service =
  dashboard_state :: "'d \<Rightarrow> json option \<times> 'd"
  dash_bootstrap :: "'d \<Rightarrow> unit option \<times> 'd"
  dash_reserve :: "json \<Rightarrow> json \<Rightarrow> int \<Rightarrow> 'd \<Rightarrow> json option \<times> 'd"
  dash_confirm :: "json \<Rightarrow> json \<Rightarrow> 'd \<Rightarrow> json option \<times> 'd"
  dash_release :: "json \<Rightarrow> json \<Rightarrow> 'd \<Rightarrow> json option \<times> 'd"
  simulate_surge :: "int \<Rightarrow> int \<Rightarrow> int \<Rightarrow> 'd \<Rightarrow> json option \<times> 'd"

record file_system =
  is_directory :: "ustr list \<Rightarrow> bool"
  file_bytes :: "ustr list \<Rightarrow> bytes option"

record dash_request =
  dash_target :: ustr
  content_length :: "ustr option"
  dash_body :: bytes

datatype dash_reply = JsonReply nat json | FileReply ustr bytes | ErrorReply nat ustr | Dropped

subsection \<open>Targets\<close>

text \<open>
  \<open>urlparse(target).path\<close>: tabs and line ends are removed first; then no fragment, no query, no
  parameters of the last piece. Nothing decodes percent signs.
\<close>

definition cut_at :: "nat \<Rightarrow> ustr \<Rightarrow> ustr" where
  "cut_at c t = takeWhile (\<lambda>x. x \<noteq> c) t"

definition url_path :: "ustr \<Rightarrow> ustr" where
  "url_path target =
     (let t = cut_at 63 (cut_at 35 (filter (\<lambda>c. c \<notin> {9, 10, 13}) target)); piece = rev (cut_at 47 (rev t))
      in take (length t - length piece) t @ cut_at 59 piece)"

subsection \<open>Answers in JSON\<close>

fun encodable :: "json \<Rightarrow> bool" where
  "encodable (JStr t) = list_all scalar t"
| "encodable (JArr xs) = list_all encodable xs"
| "encodable (JObj kvs) = list_all (\<lambda>(k, v). list_all scalar k \<and> encodable v) kvs"
| "encodable _ = True"

definition send_json :: "nat \<Rightarrow> json \<Rightarrow> dash_reply" where
  "send_json status payload = (if encodable payload then JsonReply status payload else Dropped)"

definition send_result :: "json option \<times> 'd \<Rightarrow> dash_reply \<times> 'd" where
  "send_result r = (case fst r of None \<Rightarrow> Dropped | Some v \<Rightarrow> send_json 200 v, snd r)"

subsection \<open>Bodies\<close>

text \<open>None: the length, the decoding or the parser raises.\<close>

definition read_json_body :: "dash_request \<Rightarrow> json option" where
  "read_json_body req =
     (case py_int (case content_length req of None \<Rightarrow> lit ''0'' | Some t \<Rightarrow> t) of
        None \<Rightarrow> None
      | Some n \<Rightarrow>
          if n \<le> 0 then Some (JObj [])
          else (let body = take (nat n) (dash_body req)
                in if body = [] then Some (JObj [])
                   else (case utf8_decode body of None \<Rightarrow> None | Some t \<Rightarrow> json_loads t)))"

text \<open>The value of a number with a fraction or an exponent; none for the infinities and NaN.\<close>

definition json_float :: "ustr \<Rightarrow> rat option" where
  "json_float t =
     (let negative = (t \<noteq> [] \<and> hd t = 45); u = (if negative then tl t else t);
          whole = takeWhile is_digit u; v = dropWhile is_digit u;
          frac = fst (scan_frac v); rest = snd (scan_frac v); ex = (if rest = [] then [] else tl rest);
          e = (if ex = [] then 0
               else if hd ex = 45 then - int (digits_value (tl ex))
               else if hd ex = 43 then int (digits_value (tl ex)) else int (digits_value ex));
          size = of_nat (digits_value (whole @ tl frac)) * 10 powi (e - int (length (tl frac)));
          x = fl (if negative then - size else size)
      in if whole = [] \<or> \<not> \<bar>x\<bar> < 2 ^ 1024 then None else Some x)"

definition falsy :: "json \<Rightarrow> bool" where
  "falsy v =
     (case v of
        JNull \<Rightarrow> True
      | JBool b \<Rightarrow> \<not> b
      | JInt t \<Rightarrow> py_int t = Some 0
      | JFloat t \<Rightarrow> json_float t = Some 0
      | JStr t \<Rightarrow> t = []
      | JArr xs \<Rightarrow> xs = []
      | JObj kvs \<Rightarrow> kvs = [])"

text \<open>\<open>int(v)\<close>; a fraction is cut off, a list or a dictionary is refused.\<close>

definition int_of_json :: "json \<Rightarrow> int option" where
  "int_of_json v =
     (case v of
        JBool b \<Rightarrow> Some (if b then 1 else 0)
      | JInt t \<Rightarrow> py_int t
      | JFloat t \<Rightarrow> map_option (\<lambda>x. if x < 0 then \<lceil>x\<rceil> else \<lfloor>x\<rfloor>) (json_float t)
      | JStr t \<Rightarrow> py_int t
      | _ \<Rightarrow> None)"

text \<open>\<open>int(payload.get(name) or preset)\<close> and \<open>payload.get(name, preset)\<close>.\<close>

definition body_int :: "(ustr \<times> json) list \<Rightarrow> string \<Rightarrow> int \<Rightarrow> int option" where
  "body_int kvs name preset =
     (let v = json_get kvs (lit name) in if falsy v then Some preset else int_of_json v)"

definition body_value :: "(ustr \<times> json) list \<Rightarrow> string \<Rightarrow> string \<Rightarrow> json" where
  "body_value kvs name preset =
     (case map_of (rev kvs) (lit name) of None \<Rightarrow> JStr (lit preset) | Some v \<Rightarrow> v)"

subsection \<open>\<open>do_POST\<close>\<close>

definition reset_message :: ustr where
  "reset_message = [45936, 47784, 32, 49345, 53468, 47484, 32, 52488, 44592, 54868, 54664, 49845, 45768, 45796, 46]"

definition dash_actions :: "ustr list" where
  "dash_actions = map lit [''/api/actions/reserve'', ''/api/actions/confirm'', ''/api/actions/release'', ''/api/actions/simulate'']"

text \<open>The actions on a body that is an object.\<close>

definition dash_action :: "'d demo_service \<Rightarrow> ustr \<Rightarrow> (ustr \<times> json) list \<Rightarrow> 'd \<Rightarrow> dash_reply \<times> 'd" where
  "dash_action service path kvs d =
     (let seat = body_value kvs ''seat_id'' ''S0001''; user = body_value kvs ''user_id'' ''user0001''
      in if path = lit ''/api/actions/reserve''
         then (case body_int kvs ''ttl_seconds'' 10 of
                 None \<Rightarrow> (Dropped, d)
               | Some ttl \<Rightarrow> send_result (dash_reserve service seat user ttl d))
         else if path = lit ''/api/actions/confirm'' then send_result (dash_confirm service seat user d)
         else if path = lit ''/api/actions/release'' then send_result (dash_release service seat user d)
         else (case (body_int kvs ''contenders'' 120, body_int kvs ''focus_seats'' 12, body_int kvs ''ttl_seconds'' 10) of
                 (Some contenders, Some focus, Some ttl) \<Rightarrow> send_result (simulate_surge service contenders focus ttl d)
               | _ \<Rightarrow> (Dropped, d)))"

definition do_POST :: "'d demo_service \<Rightarrow> dash_request \<Rightarrow> 'd \<Rightarrow> dash_reply \<times> 'd" where
  "do_POST service req d =
     (let path = url_path (dash_target req)
      in if path = lit ''/api/reset''
         then (case dash_bootstrap service d of
                 (None, d1) \<Rightarrow> (Dropped, d1)
               | (Some _, d1) \<Rightarrow> (send_json 200 (JObj [(lit ''ok'', JBool True), (lit ''message'', JStr reset_message)]), d1))
         else (case read_json_body req of
                 None \<Rightarrow> (Dropped, d)
               | Some payload \<Rightarrow>
                   if path \<in> set dash_actions
                   then (case payload of JObj kvs \<Rightarrow> dash_action service path kvs d | _ \<Rightarrow> (Dropped, d))
                   else (send_json 404 (JObj [(lit ''ok'', JBool False), (lit ''message'', JStr (lit ''Unknown route: '' @ path))]), d)))"

subsection \<open>\<open>do_GET\<close>\<close>

text \<open>The pieces of \<open>STATIC_DIR / text\<close> after the directory: \<open>pathlib\<close> drops dots, not parents.\<close>

definition path_parts :: "ustr \<Rightarrow> ustr list" where
  "path_parts t = filter (\<lambda>p. p \<noteq> [] \<and> p \<noteq> lit ''.'') (split_path t)"

text \<open>The operating system walks through directories; the parent of the root is the root.\<close>

fun walk :: "file_system \<Rightarrow> ustr list \<Rightarrow> ustr list \<Rightarrow> ustr list option" where
  "walk fs here [] = Some here"
| "walk fs here (p # ps) =
     (if \<not> is_directory fs here then None
      else if p = lit ''..'' then walk fs (butlast here) ps
      else walk fs (here @ [p]) ps)"

definition file_suffix :: "ustr \<Rightarrow> ustr" where
  "file_suffix name =
     (let ending = rev (cut_at 46 (rev name))
      in if ending = [] \<or> length name \<le> Suc (length ending) then [] else 46 # ending)"

definition media_type :: "ustr \<Rightarrow> ustr" where
  "media_type suffix =
     (if suffix = lit ''.html'' then lit ''text/html; charset=utf-8''
      else if suffix = lit ''.css'' then lit ''text/css; charset=utf-8''
      else if suffix = lit ''.js'' then lit ''application/javascript; charset=utf-8''
      else lit ''application/octet-stream'')"

definition serve_static :: "file_system \<Rightarrow> ustr list \<Rightarrow> ustr \<Rightarrow> dash_reply" where
  "serve_static fs static_dir path =
     (let route = (if path = [] \<or> path = [47] then lit ''/index.html'' else path);
          parts = path_parts (dropWhile (\<lambda>c. c = 47) route)
      in case walk fs static_dir parts of
           None \<Rightarrow> ErrorReply 404 (lit ''File not found'')
         | Some file \<Rightarrow>
             (case file_bytes fs file of
                None \<Rightarrow> ErrorReply 404 (lit ''File not found'')
              | Some content \<Rightarrow> FileReply (media_type (file_suffix (last (static_dir @ parts)))) content))"

definition do_GET :: "file_system \<Rightarrow> ustr list \<Rightarrow> 'd demo_service \<Rightarrow> dash_request \<Rightarrow> 'd \<Rightarrow> dash_reply \<times> 'd" where
  "do_GET fs static_dir service req d =
     (let path = url_path (dash_target req)
      in if path = lit ''/api/state'' then send_result (dashboard_state service d)
         else (serve_static fs static_dir path, d))"

end
