(* ===== verification/Dashboard_Properties.thy ===== *)
theory Dashboard_Properties
  imports Dashboard
begin

section \<open>Properties of the dashboard\<close>

text \<open>The files that the dashboard gives away.\<close>

subsection \<open>Targets without special characters\<close>

lemma cut_at_id: "c \<notin> set t \<Longrightarrow> cut_at c t = t"
  by (auto simp: cut_at_def takeWhile_eq_all_conv)

lemma url_path_plain:
  assumes "35 \<notin> set t" and "63 \<notin> set t" and "59 \<notin> set t" and "\<forall>c\<in>set t. 32 < c"
  shows "url_path t = t"
proof -
  have clean: "filter (\<lambda>c. c \<notin> {9, 10, 13}) t = t" using assms(4) by (auto simp: filter_id_conv)
  define piece where "piece = rev (cut_at 47 (rev t))"
  have split: "rev t = rev piece @ dropWhile (\<lambda>x. x \<noteq> 47) (rev t)"
    by (simp add: piece_def cut_at_def)
  then have "set (rev piece) \<subseteq> set (rev t)" by (metis set_append sup_ge1)
  then have "59 \<notin> set piece" using assms(3) by auto
  then have "url_path t = take (length t - length piece) t @ piece"
    unfolding url_path_def Let_def clean cut_at_id [OF assms(1)] cut_at_id [OF assms(2)] piece_def [symmetric]
    by (simp add: cut_at_id)
  moreover have "t = rev (dropWhile (\<lambda>x. x \<noteq> 47) (rev t)) @ piece"
    using arg_cong [OF split, of rev] by simp
  ultimately show ?thesis by (metis append_take_drop_id append_eq_conv_conj length_append diff_add_inverse2)
qed

text \<open>A path is written with slashes between its pieces.\<close>

fun join_slash :: "ustr list \<Rightarrow> ustr" where
  "join_slash [] = []"
| "join_slash [p] = p"
| "join_slash (p # ps) = p @ 47 # join_slash ps"

lemma split_join: "ps \<noteq> [] \<Longrightarrow> \<forall>p\<in>set ps. 47 \<notin> set p \<Longrightarrow> split_path (join_slash ps) = ps"
  by (induction ps rule: join_slash.induct) (simp_all add: split_slash split_piece)

definition up :: "nat \<Rightarrow> ustr" where
  "up n = concat (replicate n (lit ''../''))"

lemma up_Suc: "up (Suc n) = lit ''..'' @ 47 # up n"
  by (simp add: up_def lit_def)

lemma split_up: "split_path (up n @ s) = replicate n (lit ''..'') @ split_path s"
proof (induction n)
  case (Suc n)
  have "47 \<notin> set (lit ''..'')" by (simp add: lit_def)
  then show ?case using split_slash [of "lit ''..''" "up n @ s"] Suc by (simp add: up_Suc)
qed (simp add: up_def)

subsection \<open>Walking up and down\<close>

lemma walk_up:
  assumes "\<And>k. is_directory fs (take k here)"
  shows "walk fs here (replicate (length here) (lit ''..'') @ ps) = walk fs [] ps"
  using assms
proof (induction here rule: rev_induct)
  case (snoc p here)
  have "is_directory fs (take k here)" for k
    using snoc.prems [of "min k (length here)"] by (cases "k \<le> length here") (simp_all add: min_def)
  moreover have "is_directory fs (here @ [p])" using snoc.prems [of "Suc (length here)"] by simp
  ultimately show ?case using snoc.IH by simp
qed simp

lemma walk_down:
  assumes "\<And>k. k < length (here @ ps) \<Longrightarrow> is_directory fs (take k (here @ ps))" and "lit ''..'' \<notin> set ps"
  shows "walk fs here ps = Some (here @ ps)"
  using assms
proof (induction ps arbitrary: here)
  case (Cons p ps)
  have "is_directory fs here" using Cons.prems(1) [of "length here"] by simp
  then show ?case using Cons.IH [of "here @ [p]"] Cons.prems by auto
qed simp

text \<open>
  A piece of a path that is not special, in a request line, in a target or for the file system: of
  visible ASCII characters, without a hash, a slash, a semicolon or a question mark.
\<close>

definition piece_ok :: "ustr \<Rightarrow> bool" where
  "piece_ok p \<longleftrightarrow> list_all (\<lambda>c. 32 < c \<and> c < 127) p \<and> p \<noteq> [] \<and> p \<noteq> lit ''.'' \<and> p \<noteq> lit ''..'' \<and> 35 \<notin> set p \<and> 47 \<notin> set p \<and> 59 \<notin> set p \<and> 63 \<notin> set p"

definition escape_target :: "nat \<Rightarrow> ustr list \<Rightarrow> ustr" where
  "escape_target n file = 47 # up n @ join_slash file"

lemma set_join: "set (join_slash ps) \<subseteq> insert 47 (\<Union>p\<in>set ps. set p)"
  by (induction ps rule: join_slash.induct) auto

lemma set_up: "set (up n) \<subseteq> {46, 47}"
  by (induction n) (simp_all add: up_Suc lit_def, simp add: up_def)

lemma set_escape: "set (escape_target n file) \<subseteq> {46, 47} \<union> (\<Union>p\<in>set file. set p)"
  using set_join [of "file"] set_up [of n] by (auto simp: escape_target_def)

lemma piece_chars:
  assumes "\<forall>p\<in>set file. piece_ok p" and "c \<in> {46, 47} \<union> (\<Union>p\<in>set file. set p)"
  shows "32 < c \<and> c < 127 \<and> c \<noteq> 35 \<and> c \<noteq> 59 \<and> c \<noteq> 63"
  using assms(2)
proof
  assume "c \<in> (\<Union>p\<in>set file. set p)"
  then obtain p where p: "p \<in> set file" "c \<in> set p" by blast
  have "list_all (\<lambda>c. 32 < c \<and> c < 127) p" "35 \<notin> set p" "59 \<notin> set p" "63 \<notin> set p"
    using assms(1) p(1) by (simp_all add: piece_ok_def)
  then show ?thesis using p(2) unfolding list_all_iff by metis
qed auto

lemma escape_visible:
  assumes "\<forall>p\<in>set file. piece_ok p"
  shows "list_all (\<lambda>c. 32 < c \<and> c < 127) (escape_target n file)"
  unfolding list_all_iff using piece_chars [OF assms] set_escape by blast

lemma escape_path:
  assumes "\<forall>p\<in>set file. piece_ok p"
  shows "url_path (escape_target n file) = escape_target n file"
proof -
  have "32 < c \<and> c < 127 \<and> c \<noteq> 35 \<and> c \<noteq> 59 \<and> c \<noteq> 63" if "c \<in> set (escape_target n file)" for c
    using piece_chars [OF assms] set_escape that by blast
  then show ?thesis by (intro url_path_plain) blast+
qed

lemma escape_parts:
  assumes "\<forall>p\<in>set file. piece_ok p" and "file \<noteq> []"
  shows "path_parts (up n @ join_slash file) = replicate n (lit ''..'') @ file"
proof -
  have "split_path (join_slash file) = file" using assms by (intro split_join) (auto simp: piece_ok_def)
  moreover have "filter (\<lambda>p. p \<noteq> [] \<and> p \<noteq> lit ''.'') file = file" using assms(1) by (auto simp: filter_id_conv piece_ok_def)
  ultimately show ?thesis by (simp add: path_parts_def split_up filter_replicate)
qed

text \<open>
  Claim C40: static files are not confined to their directory. Every file of the file system whose
  path is made of plain names (visible ASCII characters other than hash, semicolon and question
  mark; no white space), wherever it is, has a request target with which \<open>do_GET\<close> answers its
  contents: as many parents as the static directory is deep, then the path of the file. It is
  enough that the directories on both paths exist. The target is a single word of visible ASCII
  characters with one slash at its start, so that it passes a request line unchanged.
\<close>

theorem static_files_are_not_confined:
  assumes "\<And>k. is_directory fs (take k static_dir)" and "static_dir \<noteq> []"
    and "\<And>k. k < length file \<Longrightarrow> is_directory fs (take k file)" and "file \<noteq> []"
    and "\<forall>p\<in>set file. piece_ok p" and "file_bytes fs file = Some content"
    and "dash_target req = escape_target (length static_dir) file"
  shows "do_GET fs static_dir service req d = (FileReply (media_type (file_suffix (last file))) content, d) \<and>
    list_all (\<lambda>c. 32 < c \<and> c < 127) (dash_target req) \<and> take 2 (dash_target req) = lit ''/.''"
proof -
  obtain n where n: "length static_dir = Suc n" using assms(2) by (cases static_dir) simp_all
  define route where "route = escape_target (length static_dir) file"
  have route: "route = 47 # 46 # 46 # 47 # up n @ join_slash file"
    by (simp add: route_def escape_target_def n up_Suc lit_def)
  have "route \<noteq> lit ''/api/state''" by (simp add: route lit_def)
  moreover have "dropWhile (\<lambda>c. c = 47) route = up (Suc n) @ join_slash file" by (simp add: route up_Suc lit_def)
  moreover have "route \<noteq> []" "route \<noteq> [47]" by (simp_all add: route)
  moreover have "walk fs static_dir (replicate (Suc n) (lit ''..'') @ file) = Some file"
    using walk_up [OF assms(1), of "file"] walk_down [of "[]" "file" fs] assms(3,5) by (auto simp: n piece_ok_def)
  moreover have "url_path (dash_target req) = route" using escape_path [OF assms(5)] by (simp add: assms(7) route_def)
  moreover have "list_all (\<lambda>c. 32 < c \<and> c < 127) route" using escape_visible [OF assms(5)] by (simp add: route_def)
  moreover have "take 2 route = lit ''/.''" by (simp add: route lit_def)
  moreover have "dash_target req = route" by (simp add: assms(7) route_def)
  ultimately show ?thesis
    using assms(4,6) by (simp add: do_GET_def Let_def serve_static_def escape_parts [OF assms(5,4)])
qed

text \<open>The secrets of a machine.\<close>

definition small_fs :: file_system where
  "small_fs = \<lparr>is_directory = (\<lambda>p. p \<in> {[], [lit ''srv''], [lit ''srv'', lit ''static''], [lit ''etc'']}),
     file_bytes = (\<lambda>p. if p = [lit ''etc'', lit ''passwd''] then Some ''root'' else None)\<rparr>"

theorem static_files_are_not_confined_witness:
  "\<forall>(service :: unit demo_service) d.
     do_GET small_fs [lit ''srv'', lit ''static''] service
       \<lparr>dash_target = lit ''/../../etc/passwd'', content_length = None, dash_body = []\<rparr> d =
     (FileReply (lit ''application/octet-stream'') ''root'', d)"
proof (intro allI)
  fix service :: "unit demo_service" and d
  let ?dir = "[lit ''srv'', lit ''static'']" and ?file = "[lit ''etc'', lit ''passwd'']"
  have dirs: "is_directory small_fs (take k ?dir)" for k
    by (cases k; cases "k - 1") (auto simp: small_fs_def)
  have above: "is_directory small_fs (take k ?file)" if "k < length ?file" for k
    using that by (auto simp: small_fs_def less_Suc_eq)
  have target: "dash_target \<lparr>dash_target = lit ''/../../etc/passwd'', content_length = None, dash_body = []\<rparr> =
      escape_target (length ?dir) ?file"
    by code_simp
  have names: "\<forall>p\<in>set ?file. piece_ok p" by (simp add: piece_ok_def lit_def)
  have "file_bytes small_fs ?file = Some ''root''" by (simp add: small_fs_def)
  from static_files_are_not_confined [OF dirs _ above _ names this target, THEN conjunct1]
  have "do_GET small_fs ?dir service \<lparr>dash_target = lit ''/../../etc/passwd'', content_length = None, dash_body = []\<rparr> d =
      (FileReply (media_type (file_suffix (last ?file))) ''root'', d)"
    by simp
  moreover have "media_type (file_suffix (last ?file)) = lit ''application/octet-stream''" by code_simp
  ultimately show "do_GET small_fs ?dir service \<lparr>dash_target = lit ''/../../etc/passwd'', content_length = None, dash_body = []\<rparr> d =
      (FileReply (lit ''application/octet-stream'') ''root'', d)"
    by simp
qed

end
