(* ===== verification/Spec2Isabelle.thy ===== *)
theory Spec2Isabelle
  imports Storage_Properties Command_Properties Protocol_Properties Runtime_Properties Remote_Calls
    Ticketing_Properties System_Properties Load_Properties Life_Properties App_Properties
    Time_Properties Worker_Properties Dashboard_Properties
begin

text \<open>
  This library verifies the ticket booking system of the repository. The system has two
  servers and an application server that uses both.

  \<^bold>\<open>Mini Redis\<close> (\<open>storage/\<close>, \<open>commands/\<close>, \<open>protocol/\<close>, \<open>server/\<close>) keeps
  keys with deadlines, seats and waiting queues in memory, answers RESP requests over TCP and
  saves snapshots to SQLite. The \<^bold>\<open>ticketing database service\<close> (\<open>ticketing_api/\<close>) keeps
  events, users, seats, reservations and payments in SQLite behind an HTTP interface. The
  \<^bold>\<open>application server\<close> (\<open>app_server/\<close>) runs the flows hold, confirm, cancel and purchase
  over a RESP client and an HTTP client; a reconciler repairs the seats in Mini Redis from the
  reservations of the database.

  \<^bold>\<open>Conventions.\<close> A Python string is a list of code points (\<open>ustr\<close>), bytes are Isabelle
  characters, integers are \<open>int\<close>; times are rationals, with the rounding of binary64 written
  out where the code computes with floats, and the dates of the ticketing service are
  \<open>datetime\<close>s. An operation is a function of the state that returns
  its outcome and the new state; an exception is a value \<open>Inl\<close>. The clock is an argument: one
  reading per call of an engine method, one argument per reading of the database service. What
  the sources only call (SQLite's row order, the texts of library exceptions, the answers that the
  web framework makes itself, pydantic's conversions, random identifiers, how the network cuts a
  stream) are arguments too.

  \<^bold>\<open>Theories and what they model.\<close>
  \<^item> \<open>Prelude\<close>: strings, result types, dictionaries with their interface \<open>dict_like\<close>,
    invariants of sequences of calls (\<open>preserved\<close>), round trips (\<open>codec\<close>).
  \<^item> \<open>Py_Text\<close>, \<open>Py_Utf8\<close>, \<open>Py_Float\<close>, \<open>Py_Json\<close>, \<open>Py_Datetime\<close>: the parts of the
    language and its library that the sources use, with the round trips the components rest on;
    the last has the calendar, sums of times, UTC and \<open>isoformat\<close>, and shows that texts in UTC
    are in the order of time.
  \<^item> \<open>Storage_Ttl\<close>, \<open>Storage_Engine\<close> (\<open>storage/ttl.py\<close>, \<open>storage/engine.py\<close>): every
    method of \<open>StorageEngine\<close>. \<open>Storage_Live\<close> describes the store by its live keys.
    \<open>Storage_Seats\<close> and \<open>Storage_Queues\<close> state the abstract seat and the abstract waiting
    line as interfaces (\<open>seat_machine\<close>, \<open>waiting_line\<close>) and prove that the engine refines
    them.
  \<^item> \<open>Commands\<close> (\<open>commands/registry.py\<close>, \<open>commands/handler.py\<close>): the dispatch of every
    command. \<open>Command_Laws\<close> and \<open>Command_Histories\<close> hold facts about all commands at once
    and about what survives the commands of other clients.
  \<^item> \<open>Resp_Parser\<close>, \<open>Resp_Encoder\<close> (\<open>protocol/\<close>) and \<open>Redis_Client\<close>
    (\<open>app_server/redis_client.py\<close>): both ends of the protocol. \<open>Resp_Wire\<close> and
    \<open>Wire_Roundtrip\<close> relate them.
  \<^item> \<open>Server\<close>, \<open>Persistence\<close>, \<open>Executor\<close> (\<open>server/server.py\<close>,
    \<open>storage/sqlite_store.py\<close>, \<open>server/executor.py\<close>): a connection, snapshots, and the
    executor as a step relation over all interleavings of client threads, workers, start and
    stop, in which a call of the handler takes time and excludes no other call. \<open>Server_Laws\<close> and \<open>Session_Laws\<close> show that a connection answers every command in
    order; \<open>Remote_Calls\<close> that a call of the client is a call of the handler.
  \<^item> \<open>Server_Life\<close> (\<open>server/server.py\<close>): the life of the process, from the restored
    snapshot through periodic snapshots to the final one, as a step relation of the main thread,
    the clients and the snapshot thread.
  \<^item> \<open>Ticketing_Db\<close>, \<open>Ticketing_Service\<close>, \<open>Ticketing_Seed\<close> (\<open>ticketing_api/database.py\<close>,
    \<open>repository.py\<close>, \<open>service.py\<close>, \<open>demo_layout.py\<close>): tables with the constraints of the
    schema, every statement and every workflow. \<open>Ticketing_Calls\<close> has the calls of the service
    that may write, as steps. \<open>Ticketing_Invariants\<close>, \<open>Ticketing_Laws\<close> and \<open>Ticketing_Sweep\<close>
    show that every workflow keeps the invariant of the tables, what it does to each row, and that
    the sweep over stale holds completes.
  \<^item> \<open>App_Service\<close>, \<open>Reconciler\<close>, \<open>Db_Client\<close> (\<open>app_server/service.py\<close>,
    \<open>orchestration_log.py\<close>, \<open>reconciler.py\<close>, \<open>db_client.py\<close>, the exception handlers of
    \<open>ticketing_api/app.py\<close>): every flow as an action over two arbitrary clients.
    \<open>Flow_Calculus\<close> has the rules to reason about flows. \<open>Timestamps\<close> has
    \<open>normalize_timestamp\<close> and the clock of \<open>ticketing_api/service.py\<close>.
  \<^item> \<open>Reconcile_Worker\<close> (\<open>scripts/reconciler.py\<close>): the loop around the reconciler, with
    other processes in between as a relation.
  \<^item> \<open>Dashboard\<close> (\<open>client/client.py\<close>): the request handler over a service and a file system
    that are arguments.
  \<^item> \<open>Web_Models\<close> (\<open>ticketing_api/schemas.py\<close>, the dictionaries of
    \<open>ticketing_api/repository.py\<close>): models as a type of their own, how they validate a JSON
    value, and the rows as JSON. \<open>Ticketing_Api\<close> (\<open>ticketing_api/router.py\<close>,
    \<open>app.py\<close>): the routes of the database service; \<open>Db_Http\<close> (\<open>app_server/db_client.py\<close>):
    the client's requests to them; \<open>App_Api\<close> (\<open>app_server/app.py\<close>, \<open>schemas.py\<close>): the
    routes of the application server.
  \<^item> \<open>Seat_Service\<close> states what a flow relies on in the seat store (the interface
    \<open>seat_service\<close>: one abstract seat machine per seat) and discharges it for the RESP client
    over the command handler. \<open>Ticketing_System\<close> puts the application server on the models of
    both stores, \<open>System_Flows\<close> has the rules for every call of a flow there.

  \<^item> \<open>Load_Reader\<close>, \<open>Load_Client\<close> (\<open>client/auto_ticketing.py\<close>): the load client's own
    reader of replies, its statistics and its threads, as a step relation over interleavings in
    which requests may be lost or executed late; \<open>Load_Report\<close> has what it prints. \<open>Load_Laws\<close> has the invariant (owners, locks,
    counters), \<open>Load_Runs\<close> shows that every step keeps it and decreases a rank.

  \<^bold>\<open>Properties.\<close> \<open>Storage_Properties\<close>: holds are exclusive and can be confirmed,
  confirmations last, queues are first in, first out, and both refine their abstract machines.
  \<open>Command_Properties\<close>: expiry, isolation of keys, failing commands. \<open>Protocol_Properties\<close>:
  round trips, chunking, pipelining, malformed requests. \<open>Runtime_Properties\<close>: restarts and
  the executor (serial, first in first out, progress, and a task that can be abandoned).
  \<open>Ticketing_Properties\<close>: at most one confirmed reservation per seat, settled reservations
  are final but for the seeding of their event, the exact outcomes of the workflows, the sweep,
  seeding. \<open>System_Properties\<close>: a reconciler pass restores agreement within its limit, a hold is all or nothing, a confirmation settles both
  stores, refused holds change nothing, finalization is bounded, and the hold that leaks on an
  overflow. \<open>Load_Properties\<close>: the load client sells each seat once, counts right and ends.
  \<open>Life_Properties\<close>: what a server finds after a crash and after an orderly shutdown, and the
  answered write that a late snapshot loses. \<open>Http_Properties\<close>: a call over HTTP is the call of
  the service. \<open>App_Properties\<close>: answers fit their models, and refused numbers of seconds.
  \<open>Time_Properties\<close>: timestamps sort by time, and a hold lasts its seconds.
  \<open>Worker_Properties\<close>: the worker keeps the stores in agreement on the earliest
  confirmations up to its limit, and never repairs the seats beyond it.
  \<open>Dashboard_Properties\<close>: the static route serves any file whose path has plain names.
  This theory: a remote call is the local call.

  \<^bold>\<open>Bounds.\<close> The reply parser of the client recurses in arrays; its depth argument stands for
  the recursion limit of the interpreter, and depth two is enough for every reply of the server
  (the statement about remote calls holds from there on). Loops run by structural recursion on
  the data, or by a measure that is proved; the retry loop counts its attempts. The
  executor, the life of the server, the load client and the worker, whose threads interleave or
  may wait forever, are step relations. Integers longer than the interpreter's limit
  of 4300 digits are not printable, and the statements that print numbers ask for that.

  \<^bold>\<open>Not modelled.\<close> Two calls of the database service at once, whose statements run on connections
  of their own and are committed one by one (a call is one step); sockets and signal handling; parsing of command lines; the module-level
  applications and the redirects of the web framework; how a model of the web interface reads and
  renders a date (an argument), so that the workflows take the texts of timestamps; the service
  of the dashboard, a module that the repository does not have; two flows that interleave, except
  for the commands of other clients on Mini Redis, which the properties of its store allow, and
  for what happens between the passes of the worker.
\<close>

section \<open>A call through the network\<close>

text \<open>
  Claim C4: a call of the client is a call of the command handler. On an established connection,
  whatever pieces the request and the reply arrive in, executing a command whose tokens are
  Unicode texts returns what the handler computes on the current store, scalars and lists as
  such and an error as a conflict that carries its text, and leaves the store as the handler
  leaves it. The numbers of the result have to be short enough to be printed.
\<close>

theorem remote_call_is_local_call:
  assumes "request_ok c" and "cuts chunk1" and "cuts chunk2" and "library_texts_ok lib"
    and "\<And>r. fst (handle_command (clock k) c s) = Inr r \<Longrightarrow> result_wire r"
  shows "remote_exec (Suc (Suc d)) chunk1 chunk2 clock lib c (k, s) =
    (client_view (lib (k, s) c) (fst (handle_command (clock k) c s)),
     Suc k, snd (handle_command (clock k) c s))"
  by (rule remote_exec_local [OF assms])

definition whole :: "bytes \<Rightarrow> bytes list" where
  "whole m = (if m = [] then [] else [m])"

theorem remote_call_is_local_call_witness:
  "fst (remote_exec 2 whole whole (\<lambda>_. 0) (\<lambda>_ _ _. []) [lit ''GET'', lit ''k''] (0, new_engine)) = Inr RNone"
proof -
  let ?c = "[lit ''GET'', lit ''k'']"
  have h: "fst (handle_command 0 ?c new_engine) = Inr (Scalar SNone)"
    by code_simp
  have "cuts whole" by (simp add: cuts_def whole_def)
  moreover have "request_ok ?c" by (simp add: request_ok_def token_ok_lit ascii_def printable_small)
  moreover have "library_texts_ok (\<lambda>(_ :: nat \<times> StorageEngine) _ _. [])" by (simp add: library_texts_ok_def)
  moreover have "result_wire r" if "fst (handle_command 0 ?c new_engine) = Inr r" for r
    using that by (auto simp: h result_wire_def scalar_wire_def)
  ultimately show ?thesis
    using remote_call_is_local_call [of ?c whole whole "\<lambda>_ _ _. []" "\<lambda>_. 0" 0 new_engine 0]
    by (simp add: h client_view_def reply_of_result_def reply_of_scalar_def numeral_2_eq_2)
qed

end
